(* ===== verification/Prelude.thy ===== *)
theory Prelude
  imports Main "HOL-Library.AList" "HOL-Library.Word"
begin

text \<open>
  Shared vocabulary of the development.

  A Go call that returns \<open>(value, error)\<close> is a value of type \<open>'a result\<close>: \<open>Inl e\<close> when the
  returned error is not nil, \<open>Inr v\<close> when it is nil.  The error type keeps what the code can
  observe of an error: its text (\<open>err.Error()\<close> ends up in the status of a Group), whether it is
  the API server's NotFound error (\<^verbatim>\<open>client.IgnoreNotFound\<close>) and whether it is the sentinel
  \<^verbatim>\<open>redis.Nil\<close>.  A run-time panic is a further constructor; the handlers of the source that test
  \<open>err != nil\<close> do not catch it, and neither do their models.

  A Go map with string keys is an association list with distinct keys (\<open>gomap\<close>), read by
  \<^const>\<open>map_of\<close> and written by \<^const>\<open>AList.update\<close> and \<^const>\<open>AList.delete\<close>.  The order in
  which \<^verbatim>\<open>range\<close> visits the keys of a map is unspecified in Go: a definition that ranges over a
  map takes the visiting order as a parameter, and \<open>go_range\<close> is what the language promises of it.
\<close>

named_theorems result_iff \<open>when a sequence of calls returns without an error\<close>
named_theorems gomap_simps \<open>reading a Go map after an update or a deletion\<close>

section \<open>Errors and results\<close>

datatype gerror =
    GoErr string
  | NotFound string
  | RedisNil
  | GoPanic string

type_synonym 'a result = "gerror + 'a"

fun Error :: "gerror \<Rightarrow> string" where
  "Error (GoErr s) = s"
| "Error (NotFound s) = s"
| "Error RedisNil = ''redis: nil''"
| "Error (GoPanic s) = s"

fun is_panic :: "gerror \<Rightarrow> bool" where
  "is_panic (GoPanic _) = True"
| "is_panic _ = False"

fun is_ok :: "'a result \<Rightarrow> bool" where
  "is_ok (Inl _) = False"
| "is_ok (Inr _) = True"

lemma is_ok_iff [result_iff]: "is_ok r \<longleftrightarrow> (\<exists>x. r = Inr x)"
  by (cases r) auto

lemma not_is_okE:
  assumes "\<not> is_ok r"
  obtains e where "r = Inl e"
  using assms by (cases r) auto

lemma map_sum_Inr_iff [result_iff]: "map_sum id f r = Inr y \<longleftrightarrow> (\<exists>x. r = Inr x \<and> y = f x)"
  by (cases r) auto

lemma map_sum_Inl_iff [result_iff]: "map_sum id f r = Inl e \<longleftrightarrow> r = Inl e"
  by (cases r) auto

lemma case_result_Inr_iff [result_iff]:
  "(case r of Inl e \<Rightarrow> Inl e | Inr x \<Rightarrow> f x) = Inr y \<longleftrightarrow> (\<exists>x. r = Inr x \<and> f x = Inr y)"
  by (cases r) auto

section \<open>Go maps\<close>

type_synonym 'v gomap = "(string \<times> 'v) list"

definition wf_gomap :: "'v gomap \<Rightarrow> bool" where
  "wf_gomap m \<longleftrightarrow> distinct (map fst m)"

lemma wf_gomap_Nil [simp]: "wf_gomap []"
  by (simp add: wf_gomap_def)

lemma wf_gomap_update [simp]: "wf_gomap m \<Longrightarrow> wf_gomap (AList.update k v m)"
  unfolding wf_gomap_def by (rule distinct_update)

lemma wf_gomap_delete [simp]: "wf_gomap m \<Longrightarrow> wf_gomap (AList.delete k m)"
  unfolding wf_gomap_def by (rule distinct_delete)

lemma map_of_update [gomap_simps]:
  "map_of (AList.update k v m) = (map_of m)(k \<mapsto> v)"
  by (rule update_conv')

lemma map_of_delete [gomap_simps]:
  "map_of (AList.delete k m) = (map_of m)(k := None)"
  by (rule ext) (simp add: delete_conv)

text \<open>Reading an absent key of a Go map of strings gives the zero value.\<close>

definition gget :: "string gomap \<Rightarrow> string \<Rightarrow> string" where
  "gget m k = (case map_of m k of None \<Rightarrow> [] | Some v \<Rightarrow> v)"

lemma gget_update [gomap_simps]:
  "gget (AList.update k v m) k' = (if k' = k then v else gget m k')"
  by (simp add: gget_def gomap_simps)

lemma gget_Nil [simp]: "gget [] k = []"
  by (simp add: gget_def)

section \<open>The order of a range statement\<close>

type_synonym iter = "string list \<Rightarrow> string list"

definition go_range :: "iter \<Rightarrow> bool" where
  "go_range it \<longleftrightarrow> (\<forall>ks. distinct ks \<longrightarrow> distinct (it ks) \<and> set (it ks) = set ks)"

lemma go_range_id: "go_range (\<lambda>ks. ks)"
  by (simp add: go_range_def)

lemma go_range_rev: "go_range rev"
  by (simp add: go_range_def)

lemma go_range_set: "go_range it \<Longrightarrow> wf_gomap m \<Longrightarrow> set (it (map fst m)) = fst ` set m"
  by (simp add: go_range_def wf_gomap_def)

lemma go_range_distinct: "go_range it \<Longrightarrow> wf_gomap m \<Longrightarrow> distinct (it (map fst m))"
  by (simp add: go_range_def wf_gomap_def)

end
