(* ===== verification/Cache.thy ===== *)
theory Cache
  imports Prelude
begin

text \<open>
  The cache (\<^verbatim>\<open>pkg/cache\<close>): the interface with its three operations, the in-memory
  implementation on top of the vendored go-cache store, the Redis implementation on top of a Redis
  client, and \<^verbatim>\<open>cache.New\<close>.

  The interface is the record \<open>cache\<close> of state-passing operations; \<open>Get\<close> returns a Go pair, because a
  caller looks at the value even when the error is not nil.  Every reading of the clock takes the
  next value of an arbitrary sequence \<open>clock\<close> of nanoseconds since the epoch.  The Redis client is a
  parameter (\<open>redis_api\<close>).  The locale \<open>cache_store\<close> is what the reconciler relies on: an invariant
  and an abstraction to a finite map that the operations act on.
\<close>

section \<open>The interface\<close>

text \<open>A value of type \<^verbatim>\<open>interface{}\<close>: a string, or anything else (nil included).\<close>

datatype any = Str string | Other

type_synonym duration = "64 word"

record 'c cache =
  cGet :: "string \<Rightarrow> 'c \<Rightarrow> (any \<times> gerror option) \<times> 'c"
  cSet :: "string \<Rightarrow> string \<Rightarrow> duration \<Rightarrow> 'c \<Rightarrow> gerror option \<times> 'c"
  cDelete :: "string \<Rightarrow> 'c \<Rightarrow> gerror option \<times> 'c"

definition Second :: duration where
  "Second = 1000000000"

definition NoExpiration :: duration where
  "NoExpiration = - 1 * Second"

section \<open>The vendored store\<close>

record Item =
  Object :: string
  Expiration :: "64 word"

record gocache =
  defaultExpiration :: duration
  items :: "Item gomap"

definition newCache :: "duration \<Rightarrow> gocache" where
  "newCache de = \<lparr>defaultExpiration = (if de = 0 then - 1 else de), items = []\<rparr>"

definition gocache_Set :: "int \<Rightarrow> string \<Rightarrow> string \<Rightarrow> duration \<Rightarrow> gocache \<Rightarrow> gocache" where
  "gocache_Set now k x d c =
     (let d' = (if d = 0 then defaultExpiration c else d);
          e = (if 0 < sint d' then word_of_int (now + sint d') else 0)
      in c\<lparr>items := AList.update k \<lparr>Object = x, Expiration = e\<rparr> (items c)\<rparr>)"

definition expired :: "int \<Rightarrow> Item \<Rightarrow> bool" where
  "expired now item \<longleftrightarrow> 0 < sint (Expiration item) \<and> sint (Expiration item) < now"

definition gocache_Get :: "int \<Rightarrow> string \<Rightarrow> gocache \<Rightarrow> string option" where
  "gocache_Get now k c =
     (case map_of (items c) k of
        None \<Rightarrow> None
      | Some item \<Rightarrow> if expired now item then None else Some (Object item))"

definition gocache_Delete :: "string \<Rightarrow> gocache \<Rightarrow> gocache" where
  "gocache_Delete k c = c\<lparr>items := AList.delete k (items c)\<rparr>"

definition gocache_Flush :: "gocache \<Rightarrow> gocache" where
  "gocache_Flush c = c\<lparr>items := []\<rparr>"

text \<open>One run of the store's janitor.\<close>

definition DeleteExpired :: "int \<Rightarrow> gocache \<Rightarrow> gocache" where
  "DeleteExpired now c = c\<lparr>items := filter (\<lambda>(k, v). \<not> expired now v) (items c)\<rparr>"

section \<open>The in-memory cache\<close>

record inmemory_Config =
  DefaultExpiration :: "32 word"
  CleanupInterval :: "32 word"

record InMemoryCache =
  client :: gocache
  tick :: nat

definition inmemory_getDefaultConfig :: inmemory_Config where
  "inmemory_getDefaultConfig = \<lparr>DefaultExpiration = - 1, CleanupInterval = - 1\<rparr>"

text \<open>\<^verbatim>\<open>time.Duration(n) * time.Second\<close> for an \<^verbatim>\<open>int32\<close>: sign extension, then a wrapping product.\<close>

definition seconds :: "32 word \<Rightarrow> duration" where
  "seconds n = scast n * Second"

definition inmemory_NewCache :: "inmemory_Config option \<Rightarrow> InMemoryCache result" where
  "inmemory_NewCache config =
     (let cfg = (case config of None \<Rightarrow> inmemory_getDefaultConfig | Some c \<Rightarrow> c)
      in Inr \<lparr>client = newCache (seconds (DefaultExpiration cfg)), tick = 0\<rparr>)"

definition inmemory_Set ::
    "(nat \<Rightarrow> int) \<Rightarrow> string \<Rightarrow> string \<Rightarrow> duration \<Rightarrow> InMemoryCache \<Rightarrow> gerror option \<times> InMemoryCache" where
  "inmemory_Set clock key value ttl imc =
     (None, imc\<lparr>client := gocache_Set (clock (tick imc)) key value ttl (client imc), tick := Suc (tick imc)\<rparr>)"

definition inmemory_Get ::
    "(nat \<Rightarrow> int) \<Rightarrow> string \<Rightarrow> InMemoryCache \<Rightarrow> (any \<times> gerror option) \<times> InMemoryCache" where
  "inmemory_Get clock key imc =
     (case gocache_Get (clock (tick imc)) key (client imc) of
        None \<Rightarrow> (Str [], Some (GoErr ''key not found''))
      | Some val \<Rightarrow> (Str val, None),
      imc\<lparr>tick := Suc (tick imc)\<rparr>)"

definition inmemory_Delete ::
    "(nat \<Rightarrow> int) \<Rightarrow> string \<Rightarrow> InMemoryCache \<Rightarrow> gerror option \<times> InMemoryCache" where
  "inmemory_Delete clock key imc =
     (let found = (gocache_Get (clock (tick imc)) key (client imc) \<noteq> None);
          cl = (if found then gocache_Delete key (client imc) else client imc)
      in (None, imc\<lparr>client := cl, tick := Suc (tick imc)\<rparr>))"

definition inmemory_Flush :: "InMemoryCache \<Rightarrow> InMemoryCache" where
  "inmemory_Flush imc = imc\<lparr>client := gocache_Flush (client imc)\<rparr>"

definition inmemory_cache :: "(nat \<Rightarrow> int) \<Rightarrow> InMemoryCache cache" where
  "inmemory_cache clock =
     \<lparr>cGet = inmemory_Get clock, cSet = inmemory_Set clock, cDelete = inmemory_Delete clock\<rparr>"

section \<open>The Redis cache\<close>

record redis_Config =
  Host :: string
  Port :: string
  Database :: "32 word"
  Password :: string

record redis_options =
  Addrs :: "string list"
  opt_Password :: string
  DB :: "64 word"

text \<open>The Redis client: \<open>r_connect\<close> is the constructor, the others are commands.\<close>

record 'r redis_api =
  r_connect :: "redis_options \<Rightarrow> 'r"
  r_ping :: "'r \<Rightarrow> gerror option \<times> 'r"
  r_set :: "string \<Rightarrow> string \<Rightarrow> duration \<Rightarrow> 'r \<Rightarrow> gerror option \<times> 'r"
  r_get :: "string \<Rightarrow> 'r \<Rightarrow> string result \<times> 'r"
  r_del :: "string \<Rightarrow> 'r \<Rightarrow> gerror option \<times> 'r"
  r_close :: "'r \<Rightarrow> gerror option \<times> 'r"

definition redis_getDefaultConfig :: redis_Config where
  "redis_getDefaultConfig = \<lparr>Host = ''localhost'', Port = ''6379'', Database = 0, Password = []\<rparr>"

definition redis_NewCache :: "'r redis_api \<Rightarrow> redis_Config option \<Rightarrow> 'r result" where
  "redis_NewCache api config =
     (let cfg = (case config of None \<Rightarrow> redis_getDefaultConfig | Some c \<Rightarrow> c);
          options = \<lparr>Addrs = [Host cfg @ '':'' @ Port cfg], opt_Password = Password cfg, DB = scast (Database cfg)\<rparr>
      in case r_ping api (r_connect api options) of
           (Some err, _) \<Rightarrow> Inl (GoErr (''ping failed: '' @ Error err))
         | (None, rc) \<Rightarrow> Inr rc)"

definition redis_Set :: "'r redis_api \<Rightarrow> string \<Rightarrow> string \<Rightarrow> duration \<Rightarrow> 'r \<Rightarrow> gerror option \<times> 'r" where
  "redis_Set api key value ttl rc = r_set api key value ttl rc"

definition redis_Get :: "'r redis_api \<Rightarrow> string \<Rightarrow> 'r \<Rightarrow> (any \<times> gerror option) \<times> 'r" where
  "redis_Get api key rc =
     (case r_get api key rc of
        (Inl err, rc') \<Rightarrow> ((Str [], Some err), rc')
      | (Inr val, rc') \<Rightarrow> ((Str val, None), rc'))"

definition redis_Delete :: "'r redis_api \<Rightarrow> string \<Rightarrow> 'r \<Rightarrow> gerror option \<times> 'r" where
  "redis_Delete api key rc = r_del api key rc"

definition redis_Disconnect :: "'r redis_api \<Rightarrow> 'r \<Rightarrow> gerror option \<times> 'r" where
  "redis_Disconnect api rc = r_close api rc"

section \<open>Choosing a driver\<close>

record cache_Config =
  Driver :: string
  cfg_InMemory :: "inmemory_Config option"
  cfg_Redis :: "redis_Config option"

text \<open>The value of interface type that \<^verbatim>\<open>cache.New\<close> returns, and the dispatch on it.\<close>

datatype 'r Cache_impl = InMem InMemoryCache | Redis 'r

definition cache_New :: "'r redis_api \<Rightarrow> cache_Config option \<Rightarrow> 'r Cache_impl result" where
  "cache_New api config =
     (case config of
        None \<Rightarrow> Inl (GoErr ''config cannot be nil'')
      | Some cfg \<Rightarrow>
          if Driver cfg = ''memory'' then map_sum id InMem (inmemory_NewCache (cfg_InMemory cfg))
          else if Driver cfg = ''redis'' then map_sum id Redis (redis_NewCache api (cfg_Redis cfg))
          else Inl (GoErr ''invalid cache driver''))"

fun impl_Get where
  "impl_Get clock api key (InMem c) = (let (r, c') = inmemory_Get clock key c in (r, InMem c'))"
| "impl_Get clock api key (Redis c) = (let (r, c') = redis_Get api key c in (r, Redis c'))"

fun impl_Set where
  "impl_Set clock api key value ttl (InMem c) = (let (r, c') = inmemory_Set clock key value ttl c in (r, InMem c'))"
| "impl_Set clock api key value ttl (Redis c) = (let (r, c') = redis_Set api key value ttl c in (r, Redis c'))"

fun impl_Delete where
  "impl_Delete clock api key (InMem c) = (let (r, c') = inmemory_Delete clock key c in (r, InMem c'))"
| "impl_Delete clock api key (Redis c) = (let (r, c') = redis_Delete api key c in (r, Redis c'))"

definition impl_cache :: "(nat \<Rightarrow> int) \<Rightarrow> 'r redis_api \<Rightarrow> 'r Cache_impl cache" where
  "impl_cache clock api =
     \<lparr>cGet = impl_Get clock api, cSet = impl_Set clock api, cDelete = impl_Delete clock api\<rparr>"

section \<open>The contract\<close>

text \<open>
  A cache that works: under the invariant, \<open>Get\<close> reports the stored value or a miss, and the writes
  with no expiry succeed and act on the abstract map.
\<close>

locale cache_store =
  fixes ops :: "'c cache" and inv :: "'c \<Rightarrow> bool" and \<alpha> :: "'c \<Rightarrow> string \<rightharpoonup> string"
  assumes get_hit: "inv c \<Longrightarrow> \<alpha> c k = Some v \<Longrightarrow> \<exists>c'. cGet ops k c = ((Str v, None), c') \<and> inv c' \<and> \<alpha> c' = \<alpha> c"
    and get_miss: "inv c \<Longrightarrow> \<alpha> c k = None \<Longrightarrow>
          \<exists>e c'. cGet ops k c = ((Str [], Some e), c') \<and> \<not> is_panic e \<and> inv c' \<and> \<alpha> c' = \<alpha> c"
    and set_ok: "inv c \<Longrightarrow> \<exists>c'. cSet ops k v NoExpiration c = (None, c') \<and> inv c' \<and> \<alpha> c' = (\<alpha> c)(k \<mapsto> v)"
    and delete_ok: "inv c \<Longrightarrow> \<exists>c'. cDelete ops k c = (None, c') \<and> inv c' \<and> \<alpha> c' = (\<alpha> c)(k := None)"
begin

text \<open>The value a client sees after an unconditional read.\<close>

lemma get_value:
  assumes "inv c"
  obtains e c' where "cGet ops k c = ((Str (case \<alpha> c k of None \<Rightarrow> [] | Some v \<Rightarrow> v), e), c')"
    and "e = None \<longleftrightarrow> \<alpha> c k \<noteq> None" and "\<forall>x. e = Some x \<longrightarrow> \<not> is_panic x" and "inv c'" and "\<alpha> c' = \<alpha> c"
  using get_hit [OF assms, of k] get_miss [OF assms, of k] by (cases "\<alpha> c k") fastforce+

text \<open>Reading back what was written, and leaving the other keys alone.\<close>

lemma get_after_set:
  assumes "inv c" and "cSet ops k v NoExpiration c = (r, c')"
  shows "fst (cGet ops k c') = (Str v, None)"
    and "k' \<noteq> k \<Longrightarrow> fst (fst (cGet ops k' c')) = fst (fst (cGet ops k' c))"
proof -
  from set_ok [OF assms(1), of k v] assms(2) have c': "inv c'" "\<alpha> c' = (\<alpha> c)(k \<mapsto> v)" by auto
  then show "fst (cGet ops k c') = (Str v, None)" using get_hit [of c' k v] by auto
  show "fst (fst (cGet ops k' c')) = fst (fst (cGet ops k' c))" if "k' \<noteq> k"
    using get_value [OF c'(1), of k'] get_value [OF assms(1), of k'] that c'(2)
    by (metis fst_conv fun_upd_other)
qed

end

section \<open>Sequences of operations\<close>

datatype cache_op = OpGet string | OpSet string string | OpDelete string

text \<open>What a client sees of a read: the value when the error is nil.\<close>

fun observe :: "any \<times> gerror option \<Rightarrow> string option" where
  "observe (Str v, None) = Some v"
| "observe _ = None"

fun run_ops :: "'c cache \<Rightarrow> cache_op list \<Rightarrow> 'c \<Rightarrow> string option list \<times> 'c" where
  "run_ops ops [] c = ([], c)"
| "run_ops ops (OpGet k # xs) c =
     (let (r, c1) = cGet ops k c; (os, c2) = run_ops ops xs c1 in (observe r # os, c2))"
| "run_ops ops (OpSet k v # xs) c = run_ops ops xs (snd (cSet ops k v NoExpiration c))"
| "run_ops ops (OpDelete k # xs) c = run_ops ops xs (snd (cDelete ops k c))"

text \<open>The specification: the same operations on a map.\<close>

fun run_map :: "cache_op list \<Rightarrow> (string \<rightharpoonup> string) \<Rightarrow> string option list \<times> (string \<rightharpoonup> string)" where
  "run_map [] m = ([], m)"
| "run_map (OpGet k # xs) m = (let (os, m') = run_map xs m in (m k # os, m'))"
| "run_map (OpSet k v # xs) m = run_map xs (m(k \<mapsto> v))"
| "run_map (OpDelete k # xs) m = run_map xs (m(k := None))"

context cache_store
begin

lemma observe_get:
  assumes "inv c"
  shows "\<exists>r c'. cGet ops k c = (r, c') \<and> observe r = \<alpha> c k \<and> inv c' \<and> \<alpha> c' = \<alpha> c"
  using get_hit [OF assms, of k] get_miss [OF assms, of k] by (cases "\<alpha> c k") fastforce+

lemma run_ops_refines:
  "inv c \<Longrightarrow> \<exists>c'. run_ops ops xs c = (fst (run_map xs (\<alpha> c)), c') \<and> inv c' \<and> \<alpha> c' = snd (run_map xs (\<alpha> c))"
proof (induction xs arbitrary: c)
  case (Cons x xs)
  show ?case
  proof (cases x)
    case (OpGet k)
    from observe_get [OF Cons.prems, of k] obtain r c1 where
      "cGet ops k c = (r, c1)" "observe r = \<alpha> c k" "inv c1" "\<alpha> c1 = \<alpha> c" by blast
    with Cons.IH [of c1] OpGet show ?thesis by (auto split: prod.splits)
  next
    case (OpSet k v)
    with set_ok [OF Cons.prems, of k v] Cons.IH show ?thesis by (metis run_ops.simps(3) run_map.simps(3) snd_conv)
  next
    case (OpDelete k)
    with delete_ok [OF Cons.prems, of k] Cons.IH show ?thesis by (metis run_ops.simps(4) run_map.simps(4) snd_conv)
  qed
qed simp

end

section \<open>The in-memory cache satisfies the contract\<close>

definition never_expires :: "InMemoryCache \<Rightarrow> bool" where
  "never_expires imc \<longleftrightarrow> wf_gomap (items (client imc)) \<and> (\<forall>(k, v) \<in> set (items (client imc)). Expiration v = 0)"

definition contents :: "InMemoryCache \<Rightarrow> string \<rightharpoonup> string" where
  "contents imc = map_option Object \<circ> map_of (items (client imc))"

lemma sint_NoExpiration: "sint NoExpiration = - 1000000000"
  by (simp add: NoExpiration_def Second_def)

lemma not_expired: "never_expires imc \<Longrightarrow> map_of (items (client imc)) k = Some v \<Longrightarrow> \<not> expired now v"
  by (auto simp: never_expires_def expired_def dest!: map_of_SomeD)

lemma gocache_Get_contents: "never_expires imc \<Longrightarrow> gocache_Get now k (client imc) = contents imc k"
  using not_expired [of imc k] by (auto simp: gocache_Get_def contents_def split: option.splits)

lemma gocache_Set_forever:
  "gocache_Set now k v NoExpiration c = c\<lparr>items := AList.update k \<lparr>Object = v, Expiration = 0\<rparr> (items c)\<rparr>"
proof -
  have "NoExpiration \<noteq> 0" by (simp add: NoExpiration_def Second_def)
  then show ?thesis by (simp add: gocache_Set_def sint_NoExpiration Let_def)
qed

lemma set_AList_update_subset: "set (AList.update k v m) \<subseteq> insert (k, v) (set m)"
  by (induction m) auto

lemma never_expires_Set:
  assumes "never_expires imc" and "inmemory_Set clock k v NoExpiration imc = (r, imc')"
  shows "r = None" and "never_expires imc'" and "contents imc' = (contents imc)(k \<mapsto> v)"
proof -
  from assms(2) show "r = None" by (simp add: inmemory_Set_def)
  from assms show "never_expires imc'"
    using set_AList_update_subset [of k _ "items (client imc)"]
    by (fastforce simp: inmemory_Set_def gocache_Set_forever never_expires_def)
  from assms(2) show "contents imc' = (contents imc)(k \<mapsto> v)"
    by (auto simp: inmemory_Set_def gocache_Set_forever contents_def gomap_simps fun_eq_iff)
qed

lemma never_expires_Delete:
  assumes "never_expires imc" and "inmemory_Delete clock k imc = (r, imc')"
  shows "r = None" and "never_expires imc'" and "contents imc' = (contents imc)(k := None)"
proof -
  from assms(2) show "r = None" by (simp add: inmemory_Delete_def Let_def)
  from assms show "never_expires imc'"
    by (auto simp: inmemory_Delete_def Let_def gocache_Delete_def never_expires_def AList.delete_eq split: if_splits
        intro: wf_gomap_delete [unfolded AList.delete_eq])
  show "contents imc' = (contents imc)(k := None)"
  proof (cases "contents imc k")
    case None
    with assms have "contents imc' = contents imc"
      by (auto simp: inmemory_Delete_def gocache_Get_contents contents_def)
    with None show ?thesis by auto
  next
    case (Some v)
    with assms show ?thesis
      by (auto simp: inmemory_Delete_def gocache_Get_contents gocache_Delete_def contents_def gomap_simps fun_eq_iff)
  qed
qed

lemma never_expires_Get:
  assumes "never_expires imc"
  shows "inmemory_Get clock k imc =
           ((case contents imc k of None \<Rightarrow> (Str [], Some (GoErr ''key not found'')) | Some v \<Rightarrow> (Str v, None)),
            imc\<lparr>tick := Suc (tick imc)\<rparr>)"
    and "never_expires (imc\<lparr>tick := n\<rparr>)" and "contents (imc\<lparr>tick := n\<rparr>) = contents imc"
  using assms by (simp_all add: inmemory_Get_def gocache_Get_contents never_expires_def contents_def)

lemma inmemory_cache_store: "cache_store (inmemory_cache clock) never_expires contents"
proof
  fix c k v assume c: "never_expires c"
  show "contents c k = Some v \<Longrightarrow>
      \<exists>c'. cGet (inmemory_cache clock) k c = ((Str v, None), c') \<and> never_expires c' \<and> contents c' = contents c"
    by (simp add: inmemory_cache_def never_expires_Get [OF c])
  show "contents c k = None \<Longrightarrow>
      \<exists>e c'. cGet (inmemory_cache clock) k c = ((Str [], Some e), c') \<and> \<not> is_panic e \<and> never_expires c' \<and> contents c' = contents c"
    by (simp add: inmemory_cache_def never_expires_Get [OF c])
  show "\<exists>c'. cSet (inmemory_cache clock) k v NoExpiration c = (None, c') \<and> never_expires c' \<and> contents c' = (contents c)(k \<mapsto> v)"
    using never_expires_Set [OF c, of clock k v] by (cases "inmemory_Set clock k v NoExpiration c") (simp add: inmemory_cache_def)
  show "\<exists>c'. cDelete (inmemory_cache clock) k c = (None, c') \<and> never_expires c' \<and> contents c' = (contents c)(k := None)"
    using never_expires_Delete [OF c, of clock k] by (cases "inmemory_Delete clock k c") (simp add: inmemory_cache_def)
qed

interpretation mem: cache_store "inmemory_cache clock" never_expires contents for clock
  by (rule inmemory_cache_store)

text \<open>A fresh cache.\<close>

definition empty_cache :: InMemoryCache where
  "empty_cache = \<lparr>client = newCache 0, tick = 0\<rparr>"

lemma empty_cache_ok [simp]: "never_expires empty_cache" "contents empty_cache = Map.empty"
  by (auto simp: never_expires_def contents_def empty_cache_def newCache_def)

section \<open>Either driver satisfies the contract\<close>

text \<open>
  What the documentation of the Redis client promises of a reachable server: \<open>GET\<close> of a missing key is
  the error \<open>redis.Nil\<close>, and a \<open>SET\<close> with a negative expiration sets no expiry.
\<close>

definition redis_ok :: "'r redis_api \<Rightarrow> ('r \<Rightarrow> bool) \<Rightarrow> ('r \<Rightarrow> string \<rightharpoonup> string) \<Rightarrow> bool" where
  "redis_ok api up keys \<longleftrightarrow>
     (\<forall>r k. up r \<longrightarrow>
        (\<exists>r'. r_get api k r = (case keys r k of None \<Rightarrow> Inl RedisNil | Some v \<Rightarrow> Inr v, r') \<and> up r' \<and> keys r' = keys r) \<and>
        (\<exists>r'. r_del api k r = (None, r') \<and> up r' \<and> keys r' = (keys r)(k := None)) \<and>
        (\<forall>v ttl. sint ttl \<le> 0 \<longrightarrow> (\<exists>r'. r_set api k v ttl r = (None, r') \<and> up r' \<and> keys r' = (keys r)(k \<mapsto> v))))"

fun impl_inv :: "('r \<Rightarrow> bool) \<Rightarrow> 'r Cache_impl \<Rightarrow> bool" where
  "impl_inv up (InMem c) = never_expires c"
| "impl_inv up (Redis r) = up r"

fun impl_contents :: "('r \<Rightarrow> string \<rightharpoonup> string) \<Rightarrow> 'r Cache_impl \<Rightarrow> string \<rightharpoonup> string" where
  "impl_contents keys (InMem c) = contents c"
| "impl_contents keys (Redis r) = keys r"

lemma redis_okD:
  assumes "redis_ok api up keys" and "up r"
  shows "\<exists>r'. redis_Get api k r = ((case keys r k of None \<Rightarrow> (Str [], Some RedisNil) | Some v \<Rightarrow> (Str v, None)), r')
           \<and> up r' \<and> keys r' = keys r"
    and "\<exists>r'. redis_Delete api k r = (None, r') \<and> up r' \<and> keys r' = (keys r)(k := None)"
    and "\<exists>r'. redis_Set api k v NoExpiration r = (None, r') \<and> up r' \<and> keys r' = (keys r)(k \<mapsto> v)"
proof -
  from assms have all: "(\<exists>r'. r_get api k r = (case keys r k of None \<Rightarrow> Inl RedisNil | Some v \<Rightarrow> Inr v, r') \<and> up r' \<and> keys r' = keys r)"
    "(\<exists>r'. r_del api k r = (None, r') \<and> up r' \<and> keys r' = (keys r)(k := None))"
    "(\<exists>r'. r_set api k v NoExpiration r = (None, r') \<and> up r' \<and> keys r' = (keys r)(k \<mapsto> v))"
    by (simp_all add: redis_ok_def sint_NoExpiration)
  from all(1) show "\<exists>r'. redis_Get api k r = ((case keys r k of None \<Rightarrow> (Str [], Some RedisNil) | Some v \<Rightarrow> (Str v, None)), r')
           \<and> up r' \<and> keys r' = keys r"
    by (auto simp: redis_Get_def split: option.splits)
  from all(2,3) show "\<exists>r'. redis_Delete api k r = (None, r') \<and> up r' \<and> keys r' = (keys r)(k := None)"
    "\<exists>r'. redis_Set api k v NoExpiration r = (None, r') \<and> up r' \<and> keys r' = (keys r)(k \<mapsto> v)"
    by (simp_all add: redis_Delete_def redis_Set_def)
qed

lemma impl_cache_store:
  assumes "redis_ok api up keys"
  shows "cache_store (impl_cache clock api) (impl_inv up) (impl_contents keys)"
proof
  fix c k v assume inv: "impl_inv up c"
  let ?ops = "impl_cache clock api" and ?inv = "impl_inv up" and ?\<alpha> = "impl_contents keys"
  note mem = never_expires_Get mem.set_ok [where clock = clock and k = k and v = v] mem.delete_ok [where clock = clock and k = k]
  note red = redis_okD(1) [OF assms, of _ k] redis_okD(2) [OF assms, of _ k] redis_okD(3) [OF assms, of _ k v]
  show "\<exists>c'. cSet ?ops k v NoExpiration c = (None, c') \<and> ?inv c' \<and> ?\<alpha> c' = (?\<alpha> c)(k \<mapsto> v)"
    using inv mem(4) red(3) by (cases c) (fastforce simp: impl_cache_def inmemory_cache_def)+
  show "\<exists>c'. cDelete ?ops k c = (None, c') \<and> ?inv c' \<and> ?\<alpha> c' = (?\<alpha> c)(k := None)"
    using inv mem(5) red(2) by (cases c) (fastforce simp: impl_cache_def inmemory_cache_def)+
  show "?\<alpha> c k = Some v \<Longrightarrow> \<exists>c'. cGet ?ops k c = ((Str v, None), c') \<and> ?inv c' \<and> ?\<alpha> c' = ?\<alpha> c"
    using inv mem(1-3) red(1) by (cases c) (fastforce simp: impl_cache_def)+
  show "?\<alpha> c k = None \<Longrightarrow> \<exists>e c'. cGet ?ops k c = ((Str [], Some e), c') \<and> \<not> is_panic e \<and> ?inv c' \<and> ?\<alpha> c' = ?\<alpha> c"
    using inv mem(1-3) red(1) by (cases c) (fastforce simp: impl_cache_def)+
qed

lemma cache_New_memory:
  assumes "Driver cfg = ''memory''"
  shows "\<exists>c. cache_New api (Some cfg) = Inr (InMem c) \<and> never_expires c \<and> contents c = Map.empty"
  using assms by (auto simp: cache_New_def inmemory_NewCache_def never_expires_def contents_def newCache_def Let_def)

section \<open>Main results\<close>

text \<open>
  C14: Whichever driver was chosen, the cache is a map for its clients: for every sequence of reads,
  deletions and writes with \<open>NoExpiration\<close>, every read sees what the same sequence gives on the map of
  the entries present at the start, whatever the clock shows; for Redis this rests on the documented
  behaviour of a reachable server.
\<close>

theorem cache_refines_map:
  assumes "redis_ok api up keys" and "impl_inv up c"
  shows "fst (run_ops (impl_cache clock api) xs c) = fst (run_map xs (impl_contents keys c))"
  using cache_store.run_ops_refines [OF impl_cache_store [OF assms(1)] assms(2), of clock xs] by auto

text \<open>A Redis server that keeps an association list.\<close>

definition sample_redis :: "string gomap redis_api" where
  "sample_redis =
     \<lparr>r_connect = \<lambda>_. [], r_ping = \<lambda>r. (None, r),
      r_set = \<lambda>k v ttl r. (None, AList.update k v r),
      r_get = \<lambda>k r. (case map_of r k of None \<Rightarrow> Inl RedisNil | Some v \<Rightarrow> Inr v, r),
      r_del = \<lambda>k r. (None, AList.delete k r), r_close = \<lambda>r. (None, r)\<rparr>"

lemma sample_redis_ok: "redis_ok sample_redis (\<lambda>_. True) map_of"
  by (simp add: redis_ok_def sample_redis_def gomap_simps)

theorem cache_refines_map_witness:
  "fst (run_ops (impl_cache (\<lambda>_. 0) sample_redis) [OpSet ''k'' ''v'', OpGet ''k'', OpDelete ''k'', OpGet ''k''] (Redis []))
     = [Some ''v'', None]"
  using cache_refines_map [OF sample_redis_ok, of "Redis []" "\<lambda>_. 0" "[OpSet ''k'' ''v'', OpGet ''k'', OpDelete ''k'', OpGet ''k'']"]
  by simp

text \<open>
  The in-memory cache that \<^verbatim>\<open>cache.New\<close> returns starts empty and loses nothing: whatever
  default expiration and cleanup interval the configuration has and whatever the clock shows,
  entries written with \<open>NoExpiration\<close> are read back until they are overwritten or deleted.
\<close>

theorem new_memory_cache_is_map:
  assumes "Driver cfg = ''memory''"
  shows "\<exists>c. cache_New api (Some cfg) = Inr c \<and>
             (\<forall>clock xs. fst (run_ops (impl_cache clock api) xs c) = fst (run_map xs Map.empty))"
proof -
  from cache_New_memory [OF assms, of api] obtain m where
    m: "cache_New api (Some cfg) = Inr (InMem m)" "never_expires m" "contents m = Map.empty" by auto
  have "redis_ok api (\<lambda>_. False) (\<lambda>_. Map.empty)" by (simp add: redis_ok_def)
  from cache_store.run_ops_refines [OF impl_cache_store [OF this], of "InMem m"] m show ?thesis
    by (metis fst_conv impl_contents.simps(1) impl_inv.simps(1))
qed

theorem new_memory_cache_is_map_witness:
  "\<exists>c. cache_New sample_redis (Some \<lparr>Driver = ''memory'', cfg_InMemory = Some \<lparr>DefaultExpiration = 1, CleanupInterval = 1\<rparr>, cfg_Redis = None\<rparr>) = Inr c \<and>
       (\<forall>clock xs. fst (run_ops (impl_cache clock sample_redis) xs c) = fst (run_map xs Map.empty))"
  by (rule new_memory_cache_is_map) simp

lemma sint_word_in_range:
  assumes "- (2 ^ 63) \<le> i" and "i < 2 ^ 63"
  shows "sint (word_of_int i :: 64 word) = i"
  using assms by (simp add: signed_of_int signed_take_bit_int_eq_self)

lemma seconds_in_range:
  fixes i :: int
  assumes "- 2147483648 \<le> i" and "i < 2147483648"
  shows "- (2 ^ 63) \<le> i * 1000000000" and "i * 1000000000 < 2 ^ 63"
  using assms by simp_all

lemma sint_seconds: "sint (seconds n) = sint n * 1000000000"
proof -
  have "- 2147483648 \<le> sint n" "sint n < 2147483648"
    using sint_greater_eq [of n] sint_less [of n] by simp_all
  note range = seconds_in_range [OF this]
  have "seconds n = word_of_int (sint n * 1000000000)"
    unfolding seconds_def Second_def scast_eq by (simp only: of_int_mult of_int_numeral)
  then show ?thesis by (simp only: sint_word_in_range [OF range])
qed

text \<open>
  C15: An entry written with a positive time to live is readable up to and including its expiration
  instant and gone afterwards, as long as that instant fits a 64-bit count of nanoseconds; and the
  conversion of a configured 32-bit number of seconds to a duration never overflows.
\<close>

theorem entry_expires:
  assumes "0 < sint ttl" and "0 \<le> now" and "now + sint ttl < 2 ^ 63"
  shows "gocache_Get now' k (gocache_Set now k v ttl c) = (if now' \<le> now + sint ttl then Some v else None) \<and>
         sint (seconds n) = sint n * 1000000000"
proof -
  have "sint (word_of_int (now + sint ttl) :: 64 word) = now + sint ttl"
    using assms by (intro sint_word_in_range) simp_all
  moreover have "ttl \<noteq> 0" using assms(1) by auto
  ultimately have "gocache_Get now' k (gocache_Set now k v ttl c) = (if now' \<le> now + sint ttl then Some v else None)"
    using assms by (auto simp: gocache_Get_def gocache_Set_def Let_def expired_def gomap_simps)
  then show ?thesis using sint_seconds by blast
qed

theorem entry_expires_witness:
  "gocache_Get 1000000006 ''k'' (gocache_Set 5 ''k'' ''v'' Second (newCache 0)) = None"
  using entry_expires [of Second 5 1000000006 "''k''" "''v''" "newCache 0" 1] by (simp add: Second_def)

end
