(* ===== verification/GoJson.thy ===== *)
theory GoJson
  imports GoStrings
begin

text \<open>
  The part of Go's \<^verbatim>\<open>encoding/json\<close> the program relies on: JSON values, the encoder
  (\<^verbatim>\<open>json.Marshal\<close> with its HTML escaping, its sorted map keys and its coercion of invalid
  UTF-8) and the parser (\<^verbatim>\<open>json.Unmarshal\<close>).  The cache stores one JSON object per user and per
  team, so the round trip through both is what the reconciler's bookkeeping rests on.  The text of a JSON error
  is not modelled: one fixed text stands for it.
\<close>

datatype json =
    JNull
  | JBool bool
  | JNum string
  | JStr string
  | JArr "json list"
  | JObj "(string \<times> json) list"

section \<open>UTF-8\<close>

abbreviation ord :: "char \<Rightarrow> nat" where
  "ord c \<equiv> of_char c"

abbreviation chr :: "nat \<Rightarrow> char" where
  "chr n \<equiv> char_of n"

definition cont_byte :: "char \<Rightarrow> bool" where
  "cont_byte c \<longleftrightarrow> 128 \<le> ord c \<and> ord c \<le> 191"

definition rune2 :: "char \<Rightarrow> char \<Rightarrow> bool" where
  "rune2 c0 c1 \<longleftrightarrow> 194 \<le> ord c0 \<and> ord c0 \<le> 223 \<and> cont_byte c1"

definition rune3 :: "char \<Rightarrow> char \<Rightarrow> char \<Rightarrow> bool" where
  "rune3 c0 c1 c2 \<longleftrightarrow> 224 \<le> ord c0 \<and> ord c0 \<le> 239 \<and> cont_byte c1 \<and> cont_byte c2
     \<and> (ord c0 = 224 \<longrightarrow> 160 \<le> ord c1) \<and> (ord c0 = 237 \<longrightarrow> ord c1 \<le> 159)"

definition rune4 :: "char \<Rightarrow> char \<Rightarrow> char \<Rightarrow> char \<Rightarrow> bool" where
  "rune4 c0 c1 c2 c3 \<longleftrightarrow> 240 \<le> ord c0 \<and> ord c0 \<le> 244 \<and> cont_byte c1 \<and> cont_byte c2 \<and> cont_byte c3
     \<and> (ord c0 = 240 \<longrightarrow> 144 \<le> ord c1) \<and> (ord c0 = 244 \<longrightarrow> ord c1 \<le> 143)"

text \<open>\<^verbatim>\<open>utf8.DecodeRune\<close> on a byte above 127: the length of the encoded rune, 0 if it is invalid.\<close>

fun rune_len :: "string \<Rightarrow> nat" where
  "rune_len (c0 # c1 # c2 # c3 # s) =
     (if rune2 c0 c1 then 2 else if rune3 c0 c1 c2 then 3 else if rune4 c0 c1 c2 c3 then 4 else 0)"
| "rune_len [c0, c1, c2] = (if rune2 c0 c1 then 2 else if rune3 c0 c1 c2 then 3 else 0)"
| "rune_len [c0, c1] = (if rune2 c0 c1 then 2 else 0)"
| "rune_len _ = 0"

lemmas rune_defs = rune2_def rune3_def rune4_def cont_byte_def

lemma rune_len_cases:
  assumes "rune_len s = k" and "0 < k"
  obtains c0 c1 r where "s = c0 # c1 # r" "k = 2" "rune2 c0 c1"
  | c0 c1 c2 r where "s = c0 # c1 # c2 # r" "k = 3" "rune3 c0 c1 c2"
  | c0 c1 c2 c3 r where "s = c0 # c1 # c2 # c3 # r" "k = 4" "rune4 c0 c1 c2 c3"
  using assms by (induction s rule: rune_len.induct) (auto split: if_splits)

lemma rune_len_le: "rune_len s \<le> length s"
  by (induction s rule: rune_len.induct) auto

lemma rune_len2 [simp]: "rune2 c0 c1 \<Longrightarrow> rune_len (c0 # c1 # s) = 2"
  by (cases s rule: rune_len.cases; cases "tl s") (auto split: list.splits elim: rune_len.elims)

lemma rune_len3 [simp]: "rune3 c0 c1 c2 \<Longrightarrow> rune_len (c0 # c1 # c2 # s) = 3"
  by (cases s) (auto simp: rune_defs)

lemma rune_len4 [simp]: "rune4 c0 c1 c2 c3 \<Longrightarrow> rune_len (c0 # c1 # c2 # c3 # s) = 4"
  by (auto simp: rune_defs)

text \<open>The Unicode replacement character U+FFFD.\<close>

definition replacement :: string where
  "replacement = [chr 239, chr 191, chr 189]"

text \<open>\<^verbatim>\<open>utf8.EncodeRune\<close>.\<close>

definition encode_rune :: "nat \<Rightarrow> string" where
  "encode_rune r =
     (if r < 128 then [chr r]
      else if r < 2048 then [chr (192 + r div 64), chr (128 + r mod 64)]
      else if (55296 \<le> r \<and> r \<le> 57343) \<or> 1114112 \<le> r then replacement
      else if r < 65536 then [chr (224 + r div 4096), chr (128 + r div 64 mod 64), chr (128 + r mod 64)]
      else [chr (240 + r div 262144), chr (128 + r div 4096 mod 64), chr (128 + r div 64 mod 64), chr (128 + r mod 64)])"

text \<open>Every invalid byte becomes the replacement character; valid strings are unchanged.\<close>

function coerce_utf8 :: "string \<Rightarrow> string" where
  "coerce_utf8 [] = []"
| "coerce_utf8 (c # cs) =
     (if ord c < 128 then c # coerce_utf8 cs
      else if rune_len (c # cs) = 0 then replacement @ coerce_utf8 cs
      else take (rune_len (c # cs)) (c # cs) @ coerce_utf8 (drop (rune_len (c # cs)) (c # cs)))"
  by pat_completeness auto
termination
  by (relation "measure length") auto

function valid_utf8 :: "string \<Rightarrow> bool" where
  "valid_utf8 [] = True"
| "valid_utf8 (c # cs) =
     (if ord c < 128 then valid_utf8 cs
      else if rune_len (c # cs) = 0 then False
      else valid_utf8 (drop (rune_len (c # cs)) (c # cs)))"
  by pat_completeness auto
termination
  by (relation "measure length") auto

declare coerce_utf8.simps(2) [simp del] valid_utf8.simps(2) [simp del]

lemma coerce_valid: "valid_utf8 s \<Longrightarrow> coerce_utf8 s = s"
  by (induction s rule: valid_utf8.induct)
     (auto simp: coerce_utf8.simps(2) valid_utf8.simps(2) split: if_splits)

lemma valid_ascii: "(\<forall>c \<in> set s. ord c < 128) \<Longrightarrow> valid_utf8 s"
  by (induction s) (auto simp: valid_utf8.simps(2))

section \<open>The encoder\<close>

abbreviation dq :: char where "dq \<equiv> CHR 0x22"
abbreviation bsl :: char where "bsl \<equiv> CHR 0x5C"

definition html_safe :: "char \<Rightarrow> bool" where
  "html_safe c \<longleftrightarrow> 32 \<le> ord c \<and> ord c < 128 \<and> c \<notin> {dq, bsl, CHR ''<'', CHR ''>'', CHR ''&''}"

definition hex_digit :: "nat \<Rightarrow> char" where
  "hex_digit n = (if n < 10 then chr (48 + n) else chr (87 + n))"

definition escape_char :: "char \<Rightarrow> string" where
  "escape_char c =
     (if c = dq \<or> c = bsl then [bsl, c]
      else if ord c = 8 then [bsl, CHR ''b'']
      else if ord c = 12 then [bsl, CHR ''f'']
      else if ord c = 10 then [bsl, CHR ''n'']
      else if ord c = 13 then [bsl, CHR ''r'']
      else if ord c = 9 then [bsl, CHR ''t'']
      else [bsl, CHR ''u'', CHR ''0'', CHR ''0'', hex_digit (ord c div 16), hex_digit (ord c mod 16)])"

fun line_sep :: "string \<Rightarrow> nat option" where
  "line_sep (c0 # c1 # c2 # r) =
     (if ord c0 = 226 \<and> ord c1 = 128 \<and> (ord c2 = 168 \<or> ord c2 = 169) then Some (ord c2 - 160) else None)"
| "line_sep _ = None"

function quote_body :: "string \<Rightarrow> string" where
  "quote_body [] = []"
| "quote_body (c # cs) =
     (if ord c < 128 then (if html_safe c then [c] else escape_char c) @ quote_body cs
      else if rune_len (c # cs) = 0 then [bsl] @ ''ufffd'' @ quote_body cs
      else (case line_sep (c # cs) of
              Some d \<Rightarrow> [bsl] @ ''u202'' @ [hex_digit d] @ quote_body (drop (rune_len (c # cs)) (c # cs))
            | None \<Rightarrow> take (rune_len (c # cs)) (c # cs) @ quote_body (drop (rune_len (c # cs)) (c # cs))))"
  by pat_completeness auto
termination
  by (relation "measure length") auto

declare quote_body.simps(2) [simp del]

definition quote_string :: "string \<Rightarrow> string" where
  "quote_string s = [dq] @ quote_body s @ [dq]"

fun join_comma :: "string list \<Rightarrow> string" where
  "join_comma [] = []"
| "join_comma [x] = x"
| "join_comma (x # xs) = x @ '','' @ join_comma xs"

fun print_json :: "json \<Rightarrow> string" where
  "print_json JNull = ''null''"
| "print_json (JBool b) = (if b then ''true'' else ''false'')"
| "print_json (JNum s) = s"
| "print_json (JStr s) = quote_string s"
| "print_json (JArr js) = ''['' @ join_comma (map print_json js) @ '']''"
| "print_json (JObj ms) =
     ''{'' @ join_comma (map (\<lambda>(k, v). quote_string k @ '':'' @ print_json v) ms) @ ''}''"

text \<open>\<^verbatim>\<open>json.Marshal\<close> of a \<^verbatim>\<open>map[string]string\<close>: the keys are sorted.\<close>

definition marshal_map :: "string gomap \<Rightarrow> string" where
  "marshal_map m = print_json (JObj (map (\<lambda>(k, v). (k, JStr v)) (sort_key fst m)))"

section \<open>The parser\<close>

definition is_ws :: "char \<Rightarrow> bool" where
  "is_ws c \<longleftrightarrow> ord c \<in> {9, 10, 13, 32}"

definition skip_ws :: "string \<Rightarrow> string" where
  "skip_ws s = dropWhile is_ws s"

fun simple_escape :: "char \<Rightarrow> char option" where
  "simple_escape c =
     (if c = dq \<or> c = bsl \<or> c = CHR ''/'' then Some c
      else if c = CHR ''b'' then Some (chr 8)
      else if c = CHR ''f'' then Some (chr 12)
      else if c = CHR ''n'' then Some (chr 10)
      else if c = CHR ''r'' then Some (chr 13)
      else if c = CHR ''t'' then Some (chr 9)
      else None)"

definition hex_val :: "char \<Rightarrow> nat option" where
  "hex_val c =
     (if 48 \<le> ord c \<and> ord c \<le> 57 then Some (ord c - 48)
      else if 97 \<le> ord c \<and> ord c \<le> 102 then Some (ord c - 87)
      else if 65 \<le> ord c \<and> ord c \<le> 70 then Some (ord c - 55)
      else None)"

definition hex4 :: "char \<Rightarrow> char \<Rightarrow> char \<Rightarrow> char \<Rightarrow> nat option" where
  "hex4 a b c d =
     (case (hex_val a, hex_val b, hex_val c, hex_val d) of
        (Some w, Some x, Some y, Some z) \<Rightarrow> Some (4096 * w + 256 * x + 16 * y + z)
      | _ \<Rightarrow> None)"

text \<open>The low surrogate that may follow a high one: the rune of the pair and the rest.\<close>

fun surrogate_pair :: "nat \<Rightarrow> string \<Rightarrow> (nat \<times> string) option" where
  "surrogate_pair r (b # u # h1 # h2 # h3 # h4 # s) =
     (if b = bsl \<and> u = CHR ''u'' then
        (case hex4 h1 h2 h3 h4 of
           Some r1 \<Rightarrow> if r < 56320 \<and> 56320 \<le> r1 \<and> r1 < 57344
                        then Some (65536 + 1024 * (r - 55296) + (r1 - 56320), s) else None
         | None \<Rightarrow> None)
      else None)"
| "surrogate_pair r _ = None"

lemma surrogate_pair_shorter: "surrogate_pair r s = Some (q, t) \<Longrightarrow> length t < length s"
  by (induction r s rule: surrogate_pair.induct) (auto split: if_splits option.splits)

definition prepend :: "string \<Rightarrow> (string \<times> string) option \<Rightarrow> (string \<times> string) option" where
  "prepend p x = map_option (\<lambda>(s, r). (p @ s, r)) x"

lemma prepend_cong [fundef_cong]: "x = y \<Longrightarrow> p = q \<Longrightarrow> prepend p x = prepend q y"
  by simp

lemma prepend_simps [simp]: "prepend p None = None" "prepend p (Some (s, r)) = Some (p @ s, r)"
  by (simp_all add: prepend_def)

text \<open>What follows a backslash: the value of the escape sequence and the rest.\<close>

fun u_escape :: "string \<Rightarrow> (string \<times> string) option" where
  "u_escape (h1 # h2 # h3 # h4 # s) =
     (case hex4 h1 h2 h3 h4 of
        None \<Rightarrow> None
      | Some r \<Rightarrow>
          if 55296 \<le> r \<and> r < 57344 then
            (case surrogate_pair r s of
               Some (q, t) \<Rightarrow> Some (encode_rune q, t)
             | None \<Rightarrow> Some (replacement, s))
          else Some (encode_rune r, s))"
| "u_escape _ = None"

fun escape_seq :: "string \<Rightarrow> (string \<times> string) option" where
  "escape_seq [] = None"
| "escape_seq (e # es) =
     (if e = CHR ''u'' then u_escape es
      else (case simple_escape e of Some d \<Rightarrow> Some ([d], es) | None \<Rightarrow> None))"

lemma u_escape_shorter: "u_escape s = Some (v, t) \<Longrightarrow> length t < length s"
  by (induction s rule: u_escape.induct)
     (auto split: option.splits if_splits dest: surrogate_pair_shorter)

lemma escape_seq_shorter: "escape_seq s = Some (v, t) \<Longrightarrow> length t < length s"
  by (cases s) (auto simp del: simple_escape.simps split: option.splits if_splits dest: u_escape_shorter)

text \<open>A string after its opening quote: its value and what follows the closing quote.\<close>

function unquote :: "string \<Rightarrow> (string \<times> string) option" where
  "unquote [] = None"
| "unquote (c # cs) =
     (if c = dq then Some ([], cs)
      else if c = bsl then
        (case escape_seq cs of None \<Rightarrow> None | Some (v, t) \<Rightarrow> prepend v (unquote t))
      else if ord c < 32 then None
      else if ord c < 128 then prepend [c] (unquote cs)
      else if rune_len (c # cs) = 0 then prepend replacement (unquote cs)
      else prepend (take (rune_len (c # cs)) (c # cs)) (unquote (drop (rune_len (c # cs)) (c # cs))))"
  by pat_completeness auto
termination
  by (relation "measure length") (auto dest: escape_seq_shorter)

declare unquote.simps(2) [simp del]

section \<open>Strings survive the round trip\<close>

lemma hex_val_digit: "n < 16 \<Longrightarrow> hex_val (hex_digit n) = Some n"
  by (auto simp: hex_val_def hex_digit_def)

lemma hex_val_0: "hex_val (CHR ''0'') = Some 0"
  by (simp add: hex_val_def)

lemma ord_eqD: "ord c = n \<Longrightarrow> c = chr n"
  by auto

lemma hex4_byte: "n < 256 \<Longrightarrow> hex4 (CHR ''0'') (CHR ''0'') (hex_digit (n div 16)) (hex_digit (n mod 16)) = Some n"
  by (simp add: hex4_def hex_val_digit hex_val_0)

lemma encode_rune_ascii: "ord c < 128 \<Longrightarrow> encode_rune (ord c) = [c]"
  by (simp add: encode_rune_def)

lemma hex4_fffd: "hex4 (CHR ''f'') (CHR ''f'') (CHR ''f'') (CHR ''d'') = Some 65533"
  by (simp add: hex4_def hex_val_def)

lemma encode_fffd: "encode_rune 65533 = replacement"
  by (simp add: encode_rune_def replacement_def)

lemma unquote_plain:
  "c \<noteq> dq \<Longrightarrow> c \<noteq> bsl \<Longrightarrow> 32 \<le> ord c \<Longrightarrow> ord c < 128 \<Longrightarrow> unquote (c # s) = prepend [c] (unquote s)"
  by (simp add: unquote.simps(2))

lemma unquote_u:
  "hex4 h1 h2 h3 h4 = Some r \<Longrightarrow> r < 55296 \<or> 57344 \<le> r \<Longrightarrow>
   unquote (bsl # CHR ''u'' # h1 # h2 # h3 # h4 # s) = prepend (encode_rune r) (unquote s)"
  by (auto simp: unquote.simps(2))

lemma unquote_escape:
  assumes "ord c < 128" and "\<not> html_safe c"
  shows "unquote (escape_char c @ s) = prepend [c] (unquote s)"
proof (cases "c = dq \<or> c = bsl \<or> ord c \<in> {8, 9, 10, 12, 13}")
  case True
  then show ?thesis
    by (auto simp: escape_char_def unquote.simps(2) dest: ord_eqD)
next
  case False
  with assms show ?thesis
    by (simp add: escape_char_def unquote_u [OF hex4_byte] encode_rune_ascii)
qed

lemma unquote_high:
  assumes "128 \<le> ord c" and "rune_len (c # s) = k" and "0 < k"
  shows "unquote (c # s) = prepend (take k (c # s)) (unquote (drop k (c # s)))"
proof -
  from assms(1) have "c \<noteq> dq" "c \<noteq> bsl" by auto
  with assms show ?thesis by (simp add: unquote.simps(2))
qed

lemma unquote_rune:
  assumes "128 \<le> ord c" and "rune_len (c # cs) = k" and "0 < k"
  shows "unquote (take k (c # cs) @ s) = prepend (take k (c # cs)) (unquote s)"
  using assms(2,3)
proof (cases rule: rune_len_cases)
  case (1 c0 c1 r)
  with assms(1) unquote_high [of c "c1 # s" 2] show ?thesis by simp
next
  case (2 c0 c1 c2 r)
  with assms(1) unquote_high [of c "c1 # c2 # s" 3] show ?thesis by simp
next
  case (3 c0 c1 c2 c3 r)
  with assms(1) unquote_high [OF _ rune_len4 [OF 3(3)]] show ?thesis by simp
qed

lemma line_sepE:
  assumes "line_sep s = Some d"
  obtains r where "s = chr 226 # chr 128 # chr 168 # r" "d = 8"
  | r where "s = chr 226 # chr 128 # chr 169 # r" "d = 9"
  using assms
proof (induction s rule: line_sep.induct)
  case (1 c0 c1 c2 r)
  have "c0 = chr 226" "c1 = chr 128"
    using "1.prems"(3) by (auto split: if_splits dest: ord_eqD)
  moreover have "c2 = chr 168 \<and> d = 8 \<or> c2 = chr 169 \<and> d = 9"
    using "1.prems"(3) by (auto split: if_splits dest: ord_eqD)
  ultimately show ?case using "1.prems"(1,2) by blast
qed simp_all

lemma unquote_line_sep:
  assumes "line_sep s = Some d"
  shows "unquote ([bsl] @ ''u202'' @ [hex_digit d] @ t) = prepend (take (rune_len s) s) (unquote t)"
  using assms
proof (cases rule: line_sepE)
  case (1 r)
  have "rune3 (chr 226) (chr 128) (chr 168)" by (simp add: rune_defs)
  moreover have "hex4 (CHR ''2'') (CHR ''0'') (CHR ''2'') (hex_digit 8) = Some 8232"
    by (simp add: hex4_def hex_val_def hex_digit_def)
  moreover have "encode_rune 8232 = [chr 226, chr 128, chr 168]" by (simp add: encode_rune_def)
  ultimately show ?thesis using 1 by (simp add: unquote_u)
next
  case (2 r)
  have "rune3 (chr 226) (chr 128) (chr 169)" by (simp add: rune_defs)
  moreover have "hex4 (CHR ''2'') (CHR ''0'') (CHR ''2'') (hex_digit 9) = Some 8233"
    by (simp add: hex4_def hex_val_def hex_digit_def)
  moreover have "encode_rune 8233 = [chr 226, chr 128, chr 169]" by (simp add: encode_rune_def)
  ultimately show ?thesis using 2 by (simp add: unquote_u)
qed

lemma unquote_quote_body: "unquote (quote_body s @ dq # t) = Some (coerce_utf8 s, t)"
proof (induction s rule: quote_body.induct)
  case 1
  show ?case by (simp add: unquote.simps(2))
next
  case (2 c cs)
  let ?k = "rune_len (c # cs)"
  consider "ord c < 128" "html_safe c" | "ord c < 128" "\<not> html_safe c"
    | "\<not> ord c < 128" "?k = 0" | "\<not> ord c < 128" "0 < ?k" by auto
  then show ?case
  proof cases
    case 1
    with 2 show ?thesis
      by (simp add: quote_body.simps(2) coerce_utf8.simps(2) unquote_plain html_safe_def)
  next
    case 2
    with "2.IH"(1) show ?thesis
      by (simp add: quote_body.simps(2) coerce_utf8.simps(2) unquote_escape)
  next
    case 3
    with "2.IH"(2) show ?thesis
      by (simp add: quote_body.simps(2) coerce_utf8.simps(2) unquote_u [OF hex4_fffd] encode_fffd)
  next
    case 4
    show ?thesis
    proof (cases "line_sep (c # cs)")
      case None
      with 4 show ?thesis
        using unquote_rune [OF _ refl 4(2), of "quote_body (drop ?k (c # cs)) @ dq # t"] "2.IH"(3) [OF 4(1) _ None]
        by (simp add: quote_body.simps(2) coerce_utf8.simps(2))
    next
      case (Some d)
      with 4 show ?thesis
        using unquote_line_sep [OF Some, of "quote_body (drop ?k (c # cs)) @ dq # t"] "2.IH"(4) [OF 4(1) _ Some]
        by (simp add: quote_body.simps(2) coerce_utf8.simps(2))
    qed
  qed
qed

section \<open>Values\<close>

definition is_digit :: "char \<Rightarrow> bool" where
  "is_digit c \<longleftrightarrow> 48 \<le> ord c \<and> ord c \<le> 57"

text \<open>One or more digits.\<close>

definition scan_digits :: "string \<Rightarrow> (string \<times> string) option" where
  "scan_digits s = (let ds = takeWhile is_digit s in if ds = [] then None else Some (ds, dropWhile is_digit s))"

definition scan_int :: "string \<Rightarrow> (string \<times> string) option" where
  "scan_int s = (case s of
       [] \<Rightarrow> None
     | c # cs \<Rightarrow> if c = CHR ''0'' then Some ([c], cs) else scan_digits s)"

definition scan_frac :: "string \<Rightarrow> (string \<times> string) option" where
  "scan_frac s = (case s of
       [] \<Rightarrow> Some ([], [])
     | c # cs \<Rightarrow> if c = CHR ''.'' then prepend [c] (scan_digits cs) else Some ([], s))"

definition scan_exp :: "string \<Rightarrow> (string \<times> string) option" where
  "scan_exp s = (case s of
       [] \<Rightarrow> Some ([], [])
     | c # cs \<Rightarrow>
         if c = CHR ''e'' \<or> c = CHR ''E'' then
           (case cs of
              [] \<Rightarrow> None
            | d # ds \<Rightarrow> if d = CHR ''+'' \<or> d = CHR ''-'' then prepend [c, d] (scan_digits ds)
                         else prepend [c] (scan_digits cs))
         else Some ([], s))"

definition scan_unsigned :: "string \<Rightarrow> (string \<times> string) option" where
  "scan_unsigned s =
     (case scan_int s of
        None \<Rightarrow> None
      | Some (i, r1) \<Rightarrow>
          (case scan_frac r1 of
             None \<Rightarrow> None
           | Some (f, r2) \<Rightarrow> prepend (i @ f) (scan_exp r2)))"

definition scan_number :: "string \<Rightarrow> (string \<times> string) option" where
  "scan_number s = (case s of
       [] \<Rightarrow> None
     | c # cs \<Rightarrow> if c = CHR ''-'' then prepend [c] (scan_unsigned cs) else scan_unsigned s)"

text \<open>\<open>None\<close> is a syntax error; the fuel bounds the nesting and is shown to be enough below.\<close>

fun parse_value :: "nat \<Rightarrow> string \<Rightarrow> (json \<times> string) option"
and parse_elems :: "nat \<Rightarrow> string \<Rightarrow> (json list \<times> string) option"
and parse_members :: "nat \<Rightarrow> string \<Rightarrow> ((string \<times> json) list \<times> string) option" where
  "parse_value 0 s = None"
| "parse_value (Suc n) s =
     (let t = skip_ws s in
      if t = [] then None
      else if hd t = dq then map_option (\<lambda>(v, r). (JStr v, r)) (unquote (tl t))
      else if hd t = CHR ''{'' then
        (let u = skip_ws (tl t) in
         if prefix ''}'' u then Some (JObj [], tl u)
         else map_option (\<lambda>(ms, r). (JObj ms, r)) (parse_members n u))
      else if hd t = CHR ''['' then
        (let u = skip_ws (tl t) in
         if prefix '']'' u then Some (JArr [], tl u)
         else map_option (\<lambda>(js, r). (JArr js, r)) (parse_elems n u))
      else if prefix ''null'' t then Some (JNull, drop 4 t)
      else if prefix ''true'' t then Some (JBool True, drop 4 t)
      else if prefix ''false'' t then Some (JBool False, drop 5 t)
      else map_option (\<lambda>(v, r). (JNum v, r)) (scan_number t))"
| "parse_elems 0 s = None"
| "parse_elems (Suc n) s =
     (case parse_value n s of
        None \<Rightarrow> None
      | Some (j, r) \<Rightarrow>
          (let t = skip_ws r in
           if prefix '']'' t then Some ([j], tl t)
           else if prefix '','' t then map_option (\<lambda>(js, q). (j # js, q)) (parse_elems n (tl t))
           else None))"
| "parse_members 0 s = None"
| "parse_members (Suc n) s =
     (let t = skip_ws s in
      if prefix [dq] t then
        (case unquote (tl t) of
           None \<Rightarrow> None
         | Some (k, r) \<Rightarrow>
             (let u = skip_ws r in
              if prefix '':'' u then
                (case parse_value n (tl u) of
                   None \<Rightarrow> None
                 | Some (v, q) \<Rightarrow>
                     (let w = skip_ws q in
                      if prefix ''}'' w then Some ([(k, v)], tl w)
                      else if prefix '','' w then
                        map_option (\<lambda>(ms, z). ((k, v) # ms, z)) (parse_members n (tl w))
                      else None))
              else None))
      else None)"

definition json_parse :: "string \<Rightarrow> json option" where
  "json_parse s =
     (case parse_value (Suc (length s)) s of
        Some (j, r) \<Rightarrow> if skip_ws r = [] then Some j else None
      | None \<Rightarrow> None)"

text \<open>
  \<^verbatim>\<open>json.Unmarshal\<close> into an empty \<^verbatim>\<open>map[string]string\<close>: \<open>null\<close> makes the map nil
  (\<open>Inr None\<close>), a member whose value is \<open>null\<close> is the zero value, a later member of the same name
  overwrites an earlier one, and any other value is a type error.
\<close>

definition json_error :: gerror where
  "json_error = GoErr ''json: cannot unmarshal''"

fun string_member :: "json \<Rightarrow> string option" where
  "string_member (JStr s) = Some s"
| "string_member JNull = Some []"
| "string_member _ = None"

fun decode_members :: "(string \<times> json) list \<Rightarrow> string gomap \<Rightarrow> string gomap option" where
  "decode_members [] m = Some m"
| "decode_members ((k, v) # rest) m =
     (case string_member v of
        None \<Rightarrow> None
      | Some s \<Rightarrow> decode_members rest (AList.update k s m))"

definition unmarshal_map :: "string \<Rightarrow> string gomap option result" where
  "unmarshal_map s =
     (case json_parse s of
        None \<Rightarrow> Inl json_error
      | Some JNull \<Rightarrow> Inr None
      | Some (JObj ms) \<Rightarrow>
          (case decode_members ms [] of None \<Rightarrow> Inl json_error | Some m \<Rightarrow> Inr (Some m))
      | Some _ \<Rightarrow> Inl json_error)"

section \<open>The fuel of the parser is enough\<close>

lemma skip_ws_le: "length (skip_ws s) \<le> length s"
  by (simp add: skip_ws_def length_dropWhile_le)

lemma prepend_Some_iff: "prepend p x = Some (s, r) \<longleftrightarrow> (\<exists>t. x = Some (t, r) \<and> s = p @ t)"
  by (cases x) auto

lemma unquote_shorter: "unquote s = Some (v, r) \<Longrightarrow> length r < length s"
proof (induction s arbitrary: v rule: length_induct)
  case (1 s)
  have IH: "unquote t = Some (w, r) \<Longrightarrow> length t < length s \<Longrightarrow> length r < length s" for t w
    using "1.IH" by (meson less_trans)
  from "1.prems" obtain c cs where s: "s = c # cs" by (cases s) auto
  with "1.prems" show ?case
    by (fastforce simp: unquote.simps(2) prepend_Some_iff split: if_splits option.splits
        dest: IH escape_seq_shorter)
qed

lemma scan_digits_shorter: "scan_digits s = Some (v, r) \<Longrightarrow> length r < length s"
  by (cases s) (auto simp: scan_digits_def Let_def length_dropWhile_le less_Suc_eq_le split: if_splits)

lemma scan_int_shorter: "scan_int s = Some (v, r) \<Longrightarrow> length r < length s"
  by (auto simp: scan_int_def split: list.splits if_splits dest: scan_digits_shorter)

lemma scan_frac_le: "scan_frac s = Some (v, r) \<Longrightarrow> length r \<le> length s"
  by (auto simp: scan_frac_def prepend_Some_iff split: list.splits if_splits dest!: scan_digits_shorter)

lemma scan_exp_le: "scan_exp s = Some (v, r) \<Longrightarrow> length r \<le> length s"
  by (auto simp: scan_exp_def prepend_Some_iff split: list.splits if_splits dest!: scan_digits_shorter)

lemma scan_unsigned_shorter: "scan_unsigned s = Some (v, r) \<Longrightarrow> length r < length s"
  by (fastforce simp: scan_unsigned_def prepend_Some_iff split: option.splits
      dest: scan_int_shorter scan_frac_le scan_exp_le)

lemma scan_number_shorter: "scan_number s = Some (v, r) \<Longrightarrow> length r < length s"
  by (auto simp: scan_number_def prepend_Some_iff split: list.splits if_splits dest!: scan_unsigned_shorter)

lemma tl_skip_ws_less: "skip_ws s \<noteq> [] \<Longrightarrow> length (tl (skip_ws s)) < length s"
  using skip_ws_le [of s] by (cases "skip_ws s") auto

lemma prefix_nonempty: "prefix [c] s \<Longrightarrow> s \<noteq> []"
  by auto

lemma ge_SucI:
  assumes "a < b" and "\<And>m. a \<le> m \<Longrightarrow> P (Suc m)"
  shows "\<forall>m \<ge> (b :: nat). P m"
proof (intro allI impI)
  fix m assume "b \<le> m"
  with assms(1) obtain k where "m = Suc k" "a \<le> k" by (cases m) auto
  with assms(2) show "P m" by simp
qed

lemma tl_less: "s \<noteq> [] \<Longrightarrow> length (tl s) < length s"
  by (cases s) auto

text \<open>A value that is no object and no array, or an empty one, is read without a recursive call.\<close>

lemma parse_flat_shorter:
  assumes "parse_value (Suc n) s = Some (j, r)"
    and "hd (skip_ws s) = CHR ''{'' \<longrightarrow> prefix ''}'' (skip_ws (tl (skip_ws s)))"
    and "hd (skip_ws s) = CHR ''['' \<longrightarrow> prefix '']'' (skip_ws (tl (skip_ws s)))"
  shows "length r < length s"
proof -
  let ?t = "skip_ws s"
  let ?u = "skip_ws (tl ?t)"
  from assms(1) have t: "?t \<noteq> []" by (auto simp: Let_def)
  have le: "length ?t \<le> length s" "length ?u \<le> length (tl ?t)" "length (tl ?t) < length ?t"
    by (rule skip_ws_le, rule skip_ws_le, rule tl_less [OF t])
  have "(\<exists>v. unquote (tl ?t) = Some (v, r)) \<or> (?u \<noteq> [] \<and> r = tl ?u) \<or> r = drop 4 ?t \<or> r = drop 5 ?t
        \<or> (\<exists>v. scan_number ?t = Some (v, r))"
    using assms t by (auto simp: Let_def split: if_splits)
  then show ?thesis
  proof (elim disjE exE conjE)
    fix v assume "unquote (tl ?t) = Some (v, r)"
    then have "length r < length (tl ?t)" by (rule unquote_shorter)
    with le show ?thesis by linarith
  next
    assume "?u \<noteq> []" "r = tl ?u"
    then have "length r < length ?u" using tl_less by simp
    with le show ?thesis by linarith
  next
    fix v assume "scan_number ?t = Some (v, r)"
    then have "length r < length ?t" by (rule scan_number_shorter)
    with le show ?thesis by linarith
  qed (use t le in \<open>cases ?t; simp\<close>)+
qed

text \<open>
  \<open>reads p s x r\<close>: with fuel for the characters consumed, \<open>p\<close> reads \<open>x\<close> off \<open>s\<close> and leaves
  \<open>r\<close>.  Each parser is treated under the assumption that its recursive calls do so.
\<close>

definition reads :: "(nat \<Rightarrow> string \<Rightarrow> ('a \<times> string) option) \<Rightarrow> string \<Rightarrow> 'a \<Rightarrow> string \<Rightarrow> bool" where
  "reads p s x r \<longleftrightarrow> length r < length s \<and> (\<forall>m \<ge> length s - length r. p m s = Some (x, r))"

lemma readsI:
  assumes "length r < length s" and "a < length s - length r" and "\<And>m. a \<le> m \<Longrightarrow> p (Suc m) s = Some (x, r)"
  shows "reads p s x r"
  unfolding reads_def using assms(1,3) by (intro conjI ge_SucI [OF assms(2)])

lemma reads_shorter: "reads p s x r \<Longrightarrow> length r < length s"
  by (simp add: reads_def)

lemma readsD: "reads p s x r \<Longrightarrow> length s - length r \<le> m \<Longrightarrow> p m s = Some (x, r)"
  by (simp add: reads_def)

lemma value_reads:
  assumes prem: "parse_value (Suc n) s = Some (j, r)"
    and E: "\<And>u js r. parse_elems n u = Some (js, r) \<Longrightarrow> reads parse_elems u js r"
    and M: "\<And>u ms r. parse_members n u = Some (ms, r) \<Longrightarrow> reads parse_members u ms r"
  shows "reads parse_value s j r"
proof -
  let ?t = "skip_ws s"
  let ?u = "skip_ws (tl ?t)"
  from prem have t: "?t \<noteq> []" by (auto simp: Let_def)
  have lt: "length (tl ?t) < length s" "length ?u \<le> length (tl ?t)"
    by (rule tl_skip_ws_less [OF t], rule skip_ws_le)
  consider (obj) "hd ?t = CHR ''{''" "\<not> prefix ''}'' ?u"
    | (arr) "hd ?t = CHR ''[''" "\<not> prefix '']'' ?u"
    | (flat) "hd ?t = CHR ''{'' \<longrightarrow> prefix ''}'' ?u" "hd ?t = CHR ''['' \<longrightarrow> prefix '']'' ?u"
    by blast
  then show ?thesis
  proof cases
    case obj
    with prem t obtain ms where "parse_members n ?u = Some (ms, r)" and j: "j = JObj ms"
      by (auto simp: Let_def)
    then have R: "reads parse_members ?u ms r" by (intro M)
    with obj t j lt reads_shorter [OF R] show ?thesis
      by (intro readsI [of _ _ "length ?u - length r"]) (auto simp: Let_def readsD [OF R])
  next
    case arr
    with prem t obtain js where "parse_elems n ?u = Some (js, r)" and j: "j = JArr js"
      by (auto simp: Let_def)
    then have R: "reads parse_elems ?u js r" by (intro E)
    with arr t j lt reads_shorter [OF R] show ?thesis
      by (intro readsI [of _ _ "length ?u - length r"]) (auto simp: Let_def readsD [OF R])
  next
    case flat
    then have "parse_value (Suc m) s = parse_value (Suc n) s" for m by (auto simp: Let_def)
    with prem parse_flat_shorter [OF prem flat] show ?thesis
      by (intro readsI [of _ _ 0]) simp_all
  qed
qed

lemma elems_reads:
  assumes prem: "parse_elems (Suc n) s = Some (js, r)"
    and V: "\<And>u j r. parse_value n u = Some (j, r) \<Longrightarrow> reads parse_value u j r"
    and E: "\<And>u js r. parse_elems n u = Some (js, r) \<Longrightarrow> reads parse_elems u js r"
  shows "reads parse_elems s js r"
proof -
  from prem obtain j q where j: "parse_value n s = Some (j, q)" by (auto split: option.splits)
  then have RV: "reads parse_value s j q" by (rule V)
  let ?t = "skip_ws q"
  have t: "?t \<noteq> []" using prem j by (auto simp: Let_def)
  have le: "length (tl ?t) < length q" "length q < length s"
    by (rule tl_skip_ws_less [OF t], rule reads_shorter [OF RV])
  show ?thesis
  proof (cases "prefix '']'' ?t")
    case True
    with prem j have r: "r = tl ?t" "js = [j]" by (simp_all add: Let_def)
    with True le show ?thesis
      by (intro readsI [of _ _ "length s - length q"]) (auto simp: Let_def readsD [OF RV])
  next
    case False
    with prem j have c: "prefix '','' ?t" by (auto simp: Let_def split: if_splits)
    with False prem j obtain js' where e: "parse_elems n (tl ?t) = Some (js', r)" "js = j # js'"
      by (auto simp: Let_def)
    then have RE: "reads parse_elems (tl ?t) js' r" by (intro E)
    with le e(2) c False reads_shorter [OF RE] show ?thesis
      by (intro readsI [of _ _ "length s - Suc (length r)"])
         (auto simp: Let_def readsD [OF RV] readsD [OF RE])
  qed
qed

lemma members_reads:
  assumes prem: "parse_members (Suc n) s = Some (ms, r)"
    and V: "\<And>u j r. parse_value n u = Some (j, r) \<Longrightarrow> reads parse_value u j r"
    and M: "\<And>u ms r. parse_members n u = Some (ms, r) \<Longrightarrow> reads parse_members u ms r"
  shows "reads parse_members s ms r"
proof -
  let ?t = "skip_ws s"
  from prem have t: "prefix [dq] ?t" by (auto simp: Let_def split: if_splits)
  with prem obtain k q where k: "unquote (tl ?t) = Some (k, q)"
    by (auto simp: Let_def split: option.splits)
  let ?u = "skip_ws q"
  from prem t k have u: "prefix '':'' ?u" by (auto simp: Let_def split: if_splits)
  with prem t k obtain v z where v: "parse_value n (tl ?u) = Some (v, z)"
    by (auto simp: Let_def split: option.splits)
  then have RV: "reads parse_value (tl ?u) v z" by (rule V)
  let ?w = "skip_ws z"
  have w: "?w \<noteq> []" using prem t k u v by (auto simp: Let_def)
  have le: "length (tl ?t) < length s" "length q < length (tl ?t)" "length (tl ?u) < length q"
      "length z < length (tl ?u)" "length (tl ?w) < length z"
    by (rule tl_skip_ws_less [OF prefix_nonempty [OF t]], rule unquote_shorter [OF k],
        rule tl_skip_ws_less [OF prefix_nonempty [OF u]], rule reads_shorter [OF RV],
        rule tl_skip_ws_less [OF w])
  show ?thesis
  proof (cases "prefix ''}'' ?w")
    case True
    with prem t k u v have r: "r = tl ?w" "ms = [(k, v)]" by (simp_all add: Let_def)
    with True t k u le show ?thesis
      by (intro readsI [of _ _ "length (tl ?u) - length z"]) (auto simp: Let_def readsD [OF RV])
  next
    case False
    with prem t k u v have c: "prefix '','' ?w" by (auto simp: Let_def split: if_splits)
    with False prem t k u v obtain ms' where e: "parse_members n (tl ?w) = Some (ms', r)"
      "ms = (k, v) # ms'" by (auto simp: Let_def)
    then have RM: "reads parse_members (tl ?w) ms' r" by (intro M)
    with le e(2) c False t k u reads_shorter [OF RM] show ?thesis
      by (intro readsI [of _ _ "length s - Suc (length r)"])
         (auto simp: Let_def readsD [OF RV] readsD [OF RM])
  qed
qed

lemma parse_fuel:
  "(\<forall>s j r. parse_value n s = Some (j, r) \<longrightarrow> reads parse_value s j r) \<and>
   (\<forall>s js r. parse_elems n s = Some (js, r) \<longrightarrow> reads parse_elems s js r) \<and>
   (\<forall>s ms r. parse_members n s = Some (ms, r) \<longrightarrow> reads parse_members s ms r)"
proof (induction n)
  case 0
  show ?case by simp
next
  case (Suc n)
  then show ?case by (intro conjI allI impI) (rule value_reads elems_reads members_reads; blast)+
qed

text \<open>Whatever some amount of fuel parses, the fuel of \<^const>\<open>json_parse\<close> parses too.\<close>

lemma json_parse_complete:
  assumes "parse_value n s = Some (j, r)" and "skip_ws r = []"
  shows "json_parse s = Some j"
proof -
  from assms(1) have "reads parse_value s j r" using parse_fuel by blast
  then have "parse_value (Suc (length s)) s = Some (j, r)" by (rule readsD) simp
  with assms(2) show ?thesis by (simp add: json_parse_def del: parse_value.simps)
qed

section \<open>The round trip of values\<close>

text \<open>What a value becomes on the way: every string is coerced to valid UTF-8.\<close>

fun coerce_json :: "json \<Rightarrow> json" where
  "coerce_json (JStr s) = JStr (coerce_utf8 s)"
| "coerce_json (JArr js) = JArr (map coerce_json js)"
| "coerce_json (JObj ms) = JObj (map (\<lambda>(k, v). (coerce_utf8 k, coerce_json v)) ms)"
| "coerce_json j = j"

text \<open>The program marshals no numbers.\<close>

fun no_num :: "json \<Rightarrow> bool" where
  "no_num (JNum _) = False"
| "no_num (JArr js) = (\<forall>j \<in> set js. no_num j)"
| "no_num (JObj ms) = (\<forall>(k, v) \<in> set ms. no_num v)"
| "no_num _ = True"

lemma skip_ws_Cons [simp]: "\<not> is_ws c \<Longrightarrow> skip_ws (c # s) = c # s"
  by (simp add: skip_ws_def)

lemma not_ws [simp]:
  "\<not> is_ws dq" "\<not> is_ws (CHR ''{'')" "\<not> is_ws (CHR ''['')" "\<not> is_ws (CHR ''}'')" "\<not> is_ws (CHR '']'')"
  "\<not> is_ws (CHR '','')" "\<not> is_ws (CHR '':'')" "\<not> is_ws (CHR ''n'')" "\<not> is_ws (CHR ''t'')" "\<not> is_ws (CHR ''f'')"
  by (simp_all add: is_ws_def)

lemma unquote_quote_string: "unquote (tl (quote_string s) @ t) = Some (coerce_utf8 s, t)"
  by (simp add: quote_string_def unquote_quote_body)

lemma parse_any:
  "parse_value n s = Some (j, r) \<Longrightarrow> length s \<le> m \<Longrightarrow> parse_value m s = Some (j, r)"
  "parse_elems n s = Some (js, r) \<Longrightarrow> length s \<le> m \<Longrightarrow> parse_elems m s = Some (js, r)"
  "parse_members n s = Some (ms, r) \<Longrightarrow> length s \<le> m \<Longrightarrow> parse_members m s = Some (ms, r)"
  using parse_fuel [of n] by (blast intro: readsD le_trans [OF diff_le_self])+

definition parses :: "(nat \<Rightarrow> string \<Rightarrow> ('a \<times> string) option) \<Rightarrow> string \<Rightarrow> 'a \<Rightarrow> string \<Rightarrow> bool" where
  "parses p s x r \<longleftrightarrow> (\<exists>n. p n s = Some (x, r))"

lemma parsesI: "p n s = Some (x, r) \<Longrightarrow> parses p s x r"
  by (auto simp: parses_def)

lemma parse_elem_last:
  "parses parse_value s j (CHR '']'' # t) \<Longrightarrow> parses parse_elems s [j] t"
  unfolding parses_def by (elim exE, rule_tac x = "Suc n" in exI) (simp add: Let_def)

lemma parse_elem_more:
  assumes "parses parse_value s j (CHR '','' # u)" and "parses parse_elems u js t"
  shows "parses parse_elems s (j # js) t"
proof -
  from assms obtain n m where n: "parse_value n s = Some (j, CHR '','' # u)"
    and m: "parse_elems m u = Some (js, t)" by (auto simp: parses_def)
  let ?N = "length s + length u"
  from parse_any(1) [OF n, of ?N] parse_any(2) [OF m, of ?N]
  have "parse_elems (Suc ?N) s = Some (j # js, t)" by (simp add: Let_def del: parse_value.simps)
  then show ?thesis by (rule parsesI)
qed

lemma parse_member_value:
  "parses parse_value s v (c # t) \<Longrightarrow> c = CHR ''}'' \<Longrightarrow>
   parses parse_members (quote_string k @ CHR '':'' # s) [(coerce_utf8 k, v)] t"
  unfolding parses_def
  by (elim exE, rule_tac x = "Suc n" in exI) (simp add: Let_def quote_string_def unquote_quote_body)

lemma parse_member_more:
  assumes "parses parse_value s v (CHR '','' # u)" and "parses parse_members u ms t"
  shows "parses parse_members (quote_string k @ CHR '':'' # s) ((coerce_utf8 k, v) # ms) t"
proof -
  from assms obtain n m where n: "parse_value n s = Some (v, CHR '','' # u)"
    and m: "parse_members m u = Some (ms, t)" by (auto simp: parses_def)
  let ?N = "length s + length u"
  from parse_any(1) [OF n, of ?N] parse_any(3) [OF m, of ?N]
  have "parse_members (Suc ?N) (quote_string k @ CHR '':'' # s) = Some ((coerce_utf8 k, v) # ms, t)"
    by (simp add: Let_def quote_string_def unquote_quote_body del: parse_value.simps)
  then show ?thesis by (rule parsesI)
qed

lemma parse_array:
  "parses parse_elems (c # s) js t \<Longrightarrow> \<not> is_ws c \<Longrightarrow> c \<noteq> CHR '']'' \<Longrightarrow>
   parses parse_value (CHR ''['' # c # s) (JArr js) t"
  unfolding parses_def by (elim exE, rule_tac x = "Suc n" in exI) (simp add: Let_def)

lemma parse_object:
  "parses parse_members (dq # s) ms t \<Longrightarrow> parses parse_value (CHR ''{'' # dq # s) (JObj ms) t"
  unfolding parses_def by (elim exE, rule_tac x = "Suc n" in exI) (simp add: Let_def)

definition prints_ok :: "json \<Rightarrow> bool" where
  "prints_ok j \<longleftrightarrow> (\<forall>t. parses parse_value (print_json j @ t) (coerce_json j) t)"

lemma elems_round_trip:
  assumes "js \<noteq> []" and "\<And>j. j \<in> set js \<Longrightarrow> prints_ok j"
  shows "parses parse_elems (join_comma (map print_json js) @ CHR '']'' # t) (map coerce_json js) t"
  using assms
proof (induction js)
  case (Cons j js)
  then show ?case
    by (cases js) (auto simp: prints_ok_def intro: parse_elem_last parse_elem_more)
qed simp

lemma members_round_trip:
  assumes "ms \<noteq> []" and "\<And>k v. (k, v) \<in> set ms \<Longrightarrow> prints_ok v"
  shows "parses parse_members
           (join_comma (map (\<lambda>(k, v). quote_string k @ '':'' @ print_json v) ms) @ CHR ''}'' # t)
           (map (\<lambda>(k, v). (coerce_utf8 k, coerce_json v)) ms) t"
  using assms
proof (induction ms)
  case (Cons m ms)
  then show ?case
    by (cases ms; cases m) (auto simp: prints_ok_def intro: parse_member_value parse_member_more)
qed simp

lemma print_json_head:
  "no_num j \<Longrightarrow> \<exists>c r. print_json j = c # r \<and> \<not> is_ws c \<and> c \<noteq> CHR '']''"
  by (cases j) (auto simp: quote_string_def)

lemma join_comma_head: "\<exists>r. join_comma ((c # x) # xs) = c # r"
  by (cases xs) auto

theorem json_round_trip: "no_num j \<Longrightarrow> prints_ok j"
proof (induction j)
  case JNull
  show ?case by (auto simp: prints_ok_def Let_def intro: parsesI [of _ "Suc 0"])
next
  case (JBool b)
  show ?case by (auto simp: prints_ok_def Let_def intro: parsesI [of _ "Suc 0"])
next
  case (JStr s)
  show ?case
    by (auto simp: prints_ok_def Let_def quote_string_def unquote_quote_body intro!: parsesI [of _ "Suc 0"])
next
  case (JArr js)
  show ?case
  proof (cases js)
    case Nil
    then show ?thesis by (auto simp: prints_ok_def Let_def intro: parsesI [of _ "Suc 0"])
  next
    case (Cons j' js')
    with JArr have "prints_ok j" if "j \<in> set js" for j using that by auto
    then have E: "parses parse_elems (join_comma (map print_json js) @ CHR '']'' # t) (map coerce_json js) t" for t
      using Cons by (intro elems_round_trip) auto
    from Cons JArr.prems print_json_head [of j'] obtain c r where
      "join_comma (map print_json js) = c # r" "\<not> is_ws c" "c \<noteq> CHR '']''"
      using join_comma_head by force
    with E show ?thesis by (auto simp: prints_ok_def intro: parse_array)
  qed
next
  case (JObj ms)
  show ?case
  proof (cases ms)
    case Nil
    then show ?thesis by (auto simp: prints_ok_def Let_def intro: parsesI [of _ "Suc 0"])
  next
    case (Cons m ms')
    let ?p = "\<lambda>(k, v). quote_string k @ '':'' @ print_json v"
    from JObj have "prints_ok v" if "(k, v) \<in> set ms" for k v using that by fastforce
    then have M: "parses parse_members (join_comma (map ?p ms) @ CHR ''}'' # t)
        (map (\<lambda>(k, v). (coerce_utf8 k, coerce_json v)) ms) t" for t
      using Cons by (intro members_round_trip) auto
    obtain x where "?p m = dq # x" by (cases m) (simp add: quote_string_def)
    with Cons obtain r where "join_comma (map ?p ms) = dq # r" using join_comma_head [of dq x] by auto
    with M show ?thesis by (auto simp: prints_ok_def intro: parse_object)
  qed
qed simp

lemma json_parse_print:
  assumes "no_num j" shows "json_parse (print_json j) = Some (coerce_json j)"
proof -
  from json_round_trip [OF assms] obtain n where "parse_value n (print_json j @ []) = Some (coerce_json j, [])"
    unfolding prints_ok_def parses_def by blast
  then have "parse_value n (print_json j) = Some (coerce_json j, [])" by simp
  then show ?thesis by (rule json_parse_complete) (simp add: skip_ws_def)
qed

section \<open>The round trip of string maps\<close>

lemma decode_members_strings:
  "decode_members (map (\<lambda>(k, v). (f k, JStr (g v))) xs) m =
     Some (fold (\<lambda>(k, v). AList.update (f k) (g v)) xs m)"
  by (induction xs arbitrary: m) auto

lemma update_fresh: "k \<notin> fst ` set m \<Longrightarrow> AList.update k v m = m @ [(k, v)]"
  by (induction m) auto

lemma fold_update_append:
  "distinct (map fst (m @ xs)) \<Longrightarrow> fold (\<lambda>(k, v). AList.update k v) xs m = m @ xs"
  by (induction xs arbitrary: m) (auto simp: update_fresh)

definition valid_map :: "string gomap \<Rightarrow> bool" where
  "valid_map m \<longleftrightarrow> (\<forall>(k, v) \<in> set m. valid_utf8 k \<and> valid_utf8 v)"

lemma valid_map_update: "valid_map m \<Longrightarrow> valid_utf8 k \<Longrightarrow> valid_utf8 v \<Longrightarrow> valid_map (AList.update k v m)"
  by (induction m) (auto simp: valid_map_def)

lemma valid_map_delete: "valid_map m \<Longrightarrow> valid_map (AList.delete k m)"
  by (auto simp: valid_map_def AList.delete_eq)

lemma distinct_sort_key: "wf_gomap m \<Longrightarrow> distinct (map fst (sort_key fst m))"
  by (simp add: wf_gomap_def distinct_map inj_on_def)

lemma map_of_sort_key: "wf_gomap m \<Longrightarrow> map_of (sort_key fst m) = map_of m"
  using distinct_sort_key [of m]
  by (intro ext option.expand) (auto simp: wf_gomap_def map_of_eq_None_iff map_of_eq_Some_iff)

text \<open>Decoding the encoding of a map gives the same map, in key order.\<close>

lemma unmarshal_marshal:
  assumes "wf_gomap m" and "valid_map m"
  shows "unmarshal_map (marshal_map m) = Inr (Some (sort_key fst m))"
proof -
  let ?s = "sort_key fst m"
  have "map (\<lambda>(k, v). (coerce_utf8 k, coerce_json v)) (map (\<lambda>(k, v). (k, JStr v)) ?s) = map (\<lambda>(k, v). (k, JStr v)) ?s"
    using assms(2) by (auto simp: valid_map_def coerce_valid)
  then have "json_parse (marshal_map m) = Some (JObj (map (\<lambda>(k, v). (k, JStr v)) ?s))"
    unfolding marshal_map_def by (subst json_parse_print) auto
  moreover have "decode_members (map (\<lambda>(k, v). (k, JStr v)) ?s) [] = Some ?s"
    using decode_members_strings [of "\<lambda>k. k" "\<lambda>v. v" ?s "[]"] fold_update_append [of "[]" ?s]
      distinct_sort_key [OF assms(1)] by simp
  ultimately show ?thesis by (simp add: unmarshal_map_def)
qed

lemma wf_sort_key: "wf_gomap m \<Longrightarrow> wf_gomap (sort_key fst m)"
  using distinct_sort_key by (simp add: wf_gomap_def)

lemma marshal_map_nonempty [simp]: "marshal_map m \<noteq> []"
  by (simp add: marshal_map_def)

section \<open>Lower-casing keeps strings valid\<close>

lemma lower_char_ord: "ord (lower_char c) = ord c \<or> ord c < 128 \<and> ord (lower_char c) < 128"
  by (auto simp: lower_char_def)

lemma lower_high: "128 \<le> ord c \<Longrightarrow> lower_char c = c"
  by (simp add: lower_char_def)

lemma lower_low: "ord (lower_char c) < 128 \<longleftrightarrow> ord c < 128"
  using lower_char_ord [of c] by auto

lemma lower_bound: "128 \<le> n \<Longrightarrow> n \<le> ord (lower_char c) \<longleftrightarrow> n \<le> ord c"
  using lower_char_ord [of c] by auto

lemma cont_lower: "cont_byte (lower_char c) \<longleftrightarrow> cont_byte c"
  by (cases "128 \<le> ord c") (simp_all add: cont_byte_def lower_high lower_bound)

lemma lower_runes:
  "rune2 (lower_char c0) (lower_char c1) \<longleftrightarrow> rune2 c0 c1"
  "rune3 (lower_char c0) (lower_char c1) (lower_char c2) \<longleftrightarrow> rune3 c0 c1 c2"
  "rune4 (lower_char c0) (lower_char c1) (lower_char c2) (lower_char c3) \<longleftrightarrow> rune4 c0 c1 c2 c3"
proof -
  show "rune2 (lower_char c0) (lower_char c1) \<longleftrightarrow> rune2 c0 c1"
    by (cases "128 \<le> ord c0") (simp_all add: rune2_def cont_lower lower_high lower_bound)
  have c1: "cont_byte c1 \<Longrightarrow> lower_char c1 = c1" by (simp add: cont_byte_def lower_high)
  show "rune3 (lower_char c0) (lower_char c1) (lower_char c2) \<longleftrightarrow> rune3 c0 c1 c2"
    by (cases "128 \<le> ord c0"; cases "cont_byte c1") (simp_all add: rune3_def cont_lower lower_high lower_bound c1)
  show "rune4 (lower_char c0) (lower_char c1) (lower_char c2) (lower_char c3) \<longleftrightarrow> rune4 c0 c1 c2 c3"
    by (cases "128 \<le> ord c0"; cases "cont_byte c1") (simp_all add: rune4_def cont_lower lower_high lower_bound c1)
qed

lemma rune_len_lower: "rune_len (map lower_char s) = rune_len s"
  by (induction s rule: rune_len.induct) (simp_all add: lower_runes)

lemma valid_ToLower: "valid_utf8 s \<Longrightarrow> valid_utf8 (ToLower s)"
proof (induction s rule: valid_utf8.induct)
  case (2 c cs)
  have "rune_len (lower_char c # map lower_char cs) = rune_len (c # cs)" using rune_len_lower [of "c # cs"] by simp
  with 2 show ?case
    by (auto simp: ToLower_def valid_utf8.simps(2) lower_low drop_map [symmetric] drop_Cons' split: if_splits)
qed (simp add: ToLower_def)

end
