(* ===== verification/Details.thy ===== *)
theory Details
  imports Cache GoJson
begin

text \<open>
  The details the reconciler keeps in the cache: under the name of a team or the e-mail address of a
  user, a JSON object that maps \<open>backendName_backendType\<close> to the identifier in that backend.  This
  theory holds the reading of such an entry as the reconciler writes it out three times, and the
  locale \<open>details_store\<close>: a cache seen as a two-level map.  Every cache that satisfies \<open>cache_store\<close>
  and holds only encoded objects is such a store.
\<close>

section \<open>Reading an entry\<close>

text \<open>\<^verbatim>\<open>backendName + "_" + backendType\<close>\<close>

definition cacheKey :: "string \<Rightarrow> string \<Rightarrow> string" where
  "cacheKey backendName backendType = backendName @ ''_'' @ backendType"

text \<open>
  \<^verbatim>\<open>if err == nil && v != "" { json.Unmarshal([]byte(v.(string)), &m) }\<close> on an empty map; the
  inner \<open>None\<close> is the nil map that a JSON \<open>null\<close> leaves.
\<close>

definition cached_details :: "any \<Rightarrow> gerror option \<Rightarrow> string gomap option result" where
  "cached_details v err =
     (if err = None \<and> v \<noteq> Str []
      then case v of
             Str s \<Rightarrow> unmarshal_map s
           | Other \<Rightarrow> Inl (GoPanic ''interface conversion: interface is not string'')
      else Inr (Some []))"

text \<open>Reading a map that may be nil.\<close>

definition mget :: "string gomap option \<Rightarrow> string \<Rightarrow> string" where
  "mget m k = (case m of None \<Rightarrow> [] | Some m' \<Rightarrow> gget m' k)"

text \<open>Writing a map that may be nil.\<close>

definition mput :: "string \<Rightarrow> string \<Rightarrow> string gomap option \<Rightarrow> string gomap result" where
  "mput k v m =
     (case m of
        None \<Rightarrow> Inl (GoPanic ''assignment to entry in nil map'')
      | Some m' \<Rightarrow> Inr (AList.update k v m'))"

lemma mget_Some [simp]: "mget (Some m) k = gget m k"
  by (simp add: mget_def)

lemma mput_Some [simp]: "mput k v (Some m) = Inr (AList.update k v m)"
  by (simp add: mput_def)

section \<open>The cache as a two-level map\<close>

text \<open>The identifier stored for a backend; the empty string when there is none.\<close>

definition ident :: "(string \<Rightarrow> string \<rightharpoonup> string) \<Rightarrow> string \<Rightarrow> string \<Rightarrow> string" where
  "ident d k key = (case d k key of None \<Rightarrow> [] | Some v \<Rightarrow> v)"

lemma ident_empty [simp]: "ident (\<lambda>_. Map.empty) k key = []"
  by (simp add: ident_def)

lemma ident_update: "ident (d(k := (d k)(key \<mapsto> v))) k' key' = (if k' = k \<and> key' = key then v else ident d k' key')"
  by (simp add: ident_def)

text \<open>
  The answer to a read: either a miss, or an encoded object.
\<close>

definition details_answer :: "any \<times> gerror option \<Rightarrow> string gomap \<Rightarrow> bool" where
  "details_answer r m \<longleftrightarrow>
     (fst r = Str [] \<and> (\<exists>e. snd r = Some e \<and> \<not> is_panic e) \<and> m = []) \<or>
     (\<exists>s. fst r = Str s \<and> s \<noteq> [] \<and> snd r = None \<and> unmarshal_map s = Inr (Some m))"

lemma cached_details_answer: "details_answer (v, err) m \<Longrightarrow> cached_details v err = Inr (Some m)"
  by (auto simp: details_answer_def cached_details_def)

locale details_store =
  fixes ops :: "'c cache" and inv :: "'c \<Rightarrow> bool" and D :: "'c \<Rightarrow> string \<Rightarrow> string \<rightharpoonup> string"
  assumes det_read: "inv c \<Longrightarrow> \<exists>r c' m. cGet ops k c = (r, c') \<and> details_answer r m \<and> wf_gomap m \<and> valid_map m \<and>
                   map_of m = D c k \<and> inv c' \<and> D c' = D c"
    and det_write: "inv c \<Longrightarrow> wf_gomap m \<Longrightarrow> valid_map m \<Longrightarrow>
                  \<exists>c'. cSet ops k (marshal_map m) NoExpiration c = (None, c') \<and> inv c' \<and> D c' = (D c)(k := map_of m)"
    and det_remove: "inv c \<Longrightarrow> \<exists>c'. cDelete ops k c = (None, c') \<and> inv c' \<and> D c' = (D c)(k := Map.empty)"
begin

lemma readE:
  assumes "inv c"
  obtains v err c' m where "cGet ops k c = ((v, err), c')" "details_answer (v, err) m" "wf_gomap m" "valid_map m"
    "map_of m = D c k" "inv c'" "D c' = D c" "\<forall>key. gget m key = ident (D c) k key"
proof -
  from det_read [OF assms, of k] obtain r c' m where
    "cGet ops k c = (r, c')" "details_answer r m" "wf_gomap m" "valid_map m" "map_of m = D c k" "inv c'" "D c' = D c" by blast
  then show ?thesis using that [of "fst r" "snd r" c' m] by (simp add: gget_def ident_def)
qed

text \<open>Adding one identifier to the object of a key.\<close>

lemma write_update:
  assumes "inv c" "wf_gomap m" "valid_map m" "map_of m = D c k" "valid_utf8 key" "valid_utf8 v"
  obtains c' where "cSet ops k (marshal_map (AList.update key v m)) NoExpiration c = (None, c')" "inv c'"
    "D c' = (D c)(k := (D c k)(key \<mapsto> v))"
proof -
  from assms have "wf_gomap (AList.update key v m)" "valid_map (AList.update key v m)" by (simp_all add: valid_map_update)
  from det_write [OF assms(1) this, of k] that show ?thesis
    by (auto simp: gomap_simps assms(4))
qed

end

section \<open>Every working cache of encoded objects is such a store\<close>

definition encoded :: "(string \<rightharpoonup> string) \<Rightarrow> bool" where
  "encoded \<alpha> \<longleftrightarrow> (\<forall>k s. \<alpha> k = Some s \<longrightarrow> (\<exists>m. s = marshal_map m \<and> wf_gomap m \<and> valid_map m))"

definition details :: "(string \<rightharpoonup> string) \<Rightarrow> string \<Rightarrow> string \<rightharpoonup> string" where
  "details \<alpha> k =
     (case \<alpha> k of
        None \<Rightarrow> Map.empty
      | Some s \<Rightarrow> (case unmarshal_map s of Inr (Some m) \<Rightarrow> map_of m | _ \<Rightarrow> Map.empty))"

lemma encoded_empty [simp]: "encoded Map.empty"
  by (simp add: encoded_def)

lemma details_empty [simp]: "details Map.empty = (\<lambda>_. Map.empty)"
  by (simp add: details_def fun_eq_iff)

lemma encoded_update: "encoded \<alpha> \<Longrightarrow> wf_gomap m \<Longrightarrow> valid_map m \<Longrightarrow> encoded (\<alpha>(k \<mapsto> marshal_map m))"
  by (auto simp: encoded_def)

lemma encoded_delete: "encoded \<alpha> \<Longrightarrow> encoded (\<alpha>(k := None))"
  by (auto simp: encoded_def)

lemma details_update: "wf_gomap m \<Longrightarrow> valid_map m \<Longrightarrow> details (\<alpha>(k \<mapsto> marshal_map m)) = (details \<alpha>)(k := map_of m)"
  by (auto simp: details_def fun_eq_iff unmarshal_marshal map_of_sort_key)

lemma details_delete: "details (\<alpha>(k := None)) = (details \<alpha>)(k := Map.empty)"
  by (auto simp: details_def fun_eq_iff)

lemma valid_sort_key: "valid_map m \<Longrightarrow> valid_map (sort_key fst m)"
  by (simp add: valid_map_def)

lemma details_answer_hit:
  "wf_gomap m \<Longrightarrow> valid_map m \<Longrightarrow> details_answer (Str (marshal_map m), None) (sort_key fst m)"
  by (simp add: details_answer_def unmarshal_marshal)

context cache_store
begin

lemma read_encoded:
  assumes "inv c" and "encoded (\<alpha> c)"
  shows "\<exists>r c' m. cGet ops k c = (r, c') \<and> details_answer r m \<and> wf_gomap m \<and> valid_map m \<and>
           map_of m = details (\<alpha> c) k \<and> (inv c' \<and> encoded (\<alpha> c')) \<and> details (\<alpha> c') = details (\<alpha> c)"
proof (cases "\<alpha> c k")
  case None
  from get_miss [OF assms(1) None] obtain e c' where
    "cGet ops k c = ((Str [], Some e), c')" "\<not> is_panic e" "inv c'" "\<alpha> c' = \<alpha> c" by blast
  with None assms(2) show ?thesis
    by (intro exI [of _ "(Str [], Some e)"] exI [of _ c'] exI [of _ "[]"])
      (auto simp: details_def details_answer_def valid_map_def)
next
  case (Some s)
  with assms(2) obtain m where m: "s = marshal_map m" "wf_gomap m" "valid_map m" by (auto simp: encoded_def)
  from get_hit [OF assms(1) Some] obtain c' where
    "cGet ops k c = ((Str s, None), c')" "inv c'" "\<alpha> c' = \<alpha> c" by blast
  with Some m assms(2) show ?thesis
    by (intro exI [of _ "(Str s, None)"] exI [of _ c'] exI [of _ "sort_key fst m"])
      (simp add: details_def unmarshal_marshal details_answer_hit wf_sort_key valid_sort_key)
qed

end

sublocale cache_store \<subseteq> det: details_store ops "\<lambda>c. inv c \<and> encoded (\<alpha> c)" "\<lambda>c. details (\<alpha> c)"
proof
  fix c k m
  assume c: "inv c \<and> encoded (\<alpha> c)"
  then show "\<exists>r c' m. cGet ops k c = (r, c') \<and> details_answer r m \<and> wf_gomap m \<and> valid_map m \<and>
      map_of m = details (\<alpha> c) k \<and> (inv c' \<and> encoded (\<alpha> c')) \<and> details (\<alpha> c') = details (\<alpha> c)"
    using read_encoded by blast
  show "wf_gomap m \<Longrightarrow> valid_map m \<Longrightarrow>
      \<exists>c'. cSet ops k (marshal_map m) NoExpiration c = (None, c') \<and> (inv c' \<and> encoded (\<alpha> c')) \<and>
           details (\<alpha> c') = (details (\<alpha> c))(k := map_of m)"
    using set_ok [of c k "marshal_map m"] c by (auto simp: encoded_update details_update)
  show "\<exists>c'. cDelete ops k c = (None, c') \<and> (inv c' \<and> encoded (\<alpha> c')) \<and> details (\<alpha> c') = (details (\<alpha> c))(k := Map.empty)"
    using delete_ok [of c k] c by (auto simp: encoded_delete details_delete)
qed

end
