(* ===== verification/Structs.thy ===== *)
theory Structs
  imports Prelude
begin

text \<open>
  The data the components exchange (\<^verbatim>\<open>pkg/common/structs\<close>) and the interface every backend client
  implements (\<^verbatim>\<open>pkg/clients/client.go\<close>): a record of operations on the state \<open>'b\<close> of the backends.
\<close>

record Team =
  t_ID :: string
  t_Name :: string
  t_Description :: string
  t_Role :: string

record User =
  u_ID :: string
  u_UserName :: string
  u_Email :: string
  u_FirstName :: string
  u_LastName :: string
  u_DisplayName :: string
  u_Role :: string

record LDAPUser =
  CN :: string
  DisplayName :: string
  Email :: string
  SN :: string
  UID :: string

definition empty_team :: Team where
  "empty_team = \<lparr>t_ID = [], t_Name = [], t_Description = [], t_Role = []\<rparr>"

definition empty_user :: User where
  "empty_user = \<lparr>u_ID = [], u_UserName = [], u_Email = [], u_FirstName = [], u_LastName = [], u_DisplayName = [], u_Role = []\<rparr>"

definition AccountReviewerRole :: string where
  "AccountReviewerRole = ''Account Reviewer''"

record 'b client =
  FetchAllUsers :: "'b \<Rightarrow> (User gomap \<times> User gomap) result \<times> 'b"
  FetchUserDetails :: "string \<Rightarrow> 'b \<Rightarrow> User result \<times> 'b"
  CreateUser :: "User \<Rightarrow> 'b \<Rightarrow> User result \<times> 'b"
  DeleteUser :: "string \<Rightarrow> 'b \<Rightarrow> gerror option \<times> 'b"
  FetchAllTeams :: "'b \<Rightarrow> Team gomap result \<times> 'b"
  FetchTeamDetails :: "string \<Rightarrow> 'b \<Rightarrow> Team result \<times> 'b"
  CreateTeam :: "Team \<Rightarrow> 'b \<Rightarrow> Team result \<times> 'b"
  DeleteTeamByID :: "string \<Rightarrow> 'b \<Rightarrow> gerror option \<times> 'b"
  FetchTeamMembersByTeamID :: "string \<Rightarrow> 'b \<Rightarrow> User gomap result \<times> 'b"
  AddUserToTeam :: "string \<Rightarrow> string list \<Rightarrow> 'b \<Rightarrow> gerror option \<times> 'b"
  RemoveUserFromTeam :: "string \<Rightarrow> string list \<Rightarrow> 'b \<Rightarrow> gerror option \<times> 'b"

section \<open>A backend in memory\<close>

text \<open>
  A backend that keeps the members of its teams in an association list: the instance on which the
  assumptions made of backends are shown to be satisfiable.
\<close>

type_synonym demo = "(string \<times> string list) list"

definition demo_members :: "demo \<Rightarrow> string \<Rightarrow> string list" where
  "demo_members b t = (case map_of b t of None \<Rightarrow> [] | Some ms \<Rightarrow> ms)"

definition ascii :: "string \<Rightarrow> string" where
  "ascii s = filter (\<lambda>c. (of_char c :: nat) < 128) s"

definition demo_client :: "demo client" where
  "demo_client =
     \<lparr>FetchAllUsers = \<lambda>b. (Inr ([], []), b),
      FetchUserDetails = \<lambda>i b. (Inr empty_user, b),
      CreateUser = \<lambda>u b. (Inr (u\<lparr>u_ID := ''u-1''\<rparr>), b),
      DeleteUser = \<lambda>i b. (None, b),
      FetchAllTeams = \<lambda>b. (Inr (map (\<lambda>(t, ms). (t, empty_team)) b), b),
      FetchTeamDetails = \<lambda>i b. (Inr empty_team, b),
      CreateTeam = \<lambda>t b. (Inr (t\<lparr>t_ID := ascii (t_Name t)\<rparr>), AList.update (ascii (t_Name t)) [] b),
      DeleteTeamByID = \<lambda>i b. (None, AList.delete i b),
      FetchTeamMembersByTeamID = \<lambda>i b. (Inr (map (\<lambda>m. (m, empty_user)) (remdups (demo_members b i))), b),
      AddUserToTeam = \<lambda>i us b. (None, AList.update i (demo_members b i @ us) b),
      RemoveUserFromTeam = \<lambda>i us b. (None, AList.update i (filter (\<lambda>m. m \<notin> set us) (demo_members b i)) b)\<rparr>"

end
