(* ===== verification/Users.thy ===== *)
theory Users
  imports Details Structs
begin

text \<open>
  The users of a group in a backend (\<^verbatim>\<open>internal/controller/group_controller.go\<close>):
  \<^verbatim>\<open>createUsersInBackendAndCache\<close>, which makes sure that every user with LDAP data has an identifier
  in the cache, and \<^verbatim>\<open>processUsers\<close>, which computes whom to add to and whom to remove from a team.
  \<open>ldap\<close> is the map \<^verbatim>\<open>allLdapUserData\<close> of the reconciler.
\<close>

section \<open>Definitions\<close>

definition new_user :: "string \<Rightarrow> LDAPUser \<Rightarrow> User" where
  "new_user user d =
     \<lparr>u_ID = [], u_UserName = user, u_Email = Email d, u_FirstName = DisplayName d, u_LastName = SN d,
      u_DisplayName = [], u_Role = AccountReviewerRole\<rparr>"

text \<open>One turn of the loop for a user with LDAP data.\<close>

definition create_user ::
    "'c cache \<Rightarrow> 'b client \<Rightarrow> string \<Rightarrow> string \<Rightarrow> LDAPUser \<Rightarrow> 'c \<times> 'b \<Rightarrow> gerror option \<times> 'c \<times> 'b" where
  "create_user cops cl key user d = (\<lambda>(c, b).
     let ((v, err), c1) = cGet cops (Email d) c
     in case cached_details v err of
          Inl jErr \<Rightarrow> (Some jErr, c1, b)
        | Inr m \<Rightarrow>
            (if mget m key \<noteq> [] then (None, c1, b)
             else case CreateUser cl (new_user user d) b of
                    (Inl err, b') \<Rightarrow> (Some err, c1, b')
                  | (Inr newUser, b') \<Rightarrow>
                      (case mput key (u_ID newUser) m of
                         Inl panic \<Rightarrow> (Some panic, c1, b')
                       | Inr m' \<Rightarrow>
                           (let (err, c2) = cSet cops (Email d) (marshal_map m') NoExpiration c1 in (err, c2, b')))))"

fun createUsersInBackendAndCache ::
    "'c cache \<Rightarrow> 'b client \<Rightarrow> LDAPUser gomap \<Rightarrow> string \<Rightarrow> string \<Rightarrow> string list \<Rightarrow> 'c \<times> 'b \<Rightarrow> gerror option \<times> 'c \<times> 'b" where
  "createUsersInBackendAndCache cops cl ldap backendName backendType [] s = (None, s)"
| "createUsersInBackendAndCache cops cl ldap backendName backendType (user # users) s =
     (case map_of ldap user of
        None \<Rightarrow> createUsersInBackendAndCache cops cl ldap backendName backendType users s
      | Some d \<Rightarrow>
          (case create_user cops cl (cacheKey backendName backendType) user d s of
             (Some err, s') \<Rightarrow> (Some err, s')
           | (None, s') \<Rightarrow> createUsersInBackendAndCache cops cl ldap backendName backendType users s'))"

text \<open>
  The first loop of \<^verbatim>\<open>processUsers\<close>.  An early \<^verbatim>\<open>return nil, nil, err\<close> is \<open>Inl\<close> of that error, which is
  nil when the cache answered with an empty string and no error.
\<close>

fun sync_loop ::
    "'c cache \<Rightarrow> LDAPUser gomap \<Rightarrow> User gomap \<Rightarrow> string \<Rightarrow> string list \<Rightarrow> string list \<Rightarrow> string list \<Rightarrow> 'c
       \<Rightarrow> (gerror option + string list \<times> string list) \<times> 'c" where
  "sync_loop cops ldap existing key [] userIDsToSync usersToRemove c = (Inr (userIDsToSync, usersToRemove), c)"
| "sync_loop cops ldap existing key (user # users) userIDsToSync usersToRemove c =
     (case map_of ldap user of
        None \<Rightarrow>
          sync_loop cops ldap existing key users userIDsToSync
            (if map_of existing user \<noteq> None then usersToRemove @ [user] else usersToRemove) c
      | Some d \<Rightarrow>
          (let ((v, err), c1) = cGet cops (Email d) c
           in if err \<noteq> None \<and> err \<noteq> Some RedisNil \<or> v = Str [] then (Inl err, c1)
              else case v of
                     Other \<Rightarrow> (Inl (Some (GoErr ''user details in cache are not of type string'')), c1)
                   | Str s \<Rightarrow>
                       (case unmarshal_map s of
                          Inl jErr \<Rightarrow> (Inl (Some jErr), c1)
                        | Inr m \<Rightarrow>
                            (if mget m key = [] then (Inl (Some (GoErr ''user ID not found in cache'')), c1)
                             else sync_loop cops ldap existing key users (userIDsToSync @ [mget m key]) usersToRemove c1))))"

definition processUsers ::
    "'c cache \<Rightarrow> iter \<Rightarrow> LDAPUser gomap \<Rightarrow> string list \<Rightarrow> User gomap \<Rightarrow> string \<Rightarrow> string \<Rightarrow> 'c
       \<Rightarrow> (string list \<times> string list) result \<times> 'c" where
  "processUsers cops it ldap groupUsers existing backendName backendType c =
     (case sync_loop cops ldap existing (cacheKey backendName backendType) groupUsers [] [] c of
        (Inl None, c') \<Rightarrow> (Inr ([], []), c')
      | (Inl (Some err), c') \<Rightarrow> (Inl err, c')
      | (Inr (userIDsToSync, usersToRemove), c') \<Rightarrow>
          (let remove = usersToRemove @ filter (\<lambda>userID. userID \<notin> set userIDsToSync) (it (map fst existing));
               add = filter (\<lambda>userID. map_of existing userID = None) userIDsToSync
           in (Inr (add, remove), c')))"

section \<open>Behaviour on a working cache\<close>

text \<open>The e-mail addresses of the users that have LDAP data, in order.\<close>

definition emails :: "LDAPUser gomap \<Rightarrow> string list \<Rightarrow> string list" where
  "emails ldap users = map Email (List.map_filter (map_of ldap) users)"

lemma emails_simps [simp]:
  "emails ldap [] = []"
  "emails ldap (u # us) = (case map_of ldap u of None \<Rightarrow> emails ldap us | Some d \<Rightarrow> Email d # emails ldap us)"
  by (simp_all add: emails_def map_filter_simps split: option.split)

definition without_ldap :: "LDAPUser gomap \<Rightarrow> User gomap \<Rightarrow> string list \<Rightarrow> string list" where
  "without_ldap ldap existing users = filter (\<lambda>u. map_of ldap u = None \<and> map_of existing u \<noteq> None) users"

lemma details_answer_sync:
  assumes "details_answer (v, err) m"
  shows "err \<noteq> None \<and> err \<noteq> Some RedisNil \<or> v = Str [] \<Longrightarrow> m = [] \<and> (\<exists>e. err = Some e)"
    and "\<not> (err \<noteq> None \<and> err \<noteq> Some RedisNil \<or> v = Str []) \<Longrightarrow> \<exists>s. v = Str s \<and> unmarshal_map s = Inr (Some m)"
  using assms by (auto simp: details_answer_def)

text \<open>
  What is relied on of \<open>CreateUser\<close>: for a user with a proper name the identifier is not empty and can
  be encoded.  The users with LDAP data have proper names.
\<close>

definition good_name :: "string \<Rightarrow> bool" where
  "good_name s \<longleftrightarrow> s \<noteq> [] \<and> valid_utf8 s"

definition creates_users :: "'b client \<Rightarrow> bool" where
  "creates_users cl \<longleftrightarrow>
     (\<forall>u b u' b'. good_name (u_UserName u) \<longrightarrow> CreateUser cl u b = (Inr u', b') \<longrightarrow> u_ID u' \<noteq> [] \<and> valid_utf8 (u_ID u'))"

definition named_users :: "LDAPUser gomap \<Rightarrow> string list \<Rightarrow> bool" where
  "named_users ldap us \<longleftrightarrow> (\<forall>u \<in> set us. map_of ldap u \<noteq> None \<longrightarrow> good_name u)"

lemma named_users_Cons: "named_users ldap (u # us) \<longleftrightarrow> (map_of ldap u \<noteq> None \<longrightarrow> good_name u) \<and> named_users ldap us"
  by (simp add: named_users_def)

text \<open>A property of the identifiers the backend hands out, and of those the cache holds for a backend.\<close>

definition creates_ids :: "(string \<Rightarrow> bool) \<Rightarrow> 'b client \<Rightarrow> bool" where
  "creates_ids P cl \<longleftrightarrow>
     (\<forall>u b u' b'. good_name (u_UserName u) \<longrightarrow> CreateUser cl u b = (Inr u', b') \<longrightarrow> P (u_ID u')) \<and>
     (\<forall>t b t' b'. valid_utf8 (t_Name t) \<longrightarrow> CreateTeam cl t b = (Inr t', b') \<longrightarrow> P (t_ID t'))"

lemma new_user_name: "u_UserName (new_user user d) = user"
  by (simp add: new_user_def)

lemma creates_idsD:
  "creates_ids P cl \<Longrightarrow> good_name user \<Longrightarrow> CreateUser cl (new_user user d) b = (Inr u', b') \<Longrightarrow> P (u_ID u')"
  "creates_ids P cl \<Longrightarrow> valid_utf8 (t_Name t) \<Longrightarrow> CreateTeam cl t b = (Inr t', b') \<Longrightarrow> P (t_ID t')"
  unfolding creates_ids_def by (metis new_user_name, blast)

lemma creates_usersD:
  "creates_users cl \<Longrightarrow> good_name user \<Longrightarrow> CreateUser cl (new_user user d) b = (Inr u', b') \<Longrightarrow> u_ID u' \<noteq> [] \<and> valid_utf8 (u_ID u')"
  unfolding creates_users_def by (metis new_user_name)

definition known_ids :: "(string \<Rightarrow> bool) \<Rightarrow> string \<Rightarrow> (string \<Rightarrow> string \<rightharpoonup> string) \<Rightarrow> bool" where
  "known_ids P key d \<longleftrightarrow> (\<forall>k. ident d k key \<noteq> [] \<longrightarrow> P (ident d k key))"

lemma known_ids_update: "known_ids P key d \<Longrightarrow> P v \<Longrightarrow> known_ids P key (d(k := (d k)(key \<mapsto> v)))"
  by (simp add: known_ids_def ident_update)

text \<open>Identifiers that are known stay the same, and new ones appear for these keys only.\<close>

definition extends :: "string set \<Rightarrow> string \<Rightarrow> (string \<Rightarrow> string \<rightharpoonup> string) \<Rightarrow> (string \<Rightarrow> string \<rightharpoonup> string) \<Rightarrow> bool" where
  "extends ks key d d' \<longleftrightarrow>
     (\<forall>k key'. (ident d k key' \<noteq> [] \<longrightarrow> ident d' k key' = ident d k key') \<and> (k \<notin> ks \<or> key' \<noteq> key \<longrightarrow> d' k key' = d k key'))"

lemma extends_refl: "extends ks key d d"
  by (simp add: extends_def)

lemma extends_trans: "extends ks key d e \<Longrightarrow> extends ls key e f \<Longrightarrow> extends (ks \<union> ls) key d f"
  by (simp add: extends_def)

lemma extends_mono: "extends ks key d e \<Longrightarrow> ks \<subseteq> ls \<Longrightarrow> extends ls key d e"
  by (auto simp: extends_def)

lemma extends_known: "extends ks key d e \<Longrightarrow> ident d k key \<noteq> [] \<Longrightarrow> ident e k key \<noteq> []"
  by (simp add: extends_def)

context details_store
begin

lemma create_user_step:
  assumes "creates_users cl" and "valid_utf8 key" and "inv c" and "create_user ops cl key user d (c, b) = (r, c', b')"
    and "good_name user"
  shows "inv c' \<and> extends {Email d} key (D c) (D c') \<and> (r = None \<longrightarrow> ident (D c') (Email d) key \<noteq> []) \<and>
         (ident (D c) (Email d) key \<noteq> [] \<longrightarrow> r = None \<and> b' = b) \<and>
         (D c' = D c \<or> (\<exists>u b1. CreateUser cl (new_user user d) b = (Inr u, b1) \<and>
            D c' = (D c)(Email d := (D c (Email d))(key \<mapsto> u_ID u))))"
proof -
  from assms(3) obtain v err c1 m where
    r: "cGet ops (Email d) c = ((v, err), c1)" "details_answer (v, err) m" and m: "wf_gomap m" "valid_map m"
      "map_of m = D c (Email d)" "inv c1" "D c1 = D c" and g: "\<forall>key. gget m key = ident (D c) (Email d) key"
    by (rule readE)
  note body = create_user_def [of ops cl key user d, THEN fun_cong, of "(c, b)"]
  show ?thesis
  proof (cases "ident (D c) (Email d) key = [] \<and> (\<exists>u. fst (CreateUser cl (new_user user d) b) = Inr u)")
    case False
    with assms(4) r g have "c' = c1 \<and> (r = None \<longrightarrow> ident (D c) (Email d) key \<noteq> []) \<and>
         (ident (D c) (Email d) key \<noteq> [] \<longrightarrow> r = None \<and> b' = b)"
      by (auto simp: body cached_details_answer split: if_splits prod.splits sum.splits)
    with m show ?thesis by (auto simp: extends_refl)
  next
    case True
    then obtain u b1 where u: "CreateUser cl (new_user user d) b = (Inr u, b1)" by (metis prod.collapse)
    with assms(1,5) have id: "u_ID u \<noteq> []" "valid_utf8 (u_ID u)" by (auto dest: creates_usersD)
    from m have "map_of m = D c1 (Email d)" by simp
    from m(4,1,2) this assms(2) id(2) obtain c2 where
      c2: "cSet ops (Email d) (marshal_map (AList.update key (u_ID u) m)) NoExpiration c1 = (None, c2)" "inv c2"
      "D c2 = (D c1)(Email d := (D c1 (Email d))(key \<mapsto> u_ID u))" by (rule write_update)
    with assms(4) r g u True have "c' = c2" by (simp add: body cached_details_answer)
    with c2 id m(5) u True show ?thesis by (auto simp: extends_def ident_update)
  qed
qed

text \<open>Nothing is asked of the backend when every user is known already.\<close>

lemma create_users_known:
  assumes "creates_users cl" and "valid_utf8 (cacheKey bn ty)"
  shows "inv c \<Longrightarrow> \<forall>e \<in> set (emails ldap users). ident (D c) e (cacheKey bn ty) \<noteq> [] \<Longrightarrow> named_users ldap users \<Longrightarrow>
    \<exists>c'. createUsersInBackendAndCache ops cl ldap bn ty users (c, b) = (None, c', b) \<and> inv c'"
proof (induction users arbitrary: c)
  case (Cons u us)
  show ?case
  proof (cases "map_of ldap u")
    case None
    with Cons show ?thesis by (simp add: named_users_Cons)
  next
    case (Some d)
    obtain r1 c1 b1 where s: "create_user ops cl (cacheKey bn ty) u d (c, b) = (r1, c1, b1)" by (rule prod_cases3)
    from create_user_step [OF assms Cons.prems(1) s] Cons.prems(2,3) [unfolded named_users_Cons] Some have
      "r1 = None" "b1 = b" "inv c1" "extends {Email d} (cacheKey bn ty) (D c) (D c1)" by auto
    with Cons.IH [of c1] Cons.prems(2,3) Some s show ?thesis by (simp add: extends_def named_users_Cons)
  qed
qed simp

lemma create_users:
  assumes "creates_users cl" and "valid_utf8 (cacheKey bn ty)"
  shows "inv c \<Longrightarrow> createUsersInBackendAndCache ops cl ldap bn ty users (c, b) = (r, c', b') \<Longrightarrow> named_users ldap users \<Longrightarrow>
    inv c' \<and> extends (set (emails ldap users)) (cacheKey bn ty) (D c) (D c') \<and>
    (r = None \<longrightarrow> (\<forall>e \<in> set (emails ldap users). ident (D c') e (cacheKey bn ty) \<noteq> []))"
proof (induction users arbitrary: c b)
  case Nil
  then show ?case by (simp add: extends_refl)
next
  case (Cons u us)
  show ?case
  proof (cases "map_of ldap u")
    case None
    with Cons.prems(2) have "createUsersInBackendAndCache ops cl ldap bn ty us (c, b) = (r, c', b')" by simp
    from Cons.IH [OF Cons.prems(1) this] Cons.prems(3) None show ?thesis by (simp add: named_users_Cons)
  next
    case (Some d)
    obtain r1 c1 b1 where s: "create_user ops cl (cacheKey bn ty) u d (c, b) = (r1, c1, b1)" by (rule prod_cases3)
    from Cons.prems(3) Some have names: "good_name u" "named_users ldap us" by (simp_all add: named_users_Cons)
    note st = create_user_step [OF assms Cons.prems(1) s names(1)]
    show ?thesis
    proof (cases r1)
      case (Some e)
      with Cons.prems s \<open>map_of ldap u = Some d\<close> have "r = Some e" "c' = c1" by auto
      with st \<open>map_of ldap u = Some d\<close> show ?thesis by (auto intro: extends_mono)
    next
      case None
      with Cons.prems s Some have "createUsersInBackendAndCache ops cl ldap bn ty us (c1, b1) = (r, c', b')" by simp
      from Cons.IH [OF _ this names(2)] st None Some extends_known show ?thesis
        by (auto dest: extends_trans)
    qed
  qed
qed

lemma create_users_ids:
  assumes "creates_users cl" and "valid_utf8 (cacheKey bn ty)" and "creates_ids P cl"
  shows "inv c \<Longrightarrow> known_ids P (cacheKey bn ty) (D c) \<Longrightarrow>
    createUsersInBackendAndCache ops cl ldap bn ty users (c, b) = (r, c', b') \<Longrightarrow> named_users ldap users \<Longrightarrow>
    known_ids P (cacheKey bn ty) (D c')"
proof (induction users arbitrary: c b)
  case (Cons u us)
  show ?case
  proof (cases "map_of ldap u")
    case None
    with Cons show ?thesis by (simp add: named_users_Cons)
  next
    case (Some d)
    obtain r1 c1 b1 where s: "create_user ops cl (cacheKey bn ty) u d (c, b) = (r1, c1, b1)" by (rule prod_cases3)
    from Cons.prems(4) Some have names: "good_name u" "named_users ldap us" by (simp_all add: named_users_Cons)
    from create_user_step [OF assms(1,2) Cons.prems(1) s names(1)] Cons.prems(2) assms(3) names(1)
    have "inv c1" "known_ids P (cacheKey bn ty) (D c1)" by (auto intro!: known_ids_update dest: creates_idsD)
    with Cons.IH [of c1 b1] Cons.prems(3) s Some names(2) show ?thesis by (auto split: option.splits)
  qed
qed simp

lemma sync_loop_ok:
  "inv c \<Longrightarrow> \<forall>e \<in> set (emails ldap users). ident (D c) e key \<noteq> [] \<Longrightarrow>
   \<exists>c'. sync_loop ops ldap existing key users ids rm c =
          (Inr (ids @ map (\<lambda>e. ident (D c) e key) (emails ldap users), rm @ without_ldap ldap existing users), c') \<and>
        inv c' \<and> D c' = D c"
proof (induction users arbitrary: ids rm c)
  case Nil
  then show ?case by (simp add: without_ldap_def)
next
  case (Cons u us)
  show ?case
  proof (cases "map_of ldap u")
    case None
    with Cons.prems Cons.IH [of c ids rm] Cons.IH [of c ids "rm @ [u]"] show ?thesis by (simp add: without_ldap_def)
  next
    case (Some d)
    from Cons.prems(1) obtain v err c1 m where
      r: "cGet ops (Email d) c = ((v, err), c1)" "details_answer (v, err) m" and m: "inv c1" "D c1 = D c"
      and g: "\<forall>key. gget m key = ident (D c) (Email d) key"
      by (rule readE) blast
    from Cons.prems(2) Some g have id: "gget m key \<noteq> []" by simp
    then have "m \<noteq> []" by auto
    with details_answer_sync [OF r(2)] obtain s where
      ok: "\<not> (err \<noteq> None \<and> err \<noteq> Some RedisNil \<or> v = Str [])" "v = Str s" "unmarshal_map s = Inr (Some m)" by blast
    have "sync_loop ops ldap existing key (u # us) ids rm c = sync_loop ops ldap existing key us (ids @ [gget m key]) rm c1"
      using Some r(1) ok id by (auto simp: Let_def)
    with Cons.IH [OF m(1), of "ids @ [gget m key]" rm] m(2) Cons.prems(2) Some g show ?thesis
      by (simp add: without_ldap_def)
  qed
qed

lemma process_users:
  assumes "inv c" and "\<forall>e \<in> set (emails ldap users). ident (D c) e (cacheKey bn ty) \<noteq> []"
  shows "\<exists>c'. processUsers ops it ldap users existing bn ty c =
           (let ids = map (\<lambda>e. ident (D c) e (cacheKey bn ty)) (emails ldap users)
            in Inr (filter (\<lambda>i. map_of existing i = None) ids,
                    without_ldap ldap existing users @ filter (\<lambda>i. i \<notin> set ids) (it (map fst existing))), c') \<and>
         inv c' \<and> D c' = D c"
  using sync_loop_ok [OF assms, of existing "[]" "[]"] by (auto simp: processUsers_def Let_def)

end

section \<open>Main results\<close>

text \<open>
  C11: When \<^verbatim>\<open>createUsersInBackendAndCache\<close> succeeds on the in-memory cache, every user with LDAP data
  has an identifier of this backend in the cache, also users created half-way in an earlier failed
  run; whether it succeeds or fails, no cached identifier changes and no other entry is written; and
  a second run succeeds without touching the backend.
\<close>

theorem create_users_complete:
  assumes "creates_users cl" and "valid_utf8 (cacheKey bn ty)" and "never_expires c" and "encoded (contents c)"
    and "createUsersInBackendAndCache (inmemory_cache clock) cl ldap bn ty users (c, b) = (r, c', b')" and "named_users ldap users"
  shows "extends (set (emails ldap users)) (cacheKey bn ty) (details (contents c)) (details (contents c')) \<and>
         (r = None \<longrightarrow>
           (\<forall>e \<in> set (emails ldap users). ident (details (contents c')) e (cacheKey bn ty) \<noteq> []) \<and>
           (\<exists>c''. createUsersInBackendAndCache (inmemory_cache clock) cl ldap bn ty users (c', b') = (None, c'', b')))"
proof -
  have "never_expires c \<and> encoded (contents c)" using assms(3,4) ..
  note run = mem.det.create_users [OF assms(1,2) this assms(5,6)]
  with mem.det.create_users_known [OF assms(1,2) _ _ assms(6), of c' clock b'] show ?thesis by blast
qed

lemma demo_creates_users: "creates_users demo_client"
  by (auto simp: creates_users_def demo_client_def intro!: valid_ascii)

lemma demo_key_valid: "valid_utf8 (cacheKey ''fv'' ''fivetran'')"
  by (rule valid_ascii) (simp add: cacheKey_def)

definition demo_ldap :: "LDAPUser gomap" where
  "demo_ldap = [(''bob'', \<lparr>CN = [], DisplayName = [], Email = ''bob@x.org'', SN = [], UID = []\<rparr>)]"

lemma demo_named_users: "named_users demo_ldap us"
  by (auto simp: named_users_def demo_ldap_def good_name_def intro!: valid_ascii)

lemma demo_create_run:
  "\<exists>c'. createUsersInBackendAndCache (inmemory_cache (\<lambda>n. 7)) demo_client demo_ldap ''fv'' ''fivetran'' [''bob'', ''eve''] (empty_cache, [])
     = (None, c', [])"
  by (simp add: demo_ldap_def create_user_def inmemory_cache_def never_expires_Get(1) cached_details_def
      demo_client_def inmemory_Set_def Let_def)

theorem create_users_complete_witness:
  "\<exists>c'. createUsersInBackendAndCache (inmemory_cache (\<lambda>n. 7)) demo_client demo_ldap ''fv'' ''fivetran'' [''bob'', ''eve''] (empty_cache, [])
          = (None, c', []) \<and> ident (details (contents c')) ''bob@x.org'' (cacheKey ''fv'' ''fivetran'') \<noteq> []"
proof -
  from demo_create_run obtain c' where
    run: "createUsersInBackendAndCache (inmemory_cache (\<lambda>n. 7)) demo_client demo_ldap ''fv'' ''fivetran'' [''bob'', ''eve''] (empty_cache, [])
       = (None, c', [])" ..
  have e: "''bob@x.org'' \<in> set (emails demo_ldap [''bob'', ''eve''])" by (simp add: demo_ldap_def)
  from create_users_complete [OF demo_creates_users demo_key_valid empty_cache_ok(1) _ run demo_named_users] e run show ?thesis by auto
qed

text \<open>
  C12: On the in-memory cache, when every user with LDAP data has a cached identifier, \<^verbatim>\<open>processUsers\<close>
  succeeds and returns exactly the identifiers that are wanted and not yet members as users to add,
  and as users to remove the members that are not wanted together with the members named like a
  group user without LDAP data.
\<close>

theorem process_users_diff:
  assumes "never_expires c" and "encoded (contents c)" and "go_range it" and "wf_gomap existing"
    and "\<forall>e \<in> set (emails ldap users). ident (details (contents c)) e (cacheKey bn ty) \<noteq> []"
  shows "\<exists>add remove c'. processUsers (inmemory_cache clock) it ldap users existing bn ty c = (Inr (add, remove), c') \<and>
           (let ids = (\<lambda>e. ident (details (contents c)) e (cacheKey bn ty)) ` set (emails ldap users);
                members = fst ` set existing
            in set add = ids - members \<and>
               set remove = (members - ids) \<union> {u \<in> set users. map_of ldap u = None \<and> u \<in> members}) \<and>
           details (contents c') = details (contents c)"
proof -
  have "never_expires c \<and> encoded (contents c)" using assms(1,2) ..
  from mem.det.process_users [OF this assms(5), of clock it existing] obtain c' where
    run: "processUsers (inmemory_cache clock) it ldap users existing bn ty c =
      (let ids = map (\<lambda>e. ident (details (contents c)) e (cacheKey bn ty)) (emails ldap users)
       in Inr (filter (\<lambda>i. map_of existing i = None) ids,
               without_ldap ldap existing users @ filter (\<lambda>i. i \<notin> set ids) (it (map fst existing))), c')"
    and D: "details (contents c') = details (contents c)" by blast
  show ?thesis
    unfolding run Let_def
    by (intro exI conjI, rule refl) (auto simp: D without_ldap_def map_of_eq_None_iff go_range_set [OF assms(3,4)])
qed

theorem process_users_diff_witness:
  "\<exists>add remove c'. processUsers (inmemory_cache (\<lambda>n. 7)) rev demo_ldap [''eve''] [(''eve'', empty_user), (''old'', empty_user)] ''fv'' ''fivetran'' empty_cache
       = (Inr (add, remove), c') \<and> set add = {} \<and> set remove = {''eve'', ''old''}"
proof -
  let ?ex = "[(''eve'', empty_user), (''old'', empty_user)]"
  have "wf_gomap ?ex" "emails demo_ldap [''eve''] = []" by (simp_all add: wf_gomap_def demo_ldap_def)
  with process_users_diff [OF empty_cache_ok(1) _ go_range_rev, of ?ex demo_ldap "[''eve'']" "''fv''" "''fivetran''" "\<lambda>n. 7"]
  show ?thesis by (fastforce simp: demo_ldap_def)
qed

end
