(* ===== verification/Requests.thy ===== *)
theory Requests
  imports Structs GoJson "HOL-Library.Word"
begin

text \<open>
  Outgoing HTTP requests: the request helper (\<^verbatim>\<open>pkg/request/request.go\<close>), the construction of the
  HTTP client (\<^verbatim>\<open>pkg/request/httpclient/client.go\<close>), and what they use of \<^verbatim>\<open>net/http\<close>: header maps
  with canonical keys and the texts of status codes.  Sending a request is the parameter \<open>Do\<close> on the
  state \<open>'b\<close> of the remote service; it stands for the retrying circuit breaker, the transport and the
  tracing headers.  Whether \<^verbatim>\<open>http.NewRequestWithContext\<close> accepts a method and a URL is a parameter
  too, and so is the order in which a range over the header map visits its keys.
\<close>

section \<open>What is used of net/http\<close>

type_synonym header = "string list gomap"

text \<open>A byte that may occur in a header name.\<close>

definition token_char :: "char \<Rightarrow> bool" where
  "token_char c \<longleftrightarrow>
     (CHR ''0'' \<le> c \<and> c \<le> CHR ''9'') \<or> (CHR ''a'' \<le> c \<and> c \<le> CHR ''z'') \<or> (CHR ''A'' \<le> c \<and> c \<le> CHR ''Z'') \<or>
     c \<in> set ''!#$%&*+-.^_|~'' \<or> ord c = 39 \<or> ord c = 96"

definition upper_char :: "char \<Rightarrow> char" where
  "upper_char c = (if CHR ''a'' \<le> c \<and> c \<le> CHR ''z'' then chr (ord c - 32) else c)"

fun canonical_case :: "bool \<Rightarrow> string \<Rightarrow> string" where
  "canonical_case upper [] = []"
| "canonical_case upper (c # s) = (if upper then upper_char c else lower_char c) # canonical_case (c = CHR ''-'') s"

definition CanonicalHeaderKey :: "string \<Rightarrow> string" where
  "CanonicalHeaderKey s = (if list_all token_char s then canonical_case True s else s)"

definition header_Get :: "header \<Rightarrow> string \<Rightarrow> string" where
  "header_Get h key = (case map_of h (CanonicalHeaderKey key) of Some (v # vs) \<Rightarrow> v | _ \<Rightarrow> [])"

definition header_Add :: "string \<Rightarrow> string \<Rightarrow> header \<Rightarrow> header" where
  "header_Add key v h =
     (let k = CanonicalHeaderKey key
      in AList.update k ((case map_of h k of None \<Rightarrow> [] | Some vs \<Rightarrow> vs) @ [v]) h)"

definition status_texts :: "(nat \<times> string) list" where
  "status_texts =
     [(100, ''Continue''), (101, ''Switching Protocols''), (102, ''Processing''), (103, ''Early Hints''),
      (200, ''OK''), (201, ''Created''), (202, ''Accepted''), (203, ''Non-Authoritative Information''),
      (204, ''No Content''), (205, ''Reset Content''), (206, ''Partial Content''), (207, ''Multi-Status''),
      (208, ''Already Reported''), (226, ''IM Used''),
      (300, ''Multiple Choices''), (301, ''Moved Permanently''), (302, ''Found''), (303, ''See Other''),
      (304, ''Not Modified''), (305, ''Use Proxy''), (307, ''Temporary Redirect''), (308, ''Permanent Redirect''),
      (400, ''Bad Request''), (401, ''Unauthorized''), (402, ''Payment Required''), (403, ''Forbidden''),
      (404, ''Not Found''), (405, ''Method Not Allowed''), (406, ''Not Acceptable''),
      (407, ''Proxy Authentication Required''), (408, ''Request Timeout''), (409, ''Conflict''), (410, ''Gone''),
      (411, ''Length Required''), (412, ''Precondition Failed''), (413, ''Request Entity Too Large''),
      (414, ''Request URI Too Long''), (415, ''Unsupported Media Type''), (416, ''Requested Range Not Satisfiable''),
      (417, ''Expectation Failed''), (418, ''I'' @ [chr 39] @ ''m a teapot''), (421, ''Misdirected Request''),
      (422, ''Unprocessable Entity''), (423, ''Locked''), (424, ''Failed Dependency''), (425, ''Too Early''),
      (426, ''Upgrade Required''), (428, ''Precondition Required''), (429, ''Too Many Requests''),
      (431, ''Request Header Fields Too Large''), (451, ''Unavailable For Legal Reasons''),
      (500, ''Internal Server Error''), (501, ''Not Implemented''), (502, ''Bad Gateway''),
      (503, ''Service Unavailable''), (504, ''Gateway Timeout''), (505, ''HTTP Version Not Supported''),
      (506, ''Variant Also Negotiates''), (507, ''Insufficient Storage''), (508, ''Loop Detected''),
      (510, ''Not Extended''), (511, ''Network Authentication Required'')]"

definition StatusText :: "nat \<Rightarrow> string" where
  "StatusText code = (case map_of status_texts code of None \<Rightarrow> [] | Some t \<Rightarrow> t)"

definition StatusBadGateway :: nat where
  "StatusBadGateway = 502"

record http_request =
  rq_method :: string
  rq_url :: string
  rq_header :: header
  rq_body :: string

text \<open>The response: reading its body and closing it may fail.\<close>

record http_response =
  StatusCode :: nat
  rs_header :: header
  rs_body :: "string result"
  rs_close :: "gerror option"

record 'b http =
  NewRequestErr :: "string \<Rightarrow> string \<Rightarrow> gerror option"
  Do :: "http_request \<Rightarrow> 'b \<Rightarrow> http_response result \<times> 'b"
  header_order :: iter

section \<open>The request helper\<close>

definition NewRequest :: "'b http \<Rightarrow> string \<Rightarrow> string \<Rightarrow> string \<Rightarrow> http_request result" where
  "NewRequest h meth url body =
     (case NewRequestErr h meth url of
        Some err \<Rightarrow> Inl err
      | None \<Rightarrow> Inr \<lparr>rq_method = (if meth = [] then ''GET'' else meth), rq_url = url, rq_header = [], rq_body = body\<rparr>)"

definition SetHeaders :: "iter \<Rightarrow> string gomap \<Rightarrow> http_request \<Rightarrow> http_request" where
  "SetHeaders it headers r =
     r\<lparr>rq_header := fold (\<lambda>key. header_Add key (gget headers key)) (it (map fst headers)) (rq_header r)\<rparr>"

definition request_send :: "'b http \<Rightarrow> http_request \<Rightarrow> 'b \<Rightarrow> (http_response \<times> string) result \<times> 'b" where
  "request_send h r b =
     (let (res, b') = Do h r b
      in (case res of
            Inl err \<Rightarrow> Inl err
          | Inr response \<Rightarrow>
              (case rs_body response of
                 Inl err \<Rightarrow> Inl err
               | Inr responseBody \<Rightarrow>
                   (case rs_close response of
                      Some err \<Rightarrow> Inl err
                    | None \<Rightarrow> Inr (response, responseBody))), b'))"

text \<open>The results \<open>(body, status, err)\<close> and \<open>(body, header, status, err)\<close> as tuples: callers look at the status of a failed request.\<close>

type_synonym reply = "string \<times> nat \<times> gerror option"
type_synonym reply_with_header = "string \<times> header \<times> nat \<times> gerror option"

definition MakeRequest :: "'b http \<Rightarrow> http_request \<Rightarrow> 'b \<Rightarrow> reply \<times> 'b" where
  "MakeRequest h r b =
     (let (res, b') = request_send h r b
      in (case res of
            Inl err \<Rightarrow> ([], StatusBadGateway, Some err)
          | Inr (response, responseBody) \<Rightarrow> (responseBody, StatusCode response, None), b'))"

definition MakeRequestWithHeader :: "'b http \<Rightarrow> http_request \<Rightarrow> 'b \<Rightarrow> reply_with_header \<times> 'b" where
  "MakeRequestWithHeader h r b =
     (let (res, b') = request_send h r b
      in (case res of
            Inl err \<Rightarrow> ([], [], StatusBadGateway, Some err)
          | Inr (response, responseBody) \<Rightarrow> (responseBody, rs_header response, StatusCode response, None), b'))"

section \<open>The HTTP client\<close>

text \<open>Durations are 64-bit counts of nanoseconds; the product with a millisecond wraps.\<close>

definition milliseconds :: "64 word \<Rightarrow> 64 word" where
  "milliseconds n = n * 1000000"

record ConnectionPoolConfig =
  Timeout :: "64 word"
  KeepAliveTimeout :: "64 word"
  MaxIdleConnections :: "64 word"
  PrivateKeyPath :: string
  CertPath :: string

record HystrixResiliencyConfig =
  MaxConcurrentRequests :: "64 word"
  RequestVolumeThreshold :: "64 word"
  CircuitBreakerSleepWindow :: "64 word"
  ErrorPercentThreshold :: "64 word"
  CircuitBreakerTimeout :: "64 word"

record ('k, 'p) tls_env =
  LoadX509KeyPair :: "string \<Rightarrow> string \<Rightarrow> 'k result"
  SystemCertPool :: "'p result"

record ('k, 'p) http_transport =
  DialKeepAlive :: "64 word"
  MaxIdleConnsPerHost :: "64 word"
  MaxIdleConns :: "64 word"
  IdleConnTimeout :: "64 word"
  TLSHandshakeTimeout :: "64 word"
  ExpectContinueTimeout :: "64 word"
  TLSClientConfig :: "('p \<times> 'k list) option"

text \<open>The retrier: none, or a constant backoff with its maximal jitter.\<close>

datatype retrier = NoRetrier | ConstantBackoff "64 word" "64 word"

record ('k, 'p) hystrix_options =
  o_transport :: "('k, 'p) http_transport"
  o_HTTPTimeout :: "64 word"
  o_CommandName :: string
  o_HystrixTimeout :: "64 word"
  o_MaxConcurrentRequests :: "64 word"
  o_RequestVolumeThreshold :: "64 word"
  o_SleepWindow :: "64 word"
  o_ErrorPercentThreshold :: "64 word"
  o_Retrier :: retrier
  o_RetryCount :: "64 word"
  o_fallback :: bool

text \<open>\<open>errorf s err\<close> is \<^verbatim>\<open>fmt.Errorf("s%w", err)\<close>.\<close>

definition errorf :: "string \<Rightarrow> gerror \<Rightarrow> gerror" where
  "errorf s err = (case err of GoPanic p \<Rightarrow> GoPanic p | _ \<Rightarrow> GoErr (s @ Error err))"

definition tls_config :: "('k, 'p) tls_env \<Rightarrow> ConnectionPoolConfig \<Rightarrow> ('p \<times> 'k list) option result" where
  "tls_config T pool =
     (if 0 < length (PrivateKeyPath pool) \<and> 0 < length (CertPath pool) then
        (case LoadX509KeyPair T (CertPath pool) (PrivateKeyPath pool) of
           Inl err \<Rightarrow> Inl (errorf ''failed to load certificate and key: '' err)
         | Inr cert \<Rightarrow>
             (case SystemCertPool T of
                Inl err \<Rightarrow> Inl (errorf ''failed to load system cert pool: '' err)
              | Inr certPool \<Rightarrow> Inr (Some (certPool, [cert]))))
      else Inr None)"

definition InitializeClient ::
    "('k, 'p) tls_env \<Rightarrow> string \<Rightarrow> ConnectionPoolConfig \<Rightarrow> HystrixResiliencyConfig \<Rightarrow> retrier option \<Rightarrow> 64 word \<Rightarrow> bool \<Rightarrow>
     ('k, 'p) hystrix_options result" where
  "InitializeClient T hystrixCommand pool hystrixConfig retriable retryCount fallback =
     (case tls_config T pool of
        Inl err \<Rightarrow> Inl err
      | Inr tls \<Rightarrow> Inr
          \<lparr>o_transport =
             \<lparr>DialKeepAlive = milliseconds (KeepAliveTimeout pool), MaxIdleConnsPerHost = MaxIdleConnections pool,
              MaxIdleConns = MaxIdleConnections pool, IdleConnTimeout = milliseconds (KeepAliveTimeout pool),
              TLSHandshakeTimeout = milliseconds (Timeout pool), ExpectContinueTimeout = milliseconds (Timeout pool),
              TLSClientConfig = tls\<rparr>,
           o_HTTPTimeout = milliseconds (Timeout pool), o_CommandName = hystrixCommand,
           o_HystrixTimeout = milliseconds (CircuitBreakerTimeout hystrixConfig),
           o_MaxConcurrentRequests = MaxConcurrentRequests hystrixConfig,
           o_RequestVolumeThreshold = RequestVolumeThreshold hystrixConfig,
           o_SleepWindow = CircuitBreakerSleepWindow hystrixConfig,
           o_ErrorPercentThreshold = ErrorPercentThreshold hystrixConfig,
           o_Retrier = (case retriable of None \<Rightarrow> NoRetrier | Some r \<Rightarrow> r), o_RetryCount = retryCount, o_fallback = fallback\<rparr>)"

section \<open>Facts\<close>

lemma header_Get_Add_same: "CanonicalHeaderKey k = CanonicalHeaderKey k' \<Longrightarrow> map_of h (CanonicalHeaderKey k) = None \<Longrightarrow>
    header_Get (header_Add k v h) k' = v"
  by (simp add: header_Get_def header_Add_def gomap_simps)

lemma header_Get_Add_other: "CanonicalHeaderKey k \<noteq> CanonicalHeaderKey k' \<Longrightarrow> header_Get (header_Add k v h) k' = header_Get h k'"
  by (simp add: header_Get_def header_Add_def Let_def gomap_simps)

lemma MakeRequest_status:
  assumes "MakeRequest h r b = ((body, status, err), b')"
  shows "err \<noteq> None \<longleftrightarrow> \<not> is_ok (fst (request_send h r b))" and "err \<noteq> None \<Longrightarrow> status = StatusBadGateway \<and> body = []"
  using assms by (auto simp: MakeRequest_def split: prod.splits sum.splits)

text \<open>Setting headers with different canonical names: every one of them can be read back, in whatever order they are visited.\<close>

lemma fold_header_Add:
  "distinct (map CanonicalHeaderKey ks) \<Longrightarrow> \<forall>k \<in> set ks. map_of h (CanonicalHeaderKey k) = None \<Longrightarrow>
   (\<forall>k \<in> set ks. header_Get (fold (\<lambda>key. header_Add key (v key)) ks h) k = v k) \<and>
   (\<forall>k. CanonicalHeaderKey k \<notin> CanonicalHeaderKey ` set ks \<longrightarrow> header_Get (fold (\<lambda>key. header_Add key (v key)) ks h) k = header_Get h k)"
proof (induction ks arbitrary: h)
  case (Cons x ks)
  have "\<forall>k \<in> set ks. map_of (header_Add x (v x) h) (CanonicalHeaderKey k) = None"
    using Cons.prems by (auto simp: header_Add_def Let_def gomap_simps image_iff)
  with Cons.IH [of "header_Add x (v x) h"] Cons.prems show ?case
    by (auto simp: header_Get_Add_same header_Get_Add_other)
qed simp

lemma SetHeaders_Get:
  assumes "go_range it" and "distinct (map (CanonicalHeaderKey \<circ> fst) headers)" and "k \<in> fst ` set headers" and "rq_header r = []"
  shows "header_Get (rq_header (SetHeaders it headers r)) k = gget headers k"
proof -
  have "distinct (map fst headers)" using assms(2) by (metis distinct_map map_map)
  with assms(1) have it: "distinct (it (map fst headers))" "set (it (map fst headers)) = fst ` set headers"
    by (simp_all add: go_range_def)
  have "inj_on CanonicalHeaderKey (fst ` set headers)" using assms(2) by (metis distinct_map list.set_map map_map)
  with it have "distinct (map CanonicalHeaderKey (it (map fst headers)))" by (simp add: distinct_map)
  from fold_header_Add [OF this, of "[]" "gget headers"] it(2) assms(3,4) show ?thesis by (auto simp: SetHeaders_def)
qed

end
