(* ===== verification/JsonStructs.thy ===== *)
theory JsonStructs
  imports Requests
begin

text \<open>
  \<^verbatim>\<open>json.Unmarshal\<close> into structs.  A decoder takes a JSON value and the value the target had before; \<open>None\<close> is
  a type error, after which every caller of the program drops the target.  The key of an object
  selects a field by equality up to case folding, unknown keys are skipped, a later occurrence of a
  key decodes into the same field again, and \<open>null\<close> leaves strings and structs as they were.  A
  slice keeps the elements beyond its length in its backing array, and decoding writes into them.
\<close>

type_synonym 'a decoder = "json \<Rightarrow> 'a \<Rightarrow> 'a option"

section \<open>Case folding of keys\<close>

text \<open>
  The folding of \<^verbatim>\<open>encoding/json\<close> on keys compared with ASCII names: letters up to case, and the two other
  characters that fold to a letter, the long s (U+017F) and the Kelvin sign (U+212A).
\<close>

fun fold_name :: "string \<Rightarrow> string" where
  "fold_name [] = []"
| "fold_name (c # s) =
     (case s of
        d # t \<Rightarrow>
          if ord c = 197 \<and> ord d = 191 then CHR ''s'' # fold_name t
          else (case t of
             e # u \<Rightarrow> if ord c = 226 \<and> ord d = 132 \<and> ord e = 170 then CHR ''k'' # fold_name u else lower_char c # fold_name s
           | [] \<Rightarrow> lower_char c # fold_name s)
      | [] \<Rightarrow> [lower_char c])"

text \<open>The field a key selects: an exact match first, then the first match up to folding.\<close>

definition select_field :: "(string \<times> 'd) list \<Rightarrow> string \<Rightarrow> 'd option" where
  "select_field fs key =
     (case map_of fs key of
        Some d \<Rightarrow> Some d
      | None \<Rightarrow> map_option snd (find (\<lambda>(n, d). fold_name n = fold_name key) fs))"

section \<open>Decoders\<close>

fun dec_string :: "string decoder" where
  "dec_string (JStr s) old = Some s"
| "dec_string JNull old = Some old"
| "dec_string _ old = None"

text \<open>A pointer to a string.\<close>

fun dec_string_ptr :: "string option decoder" where
  "dec_string_ptr (JStr s) old = Some (Some s)"
| "dec_string_ptr JNull old = Some None"
| "dec_string_ptr _ old = None"

fun dec_fields :: "(string \<times> 'a decoder) list \<Rightarrow> (string \<times> json) list \<Rightarrow> 'a \<Rightarrow> 'a option" where
  "dec_fields fs [] old = Some old"
| "dec_fields fs ((key, j) # ms) old =
     (case select_field fs key of
        None \<Rightarrow> dec_fields fs ms old
      | Some d \<Rightarrow> (case d j old of None \<Rightarrow> None | Some v \<Rightarrow> dec_fields fs ms v))"

fun dec_struct :: "(string \<times> 'a decoder) list \<Rightarrow> 'a decoder" where
  "dec_struct fs (JObj ms) old = dec_fields fs ms old"
| "dec_struct fs JNull old = Some old"
| "dec_struct fs _ old = None"

text \<open>A slice: nil, or its elements and what is left in the backing array beyond them.\<close>

datatype 'a slice = NilSlice | Slice "'a list" "'a list"

fun elements :: "'a slice \<Rightarrow> 'a list" where
  "elements NilSlice = []"
| "elements (Slice xs beyond) = xs"

fun backing :: "'a slice \<Rightarrow> 'a list" where
  "backing NilSlice = []"
| "backing (Slice xs beyond) = xs @ beyond"

fun dec_elements :: "'a \<Rightarrow> 'a decoder \<Rightarrow> json list \<Rightarrow> 'a list \<Rightarrow> ('a list \<times> 'a list) option" where
  "dec_elements zero d [] olds = Some ([], olds)"
| "dec_elements zero d (j # js) olds =
     (case d j (if olds = [] then zero else hd olds) of
        None \<Rightarrow> None
      | Some v \<Rightarrow> map_option (\<lambda>(vs, beyond). (v # vs, beyond)) (dec_elements zero d js (tl olds)))"

fun dec_slice :: "'a \<Rightarrow> 'a decoder \<Rightarrow> 'a slice decoder" where
  "dec_slice zero d (JArr js) old =
     (if js = [] then Some (Slice [] [])
      else map_option (\<lambda>(vs, beyond). Slice vs beyond) (dec_elements zero d js (backing old)))"
| "dec_slice zero d JNull old = Some NilSlice"
| "dec_slice zero d _ old = None"

text \<open>\<^verbatim>\<open>json.Unmarshal(data, &v)\<close> for a target \<open>v\<close> with the value \<open>zero\<close>.\<close>

definition Unmarshal :: "'a decoder \<Rightarrow> string \<Rightarrow> 'a \<Rightarrow> 'a result" where
  "Unmarshal d data zero =
     (case json_parse data of
        None \<Rightarrow> Inl json_error
      | Some j \<Rightarrow> (case d j zero of None \<Rightarrow> Inl json_error | Some v \<Rightarrow> Inr v))"

text \<open>\<^verbatim>\<open>json.Marshal\<close> of a map: the keys are sorted.  Of a slice: nil is \<open>null\<close>.\<close>

definition json_map :: "json gomap \<Rightarrow> json" where
  "json_map m = JObj (sort_key fst m)"

fun json_slice :: "('a \<Rightarrow> json) \<Rightarrow> 'a slice \<Rightarrow> json" where
  "json_slice f NilSlice = JNull"
| "json_slice f (Slice xs beyond) = JArr (map f xs)"

section \<open>Decoding what was encoded\<close>

lemma Unmarshal_print:
  "no_num j \<Longrightarrow> Unmarshal d (print_json j) zero = (case d (coerce_json j) zero of None \<Rightarrow> Inl json_error | Some v \<Rightarrow> Inr v)"
  by (simp add: Unmarshal_def json_parse_print)

lemma dec_elements_fresh:
  "dec_elements zero d js [] = map_option (\<lambda>vs. (vs, [])) (those (map (\<lambda>j. d j zero) js))"
  by (induction js) (auto simp: option.map_comp comp_def split: option.splits)

text \<open>Decoding an array into an empty slice decodes the elements one by one into zero values.\<close>

lemma dec_slice_fresh:
  "map_option elements (dec_slice zero d (JArr js) NilSlice) = those (map (\<lambda>j. d j zero) js)"
  by (cases "js = []") (simp_all add: dec_elements_fresh option.map_comp comp_def option.map_ident)

lemma those_map_Some: "(\<And>x. x \<in> set xs \<Longrightarrow> f x = Some (g x)) \<Longrightarrow> those (map f xs) = Some (map g xs)"
  by (induction xs) auto

section \<open>Values without invalid bytes\<close>

fun valid_json :: "json \<Rightarrow> bool" where
  "valid_json (JStr s) = valid_utf8 s"
| "valid_json (JArr js) = list_all valid_json js"
| "valid_json (JObj ms) = list_all (\<lambda>(k, v). valid_utf8 k \<and> valid_json v) ms"
| "valid_json (JNum s) = False"
| "valid_json _ = True"

lemma coerce_valid_json: "valid_json j \<Longrightarrow> coerce_json j = j"
  by (induction j rule: coerce_json.induct) (auto simp: coerce_valid list_all_iff intro!: map_idI)

lemma valid_no_num: "valid_json j \<Longrightarrow> no_num j"
  by (induction j rule: valid_json.induct) (auto simp: list_all_iff)

lemma Unmarshal_valid:
  "valid_json j \<Longrightarrow> Unmarshal d (print_json j) zero = (case d j zero of None \<Rightarrow> Inl json_error | Some v \<Rightarrow> Inr v)"
  by (simp add: Unmarshal_print valid_no_num coerce_valid_json)

text \<open>A string of ASCII characters is valid, by evaluation.\<close>

lemma valid_ascii_list: "list_all (\<lambda>c. ord c < 128) s \<Longrightarrow> valid_utf8 s"
  by (rule valid_ascii) (simp add: list_all_iff)

end
