(* ===== verification/MapToStruct.thy ===== *)
theory MapToStruct
  imports GoStrings Prelude
begin

text \<open>
  Filling a struct from a map of dynamic values by its json tags (\<^verbatim>\<open>MapToStruct\<close> and the setters
  of \<^verbatim>\<open>pkg/utils/utils.go\<close>).  \<open>goval\<close> is a value of type \<^verbatim>\<open>interface{}\<close>, \<open>gotype\<close> the reflected
  type of a target, \<open>tval\<close> the value a settable target holds.  Integers of a target are kept within
  the width of their type, as \<^verbatim>\<open>reflect.Value.SetInt\<close> and \<^verbatim>\<open>SetUint\<close> do.  Floating-point
  numbers are bit patterns whose conversions, and the quoting of \<^verbatim>\<open>strconv\<close>'s error texts, are the
  fields of the parameter \<open>env\<close>.
\<close>

section \<open>Values and types\<close>

text \<open>The width of a Go integer type; \<open>WordSize\<close> is \<^verbatim>\<open>int\<close> or \<^verbatim>\<open>uint\<close>.\<close>

datatype width = WordSize | W8 | W16 | W32 | W64

fun bits :: "width \<Rightarrow> nat" where
  "bits W8 = 8" | "bits W16 = 16" | "bits W32 = 32" | "bits W64 = 64" | "bits WordSize = 64"

datatype goval =
    VNil
  | VString string
  | VBool bool
  | VInt width int
  | VUint width int
  | VFloat width "64 word"
  | VSlice "goval list"
  | VMap "(string \<times> goval) list"
  | VOther string string

text \<open>\<open>VOther\<close> is a value of any other type: its type name and its default format.\<close>

datatype gotype =
    TString
  | TBool
  | TInt width
  | TUint width
  | TFloat width
  | TStruct "field list"
  | TSlice gotype
  | TMap bool gotype
  | TUnsupported string
and field = Field string bool string gotype

text \<open>
  \<open>Field name settable tag type\<close>; \<open>TMap b t\<close> is a map with elements of type \<open>t\<close> whose keys are
  strings when \<open>b\<close>.
\<close>

datatype tval =
    SString string
  | SBool bool
  | SInt int
  | SUint int
  | SFloat "64 word"
  | SStruct "tval list"
  | SSlice "tval list"
  | SMap "(string \<times> tval) list"
  | SNil

fun zero_val :: "gotype \<Rightarrow> tval" and zero_field :: "field \<Rightarrow> tval" where
  "zero_val TString = SString []"
| "zero_val TBool = SBool False"
| "zero_val (TInt w) = SInt 0"
| "zero_val (TUint w) = SUint 0"
| "zero_val (TFloat w) = SFloat 0"
| "zero_val (TStruct fs) = SStruct (map zero_field fs)"
| "zero_val (TSlice t) = SNil"
| "zero_val (TMap b t) = SNil"
| "zero_val (TUnsupported k) = SNil"
| "zero_field (Field n s tag t) = zero_val t"

record env =
  f_to_int :: "width \<Rightarrow> 64 word \<Rightarrow> int"
  f_of_int :: "int \<Rightarrow> 64 word"
  f_widen :: "64 word \<Rightarrow> 64 word"
  f_store :: "width \<Rightarrow> 64 word \<Rightarrow> 64 word"
  f_parse :: "string \<Rightarrow> 64 word result"
  f_show :: "width \<Rightarrow> 64 word \<Rightarrow> string"
  str_quote :: "string \<Rightarrow> string"

section \<open>Formatting and parsing\<close>

fun width_suffix :: "width \<Rightarrow> string" where
  "width_suffix W8 = ''8''" | "width_suffix W16 = ''16''" | "width_suffix W32 = ''32''"
| "width_suffix W64 = ''64''" | "width_suffix WordSize = ''''"

fun type_name :: "goval \<Rightarrow> string" where
  "type_name VNil = ''<nil>''"
| "type_name (VString s) = ''string''"
| "type_name (VBool b) = ''bool''"
| "type_name (VInt w n) = ''int'' @ width_suffix w"
| "type_name (VUint w n) = ''uint'' @ width_suffix w"
| "type_name (VFloat w x) = ''float'' @ width_suffix w"
| "type_name (VSlice xs) = ''[]interface {}''"
| "type_name (VMap m) = ''map[string]interface {}''"
| "type_name (VOther ty s) = ty"

definition show_int :: "int \<Rightarrow> string" where
  "show_int i = (if i < 0 then CHR ''-'' # show_nat (nat (- i)) else show_nat (nat i))"

fun intercalate :: "string \<Rightarrow> string list \<Rightarrow> string" where
  "intercalate sep [] = []"
| "intercalate sep [x] = x"
| "intercalate sep (x # y # xs) = x @ sep @ intercalate sep (y # xs)"

text \<open>\<^verbatim>\<open>fmt.Sprintf("%v", value)\<close>: a map is printed in the order of its keys.\<close>

fun sprintf_v :: "env \<Rightarrow> goval \<Rightarrow> string" where
  "sprintf_v E VNil = ''<nil>''"
| "sprintf_v E (VString s) = s"
| "sprintf_v E (VBool b) = (if b then ''true'' else ''false'')"
| "sprintf_v E (VInt w n) = show_int n"
| "sprintf_v E (VUint w n) = show_int n"
| "sprintf_v E (VFloat w x) = f_show E w x"
| "sprintf_v E (VSlice xs) = ''['' @ intercalate '' '' (map (sprintf_v E) xs) @ '']''"
| "sprintf_v E (VMap m) =
     ''map['' @ intercalate '' '' (map (\<lambda>(k, s). k @ '':'' @ s)
        (sort_key (\<lambda>(k, s). map (of_char :: char \<Rightarrow> nat) k) (map (\<lambda>(k, v). (k, sprintf_v E v)) m))) @ '']''"
| "sprintf_v E (VOther ty s) = s"

definition ParseBool :: "env \<Rightarrow> string \<Rightarrow> bool result" where
  "ParseBool E s =
     (if s \<in> {''1'', ''t'', ''T'', ''TRUE'', ''true'', ''True''} then Inr True
      else if s \<in> {''0'', ''f'', ''F'', ''FALSE'', ''false'', ''False''} then Inr False
      else Inl (GoErr (''strconv.ParseBool: parsing '' @ str_quote E s @ '': invalid syntax'')))"

fun read_digits :: "nat \<Rightarrow> string \<Rightarrow> nat option" where
  "read_digits acc [] = Some acc"
| "read_digits acc (c # cs) =
     (if 48 \<le> (of_char c :: nat) \<and> (of_char c :: nat) \<le> 57
      then read_digits (10 * acc + (of_char c - 48)) cs else None)"

definition num_error :: "env \<Rightarrow> string \<Rightarrow> string \<Rightarrow> string \<Rightarrow> gerror" where
  "num_error E fn s why = GoErr (''strconv.'' @ fn @ '': parsing '' @ str_quote E s @ '': '' @ why)"

text \<open>\<^verbatim>\<open>strconv.ParseInt(s, 10, 64)\<close> and \<^verbatim>\<open>strconv.ParseUint(s, 10, 64)\<close>.\<close>

definition ParseUint :: "env \<Rightarrow> string \<Rightarrow> int result" where
  "ParseUint E s =
     (case (if s = [] then None else read_digits 0 s) of
        None \<Rightarrow> Inl (num_error E ''ParseUint'' s ''invalid syntax'')
      | Some n \<Rightarrow> if int n < 2 ^ 64 then Inr (int n) else Inl (num_error E ''ParseUint'' s ''value out of range''))"

definition ParseInt :: "env \<Rightarrow> string \<Rightarrow> int result" where
  "ParseInt E s =
     (let neg = (s \<noteq> [] \<and> hd s = CHR ''-'');
          ds = (if s \<noteq> [] \<and> (hd s = CHR ''-'' \<or> hd s = CHR ''+'') then tl s else s)
      in case (if ds = [] then None else read_digits 0 ds) of
           None \<Rightarrow> Inl (num_error E ''ParseInt'' s ''invalid syntax'')
         | Some n \<Rightarrow>
             if neg then (if int n \<le> 2 ^ 63 then Inr (- int n) else Inl (num_error E ''ParseInt'' s ''value out of range''))
             else (if int n < 2 ^ 63 then Inr (int n) else Inl (num_error E ''ParseInt'' s ''value out of range'')))"

section \<open>The setters\<close>

definition setString :: "env \<Rightarrow> goval \<Rightarrow> tval result" where
  "setString E v = Inr (SString (case v of VString s \<Rightarrow> s | _ \<Rightarrow> sprintf_v E v))"

definition setBool :: "env \<Rightarrow> goval \<Rightarrow> tval result" where
  "setBool E v =
     (case v of
        VBool b \<Rightarrow> Inr (SBool b)
      | VString s \<Rightarrow> map_sum id SBool (ParseBool E s)
      | _ \<Rightarrow> Inl (GoErr (''cannot convert '' @ type_name v @ '' to bool'')))"

definition int_of_goval :: "env \<Rightarrow> goval \<Rightarrow> int result" where
  "int_of_goval E v =
     (case v of
        VInt w n \<Rightarrow> Inr n
      | VFloat w x \<Rightarrow> Inr (f_to_int E w x)
      | VString s \<Rightarrow> ParseInt E s
      | _ \<Rightarrow> Inl (GoErr (''cannot convert '' @ type_name v @ '' to int'')))"

definition setInt :: "env \<Rightarrow> width \<Rightarrow> goval \<Rightarrow> tval result" where
  "setInt E w v = map_sum id (\<lambda>n. SInt (signed_take_bit (bits w - 1) n)) (int_of_goval E v)"

definition uint_of_goval :: "env \<Rightarrow> goval \<Rightarrow> int result" where
  "uint_of_goval E v =
     (case v of
        VUint w n \<Rightarrow> Inr n
      | VInt WordSize n \<Rightarrow> Inr (take_bit 64 n)
      | VString s \<Rightarrow> ParseUint E s
      | _ \<Rightarrow> Inl (GoErr (''cannot convert '' @ type_name v @ '' to uint'')))"

definition setUint :: "env \<Rightarrow> width \<Rightarrow> goval \<Rightarrow> tval result" where
  "setUint E w v = map_sum id (\<lambda>n. SUint (take_bit (bits w) n)) (uint_of_goval E v)"

definition setFloat :: "env \<Rightarrow> width \<Rightarrow> goval \<Rightarrow> tval result" where
  "setFloat E w v =
     map_sum id (\<lambda>x. SFloat (f_store E w x))
       (case v of
          VFloat W32 x \<Rightarrow> Inr (f_widen E x)
        | VFloat _ x \<Rightarrow> Inr x
        | VInt WordSize n \<Rightarrow> Inr (f_of_int E n)
        | VString s \<Rightarrow> f_parse E s
        | _ \<Rightarrow> Inl (GoErr (''cannot convert '' @ type_name v @ '' to float'')))"

text \<open>The json name of a tag: what stands before the first comma.\<close>

definition json_name :: "string \<Rightarrow> string" where
  "json_name tag = takeWhile (\<lambda>c. c \<noteq> CHR '','') tag"

fun kind_name :: "gotype \<Rightarrow> string" where
  "kind_name (TUnsupported k) = k"
| "kind_name _ = ''''"

text \<open>
  The recursion over the target type.  \<open>setField E it t old v\<close> is the new value of a target of type \<open>t\<close>
  that held \<open>old\<close>; \<open>set_fields\<close> is the loop of \<^verbatim>\<open>MapToStruct\<close> over the fields, which leaves the
  fields before a failing one set; \<open>set_items\<close> and \<open>set_entries\<close> are the loops of \<^verbatim>\<open>setSlice\<close> and
  \<^verbatim>\<open>setMap\<close>.  \<open>it\<close> is the order in which a map is visited.
\<close>

function (sequential)
  setField :: "env \<Rightarrow> iter \<Rightarrow> gotype \<Rightarrow> tval \<Rightarrow> goval \<Rightarrow> tval result" and
  set_fields :: "env \<Rightarrow> iter \<Rightarrow> field list \<Rightarrow> tval list \<Rightarrow> goval gomap \<Rightarrow> tval list \<times> gerror option" and
  set_items :: "env \<Rightarrow> iter \<Rightarrow> gotype \<Rightarrow> goval list \<Rightarrow> tval list result" and
  set_entries :: "env \<Rightarrow> iter \<Rightarrow> gotype \<Rightarrow> string list \<Rightarrow> goval gomap \<Rightarrow> tval gomap \<Rightarrow> tval gomap result"
where
  "setField E it t old VNil = Inr old"
| "setField E it TString old v = setString E v"
| "setField E it TBool old v = setBool E v"
| "setField E it (TInt w) old v = setInt E w v"
| "setField E it (TUint w) old v = setUint E w v"
| "setField E it (TFloat w) old v = setFloat E w v"
| "setField E it (TStruct fs) old (VMap m) =
     (case set_fields E it fs (map zero_field fs) m of
        (vs, Some err) \<Rightarrow> Inl err
      | (vs, None) \<Rightarrow> Inr (SStruct vs))"
| "setField E it (TStruct fs) old v = Inl (GoErr (''cannot set struct field with '' @ type_name v))"
| "setField E it (TSlice t) old (VSlice xs) = map_sum id SSlice (set_items E it t xs)"
| "setField E it (TSlice t) old v = Inl (GoErr (''cannot set slice field with '' @ type_name v))"
| "setField E it (TMap string_keys t) old (VMap m) =
     (if \<not> string_keys then Inl (GoErr ''only string keys are supported for maps'')
      else map_sum id SMap (set_entries E it t (it (map fst m)) m []))"
| "setField E it (TMap string_keys t) old v = Inl (GoErr (''cannot set map field with '' @ type_name v))"
| "setField E it (TUnsupported kind) old v = Inl (GoErr (''unsupported type: '' @ kind))"
| "set_fields E it (Field name settable tag t # fs) (old # olds) data =
     (if \<not> settable \<or> tag = [] \<or> tag = ''-'' then apfst ((#) old) (set_fields E it fs olds data)
      else case map_of data (json_name tag) of
             None \<Rightarrow> apfst ((#) old) (set_fields E it fs olds data)
           | Some v \<Rightarrow>
               (case setField E it t old v of
                  Inl err \<Rightarrow> (old # olds, Some (GoErr (''error setting field '' @ name @ '': '' @ Error err)))
                | Inr new \<Rightarrow> apfst ((#) new) (set_fields E it fs olds data)))"
| "set_fields E it fs olds data = (olds, None)"
| "set_items E it t [] = Inr []"
| "set_items E it t (v # vs) =
     (case setField E it t (zero_val t) v of
        Inl err \<Rightarrow> Inl err
      | Inr x \<Rightarrow> map_sum id ((#) x) (set_items E it t vs))"
| "set_entries E it t [] m acc = Inr acc"
| "set_entries E it t (k # ks) m acc =
     (case map_of m k of
        None \<Rightarrow> set_entries E it t ks m acc
      | Some v \<Rightarrow>
          (case setField E it t (zero_val t) v of
             Inl err \<Rightarrow> Inl err
           | Inr x \<Rightarrow> set_entries E it t ks m (AList.update k x acc)))"
  by pat_completeness auto
termination
  by (relation "measures
      [case_sum (case_sum (\<lambda>(E, it, t, old, v). size t) (\<lambda>(E, it, fs, olds, data). size_list size fs))
                (case_sum (\<lambda>(E, it, t, vs). size t) (\<lambda>(E, it, t, ks, m, acc). size t)),
       case_sum (case_sum (\<lambda>_. 0) (\<lambda>_. 0))
                (case_sum (\<lambda>(E, it, t, vs). Suc (length vs)) (\<lambda>(E, it, t, ks, m, acc). Suc (length ks)))]") auto

text \<open>The target of \<^verbatim>\<open>MapToStruct\<close> as reflection sees it.\<close>

datatype target = NotPointer | Pointer gotype tval

fun MapToStruct :: "env \<Rightarrow> iter \<Rightarrow> goval gomap \<Rightarrow> target \<Rightarrow> target \<times> gerror option" where
  "MapToStruct E it data NotPointer = (NotPointer, Some (GoErr ''target must be a pointer to a struct''))"
| "MapToStruct E it data (Pointer (TStruct fs) (SStruct vs)) =
     (let (vs', err) = set_fields E it fs vs data in (Pointer (TStruct fs) (SStruct vs'), err))"
| "MapToStruct E it data (Pointer t v) = (Pointer t v, Some (GoErr ''target must point to a struct''))"

section \<open>Well-typed targets\<close>

function fits :: "gotype \<Rightarrow> tval \<Rightarrow> bool" and fits_field :: "field \<Rightarrow> tval \<Rightarrow> bool" where
  "fits TString v = (\<exists>s. v = SString s)"
| "fits TBool v = (\<exists>b. v = SBool b)"
| "fits (TInt w) v = (\<exists>n. v = SInt n \<and> - (2 ^ (bits w - 1)) \<le> n \<and> n < 2 ^ (bits w - 1))"
| "fits (TUint w) v = (\<exists>n. v = SUint n \<and> 0 \<le> n \<and> n < 2 ^ bits w)"
| "fits (TFloat w) v = (\<exists>x. v = SFloat x)"
| "fits (TStruct fs) v = (\<exists>vs. v = SStruct vs \<and> list_all2 fits_field fs vs)"
| "fits (TSlice t) v = (v = SNil \<or> (\<exists>vs. v = SSlice vs \<and> list_all (fits t) vs))"
| "fits (TMap b t) v = (v = SNil \<or> (\<exists>m. v = SMap m \<and> wf_gomap m \<and> list_all (\<lambda>(k, x). fits t x) m))"
| "fits (TUnsupported k) v = True"
| "fits_field (Field n s tag t) v = fits t v"
  by pat_completeness auto
termination
  by (relation "measure (case_sum (\<lambda>(t, v). size t) (\<lambda>(f, v). size f))") (auto simp: less_Suc_eq_le intro: size_list_estimation')

declare fits.simps(6) [simp del]

lemma fits_struct [simp]: "fits (TStruct fs) (SStruct vs) \<longleftrightarrow> list_all2 fits_field fs vs"
  by (simp add: fits.simps(6))

lemma fits_zero: "fits t (zero_val t)" and fits_zero_field: "fits_field f (zero_field f)"
  by (induction t and f rule: zero_val_zero_field.induct) (auto simp: list_all2_conv_all_nth)

lemma fits_int: "fits (TInt w) (SInt (signed_take_bit (bits w - Suc 0) n))"
  by (simp add: signed_take_bit_int_greater_eq_minus_exp signed_take_bit_int_less_exp)

lemma fits_uint: "fits (TUint w) (SUint (take_bit (bits w) n))"
  by (simp add: take_bit_int_less_exp)

lemma fits_scalar:
  "setString E v = Inr x \<Longrightarrow> fits TString x" "setBool E v = Inr x \<Longrightarrow> fits TBool x"
  "setInt E w v = Inr x \<Longrightarrow> fits (TInt w) x" "setUint E w v = Inr x \<Longrightarrow> fits (TUint w) x"
  "setFloat E w v = Inr x \<Longrightarrow> fits (TFloat w) x"
  by (auto simp: setString_def setBool_def setInt_def setUint_def setFloat_def result_iff
      simp del: fits.simps(3,4) intro: fits_int fits_uint split: goval.splits)

lemma fits_zero_fields: "list_all2 fits_field fs (map zero_field fs)"
  by (simp add: list_all2_conv_all_nth fits_zero_field)

lemma list_all_update: "list_all P m \<Longrightarrow> P (k, v) \<Longrightarrow> list_all P (AList.update k v m)"
  by (induction m) auto

lemma apfst_eq_iff: "apfst f p = (a, b) \<longleftrightarrow> (\<exists>a'. p = (a', b) \<and> a = f a')"
  by (cases p) auto

lemma setters_fit:
  "fits t old \<Longrightarrow> setField E it t old v = Inr x \<Longrightarrow> fits t x"
  "list_all2 fits_field fs olds \<Longrightarrow> set_fields E it fs olds data = (news, err) \<Longrightarrow> list_all2 fits_field fs news"
  "set_items E it t vs = Inr xs \<Longrightarrow> list_all (fits t) xs"
  "wf_gomap acc \<Longrightarrow> list_all (\<lambda>(k, x). fits t x) acc \<Longrightarrow> set_entries E it t ks m acc = Inr res \<Longrightarrow>
     wf_gomap res \<and> list_all (\<lambda>(k, x). fits t x) res"
  by (induction E it t old v and E it fs olds data and E it t vs and E it t ks m acc
      arbitrary: x and news err and xs and res
      rule: setField_set_fields_set_items_set_entries.induct)
    (auto simp: fits_scalar result_iff fits_zero fits_zero_fields list_all_update apfst_eq_iff
      simp del: fits.simps(1-5) split: if_splits option.splits sum.splits prod.splits)


section \<open>Field by field\<close>

text \<open>What the loop does with one field, independently of the others.\<close>

fun field_result :: "env \<Rightarrow> iter \<Rightarrow> goval gomap \<Rightarrow> field \<Rightarrow> tval \<Rightarrow> tval result" where
  "field_result E it data (Field name settable tag t) old =
     (if \<not> settable \<or> tag = [] \<or> tag = ''-'' then Inr old
      else case map_of data (json_name tag) of None \<Rightarrow> Inr old | Some v \<Rightarrow> setField E it t old v)"

lemma set_fields_step:
  "set_fields E it (f # fs) (old # olds) data =
     (case field_result E it data f old of
        Inl err \<Rightarrow> (old # olds, Some (GoErr (''error setting field '' @ (case f of Field name _ _ _ \<Rightarrow> name) @ '': '' @ Error err)))
      | Inr new \<Rightarrow> apfst ((#) new) (set_fields E it fs olds data))"
  by (cases f) (auto split: option.splits sum.splits)

lemma set_fields_spec:
  "length olds = length fs \<Longrightarrow> set_fields E it fs olds data = (news, err) \<Longrightarrow>
     \<exists>n \<le> length fs.
       (\<forall>i < n. field_result E it data (fs ! i) (olds ! i) = Inr (news ! i)) \<and>
       drop n news = drop n olds \<and> length news = length olds \<and>
       (case err of None \<Rightarrow> n = length fs | Some _ \<Rightarrow> n < length fs \<and> \<not> is_ok (field_result E it data (fs ! n) (olds ! n)))"
proof (induction fs arbitrary: olds news)
  case Nil
  then show ?case by auto
next
  case (Cons f fs)
  then obtain old olds' where olds: "olds = old # olds'" "length olds' = length fs" by (cases olds) auto
  show ?case
  proof (cases "field_result E it data f old")
    case (Inl e)
    with Cons.prems olds show ?thesis by (intro exI [of _ 0]) (auto simp: set_fields_step)
  next
    case (Inr new)
    with Cons.prems olds obtain news' where news: "news = new # news'" "set_fields E it fs olds' data = (news', err)"
      by (auto simp: set_fields_step apfst_eq_iff)
    from Cons.IH [OF olds(2) news(2)] obtain n where
      "n \<le> length fs" "\<forall>i < n. field_result E it data (fs ! i) (olds' ! i) = Inr (news' ! i)"
      "drop n news' = drop n olds'" "length news' = length olds'"
      "case err of None \<Rightarrow> n = length fs | Some _ \<Rightarrow> n < length fs \<and> \<not> is_ok (field_result E it data (fs ! n) (olds' ! n))"
      by blast
    with Inr olds news show ?thesis
      by (intro exI [of _ "Suc n"]) (auto simp: less_Suc_eq_0_disj split: option.splits)
  qed
qed

section \<open>Main results\<close>


definition plain_env :: env where
  "plain_env = \<lparr>f_to_int = \<lambda>_ x. sint x, f_of_int = word_of_int, f_widen = \<lambda>x. x, f_store = \<lambda>_ x. x,
     f_parse = \<lambda>s. Inl (GoErr s), f_show = \<lambda>_ _. [], str_quote = \<lambda>s. s\<rparr>"


text \<open>
  The fields are set one by one in declaration order: each field before the first failing one holds the
  converted value of the entry its json tag names, or its old value when it has no tag, is not
  settable or the data has no such entry; the failing field and those after it are unchanged; and
  there is an error exactly when some field fails.
\<close>

theorem map_to_struct_fields:
  assumes "length vs = length fs"
  shows "\<exists>n news. fst (MapToStruct E it data (Pointer (TStruct fs) (SStruct vs))) = Pointer (TStruct fs) (SStruct news) \<and>
           n \<le> length fs \<and> length news = length vs \<and>
           (\<forall>i < n. field_result E it data (fs ! i) (vs ! i) = Inr (news ! i)) \<and> drop n news = drop n vs \<and>
           (if snd (MapToStruct E it data (Pointer (TStruct fs) (SStruct vs))) = None then n = length fs
            else n < length fs \<and> \<not> is_ok (field_result E it data (fs ! n) (vs ! n)))"
proof -
  obtain news err where r: "set_fields E it fs vs data = (news, err)" by (rule prod.exhaust)
  from set_fields_spec [OF assms r] obtain n where n: "n \<le> length fs"
    "\<forall>i < n. field_result E it data (fs ! i) (vs ! i) = Inr (news ! i)" "drop n news = drop n vs" "length news = length vs"
    "case err of None \<Rightarrow> n = length fs | Some _ \<Rightarrow> n < length fs \<and> \<not> is_ok (field_result E it data (fs ! n) (vs ! n))"
    by blast
  with r show ?thesis by (intro exI [of _ n] exI [of _ news]) (simp split: option.splits)
qed

theorem map_to_struct_fields_witness:
  "\<exists>n news. fst (MapToStruct plain_env rev [(''b'', VString ''x'')] (Pointer (TStruct [Field ''A'' True ''a'' TString, Field ''B'' True ''b'' TBool]) (SStruct [SString [], SBool True]))) =
        Pointer (TStruct [Field ''A'' True ''a'' TString, Field ''B'' True ''b'' TBool]) (SStruct news) \<and> n = 1 \<and> news = [SString [], SBool True]"
  using map_to_struct_fields [of "[SString [], SBool True]" "[Field ''A'' True ''a'' TString, Field ''B'' True ''b'' TBool]" plain_env rev "[(''b'', VString ''x'')]"]
  by (simp add: json_name_def setBool_def ParseBool_def)

end
