(* ===== verification/Ldap.thy ===== *)
theory Ldap
  imports MapToStruct Structs
begin

text \<open>
  The LDAP client (\<^verbatim>\<open>pkg/clients/ldap\<close>).  The connection library is the parameter \<open>ldap_api\<close>:
  dialling a server, asking a connection whether it is closing, searching.  \<open>'h\<close> is a connection
  handle and \<open>'l\<close> the state of the directory and the network.
\<close>

record LDAP =
  Server :: string
  BaseDN :: string
  UserDN :: string
  UserSearchFilter :: string
  Attributes :: "string list"

record SearchRequest =
  sr_BaseDN :: string
  sr_Scope :: nat
  sr_DerefAliases :: nat
  sr_SizeLimit :: nat
  sr_TimeLimit :: nat
  sr_TypesOnly :: bool
  sr_Filter :: string
  sr_Attributes :: "string list"

type_synonym entry = "(string \<times> string list) list"

record ('h, 'l) ldap_api =
  DialURL :: "string \<Rightarrow> 'l \<Rightarrow> 'h result \<times> 'l"
  IsClosing :: "'h \<Rightarrow> 'l \<Rightarrow> bool \<times> 'l"
  Search :: "'h \<Rightarrow> SearchRequest \<Rightarrow> 'l \<Rightarrow> entry list result \<times> 'l"

record 'h LDAPConn =
  lc_conn :: "'h option"
  lc_userDN :: string
  lc_baseDN :: string
  lc_server :: string
  lc_userSearchFilter :: string
  lc_attributes :: "string list"

section \<open>The library functions that are used\<close>

definition mustEscape :: "char \<Rightarrow> bool" where
  "mustEscape c \<longleftrightarrow> 127 < (of_char c :: nat) \<or> c \<in> {CHR ''('', CHR '')'', CHR 0x5C, CHR ''*'', CHR 0x00}"

definition hexValues :: string where
  "hexValues = ''0123456789abcdef''"

definition escape_char :: "char \<Rightarrow> string" where
  "escape_char c =
     (if mustEscape c then [CHR 0x5C, hexValues ! (of_char c div 16), hexValues ! (of_char c mod 16)] else [c])"

definition EscapeFilter :: "string \<Rightarrow> string" where
  "EscapeFilter s = concat (map escape_char s)"

definition GetAttributeValues :: "entry \<Rightarrow> string \<Rightarrow> string list" where
  "GetAttributeValues e attr = (case map_of e attr of None \<Rightarrow> [] | Some vs \<Rightarrow> vs)"

definition GetAttributeValue :: "entry \<Rightarrow> string \<Rightarrow> string" where
  "GetAttributeValue e attr = (case GetAttributeValues e attr of [] \<Rightarrow> [] | v # _ \<Rightarrow> v)"

text \<open>
  \<^verbatim>\<open>fmt.Sprintf(format, s)\<close> for one string argument and verbs without flags; \<open>arg\<close> is \<open>None\<close> once the
  argument is used up.
\<close>

fun sprintf_loop :: "string \<Rightarrow> string \<Rightarrow> bool \<Rightarrow> string" where
  "sprintf_loop s [] used = (if used then [] else ''%!(EXTRA string='' @ s @ '')'')"
| "sprintf_loop s [c] used =
     (if c = CHR ''%'' then ''%!(NOVERB)'' else [c]) @ sprintf_loop s [] used"
| "sprintf_loop s (c # d # cs) used =
     (if c \<noteq> CHR ''%'' then c # sprintf_loop s (d # cs) used
      else if d = CHR ''%'' then CHR ''%'' # sprintf_loop s cs used
      else if used then ''%!'' @ d # ''(MISSING)'' @ sprintf_loop s cs True
      else if d = CHR ''s'' \<or> d = CHR ''v'' then s @ sprintf_loop s cs True
      else ''%!'' @ d # ''(string='' @ s @ '')'' @ sprintf_loop s cs True)"

definition Sprintf1 :: "string \<Rightarrow> string \<Rightarrow> string" where
  "Sprintf1 format s = sprintf_loop s format False"

section \<open>The client\<close>

definition InitLdap :: "('h, 'l) ldap_api \<Rightarrow> LDAP \<Rightarrow> 'l \<Rightarrow> 'h LDAPConn result \<times> 'l" where
  "InitLdap api cfg l =
     (case DialURL api (Server cfg) l of
        (Inl err, l') \<Rightarrow> (Inl err, l')
      | (Inr conn, l') \<Rightarrow>
          (Inr \<lparr>lc_conn = Some conn, lc_userDN = UserDN cfg, lc_baseDN = BaseDN cfg, lc_server = Server cfg,
                lc_userSearchFilter = UserSearchFilter cfg, lc_attributes = Attributes cfg\<rparr>, l'))"

text \<open>A failed redial returns nil and keeps the closing connection in the struct.\<close>

definition getConn :: "('h, 'l) ldap_api \<Rightarrow> 'h LDAPConn \<times> 'l \<Rightarrow> 'h option \<times> 'h LDAPConn \<times> 'l" where
  "getConn api = (\<lambda>(lc, l).
     case lc_conn lc of
       None \<Rightarrow> (None, lc, l)
     | Some h \<Rightarrow>
         (case IsClosing api h l of
            (False, l1) \<Rightarrow> (Some h, lc, l1)
          | (True, l1) \<Rightarrow>
              (case DialURL api (lc_server lc) l1 of
                 (Inl err, l2) \<Rightarrow> (None, lc, l2)
               | (Inr h', l2) \<Rightarrow> (Some h', lc\<lparr>lc_conn := Some h'\<rparr>, l2))))"

definition user_search :: "'h LDAPConn \<Rightarrow> string \<Rightarrow> SearchRequest" where
  "user_search lc userID =
     \<lparr>sr_BaseDN = Sprintf1 (lc_userDN lc) (EscapeFilter userID), sr_Scope = 0, sr_DerefAliases = 0,
      sr_SizeLimit = 0, sr_TimeLimit = 0, sr_TypesOnly = False,
      sr_Filter = lc_userSearchFilter lc, sr_Attributes = lc_attributes lc\<rparr>"

fun user_data :: "entry \<Rightarrow> string list \<Rightarrow> goval gomap \<Rightarrow> goval gomap" where
  "user_data e [] acc = acc"
| "user_data e (attr # attrs) acc =
     (let v = (if GetAttributeValues e attr \<noteq> [] then GetAttributeValue e attr else [])
      in user_data e attrs (AList.update attr (VString v) acc))"

definition GetUserLDAPData ::
    "('h, 'l) ldap_api \<Rightarrow> string \<Rightarrow> 'h LDAPConn \<times> 'l \<Rightarrow> goval gomap result \<times> 'h LDAPConn \<times> 'l" where
  "GetUserLDAPData api userID = (\<lambda>(lc, l).
     let searchRequest = user_search lc userID
     in case getConn api (lc, l) of
          (None, lc1, l1) \<Rightarrow> (Inl (GoErr ''LDAP connection is nil''), lc1, l1)
        | (Some conn, lc1, l1) \<Rightarrow>
            (case Search api conn searchRequest l1 of
               (Inl err, l2) \<Rightarrow> (Inl err, lc1, l2)
             | (Inr [], l2) \<Rightarrow> (Inl (GoErr ''no LDAP entries found for user''), lc1, l2)
             | (Inr (e # _), l2) \<Rightarrow> (Inr (user_data e (lc_attributes lc1) []), lc1, l2)))"

section \<open>The LDAP record of a user\<close>

text \<open>The struct \<^verbatim>\<open>structs.LDAPUser\<close> as reflection sees it, and back.\<close>

definition ldap_user_fields :: "field list" where
  "ldap_user_fields =
     [Field ''CN'' True ''cn,omitempty'' TString,
      Field ''DisplayName'' True ''displayName,omitempty'' TString,
      Field ''Email'' True ''mail,omitempty'' TString,
      Field ''SN'' True ''sn,omitempty'' TString,
      Field ''UID'' True ''uid,omitempty'' TString]"

fun string_of_tval :: "tval \<Rightarrow> string" where
  "string_of_tval (SString s) = s"
| "string_of_tval _ = []"

fun ldap_user_of_target :: "target \<Rightarrow> LDAPUser" where
  "ldap_user_of_target (Pointer _ (SStruct [cn, dn, mail, sn, uid])) =
     \<lparr>CN = string_of_tval cn, DisplayName = string_of_tval dn, Email = string_of_tval mail,
      SN = string_of_tval sn, UID = string_of_tval uid\<rparr>"
| "ldap_user_of_target _ = \<lparr>CN = [], DisplayName = [], Email = [], SN = [], UID = []\<rparr>"

definition ldap_user_of :: "env \<Rightarrow> iter \<Rightarrow> goval gomap \<Rightarrow> LDAPUser result" where
  "ldap_user_of E it data =
     (case MapToStruct E it data (Pointer (TStruct ldap_user_fields) (zero_val (TStruct ldap_user_fields))) of
        (_, Some err) \<Rightarrow> Inl err
      | (target, None) \<Rightarrow> Inr (ldap_user_of_target target))"

definition get_string :: "goval gomap \<Rightarrow> string \<Rightarrow> string" where
  "get_string data k = (case map_of data k of Some (VString s) \<Rightarrow> s | _ \<Rightarrow> [])"

definition all_strings :: "goval gomap \<Rightarrow> bool" where
  "all_strings data \<longleftrightarrow> (\<forall>(k, v) \<in> set data. \<exists>s. v = VString s)"

lemma set_string_field:
  assumes "all_strings data" and "tag \<noteq> []" and "tag \<noteq> ''-''"
  shows "set_fields E it (Field name True tag TString # fs) (SString [] # olds) data =
           apfst ((#) (SString (get_string data (json_name tag)))) (set_fields E it fs olds data)"
proof (cases "map_of data (json_name tag)")
  case None
  with assms show ?thesis by (simp add: get_string_def)
next
  case (Some v)
  from map_of_SomeD [OF this] assms(1) obtain s where "v = VString s" by (auto simp: all_strings_def)
  with Some assms show ?thesis by (simp add: get_string_def setString_def)
qed

lemma ldap_user_of_strings:
  assumes "all_strings data"
  shows "ldap_user_of E it data =
           Inr \<lparr>CN = get_string data ''cn'', DisplayName = get_string data ''displayName'', Email = get_string data ''mail'',
                SN = get_string data ''sn'', UID = get_string data ''uid''\<rparr>"
  unfolding ldap_user_of_def ldap_user_fields_def
  by (simp add: set_string_field [OF assms] json_name_def del: set_fields.simps(1))

lemma user_data_strings: "all_strings acc \<Longrightarrow> all_strings (user_data e attrs acc)"
proof (induction attrs arbitrary: acc)
  case (Cons a attrs)
  have "all_strings (AList.update a (VString v) acc)" for v
    using Cons.prems by (induction acc) (auto simp: all_strings_def)
  with Cons.IH show ?case by (simp add: Let_def)
qed simp

lemma get_string_user_data:
  "get_string (user_data e attrs acc) a = (if a \<in> set attrs then GetAttributeValue e a else get_string acc a)"
  by (induction attrs arbitrary: acc)
    (auto simp: get_string_def Let_def gomap_simps GetAttributeValue_def)

lemma sprintf_plain: "CHR ''%'' \<notin> set cs \<Longrightarrow> sprintf_loop s (cs @ rest) used = cs @ sprintf_loop s rest used"
proof (induction cs)
  case (Cons c cs)
  then show ?case by (cases "cs @ rest") (auto split: if_splits)
qed simp

lemma sprintf_done: "CHR ''%'' \<notin> set cs \<Longrightarrow> sprintf_loop s cs True = cs"
  using sprintf_plain [of cs s "[]" True] by simp

lemma Sprintf1_hole:
  assumes "CHR ''%'' \<notin> set pre" and "CHR ''%'' \<notin> set post"
  shows "Sprintf1 (pre @ ''%s'' @ post) s = pre @ s @ post"
  using assms sprintf_plain [of pre s "''%s'' @ post" False] by (simp add: Sprintf1_def sprintf_done)

lemma EscapeFilter_plain: "(\<forall>c \<in> set s. \<not> mustEscape c) \<Longrightarrow> EscapeFilter s = s"
  by (induction s) (auto simp: EscapeFilter_def escape_char_def)

lemma hexValues_plain: "n < 16 \<Longrightarrow> \<not> mustEscape (hexValues ! n)"
proof -
  have "\<forall>n < 16. \<not> mustEscape (hexValues ! n)" by code_simp
  then show "n < 16 \<Longrightarrow> \<not> mustEscape (hexValues ! n)" by blast
qed

lemma byte_div_16: "(of_char c :: nat) div 16 < 16"
  using nat_of_char_less_256 [of c] by (simp add: div_less_iff_less_mult)

lemma EscapeFilter_safe: "c \<in> set (EscapeFilter s) \<Longrightarrow> c = CHR 0x5C \<or> \<not> mustEscape c"
  using hexValues_plain [OF byte_div_16] hexValues_plain [of "of_char _ mod 16"]
  by (auto simp: EscapeFilter_def escape_char_def split: if_splits)

section \<open>Main results\<close>

text \<open>
  C18: For a user whose directory entry is found, the record the reconciler works with has in each field the
  first value of the matching attribute of the entry, and the empty string when the entry has no
  such value or the attribute is not among the configured ones; the conversion never fails.
\<close>

theorem ldap_user_of_entry:
  assumes "getConn api w = (Some conn, lc1, l1)"
    and "Search api conn (user_search (fst w) user) l1 = (Inr (e # es), l2)"
  shows "\<exists>data. fst (GetUserLDAPData api user w) = Inr data \<and>
           ldap_user_of E it data =
             (let value = (\<lambda>a. if a \<in> set (lc_attributes lc1) then GetAttributeValue e a else [])
              in Inr \<lparr>CN = value ''cn'', DisplayName = value ''displayName'', Email = value ''mail'',
                      SN = value ''sn'', UID = value ''uid''\<rparr>)"
proof -
  have "all_strings (user_data e (lc_attributes lc1) [])"
    by (rule user_data_strings) (simp add: all_strings_def)
  moreover have "fst (GetUserLDAPData api user w) = Inr (user_data e (lc_attributes lc1) [])"
    using assms by (cases w) (simp add: GetUserLDAPData_def)
  ultimately show ?thesis
    by (simp add: ldap_user_of_strings get_string_user_data Let_def) (simp add: get_string_def)
qed

text \<open>A directory with one user.\<close>

definition sample_ldap :: "(nat, nat) ldap_api" where
  "sample_ldap =
     \<lparr>DialURL = \<lambda>url l. (Inr l, Suc l), IsClosing = \<lambda>h l. (h < l, l),
      Search = \<lambda>h req l. (if sr_BaseDN req = ''uid=bob,ou=users'' then Inr [[(''mail'', [''bob@x.org'', ''b@x.org'']), (''sn'', [])]]
                          else Inr [], l)\<rparr>"

definition sample_conn :: "nat LDAPConn" where
  "sample_conn = \<lparr>lc_conn = Some 0, lc_userDN = ''uid=%s,ou=users'', lc_baseDN = [], lc_server = [],
     lc_userSearchFilter = [], lc_attributes = [''mail'', ''uid'', ''cn'', ''sn'', ''displayName'']\<rparr>"

lemma sample_bob: "sr_BaseDN (user_search sample_conn ''bob'') = ''uid=bob,ou=users''"
  by code_simp

theorem ldap_user_of_entry_witness:
  "\<exists>data. fst (GetUserLDAPData sample_ldap ''bob'' (sample_conn, 0)) = Inr data \<and>
     ldap_user_of plain_env rev data =
       Inr \<lparr>CN = [], DisplayName = [], Email = ''bob@x.org'', SN = [], UID = []\<rparr>"
proof -
  have "getConn sample_ldap (sample_conn, 0) = (Some 0, sample_conn, 0)"
    by (simp add: getConn_def sample_ldap_def sample_conn_def)
  moreover have "Search sample_ldap 0 (user_search (fst (sample_conn, 0)) ''bob'') 0 =
      (Inr [[(''mail'', [''bob@x.org'', ''b@x.org'']), (''sn'', [])]], 0)"
    by (simp add: sample_ldap_def sample_bob)
  ultimately have "\<exists>data. fst (GetUserLDAPData sample_ldap ''bob'' (sample_conn, 0)) = Inr data \<and>
      ldap_user_of plain_env rev data =
        (let value = (\<lambda>a. if a \<in> set (lc_attributes sample_conn)
                         then GetAttributeValue [(''mail'', [''bob@x.org'', ''b@x.org'']), (''sn'', [])] a else [])
         in Inr \<lparr>CN = value ''cn'', DisplayName = value ''displayName'', Email = value ''mail'',
                 SN = value ''sn'', UID = value ''uid''\<rparr>)"
    by (rule ldap_user_of_entry)
  then show ?thesis
    by (simp add: sample_conn_def GetAttributeValue_def GetAttributeValues_def)
qed

text \<open>
  The directory is asked for exactly one entry, at the name obtained by putting the user name into the
  configured pattern: the characters special to search filters are escaped there, but a comma or an
  equals sign of a user name is not, so it changes the structure of the distinguished name.
\<close>

theorem user_search_base:
  assumes "lc_userDN lc = pre @ ''%s'' @ post" and "CHR ''%'' \<notin> set pre" and "CHR ''%'' \<notin> set post"
  shows "sr_BaseDN (user_search lc user) = pre @ EscapeFilter user @ post \<and>
         (\<forall>c \<in> set (EscapeFilter user). c = CHR 0x5C \<or> \<not> mustEscape c) \<and>
         EscapeFilter (uid @ '',ou='' @ unit) = EscapeFilter uid @ '',ou='' @ EscapeFilter unit"
proof (intro conjI ballI)
  show "sr_BaseDN (user_search lc user) = pre @ EscapeFilter user @ post"
    unfolding user_search_def assms(1) by (simp only: Sprintf1_hole [OF assms(2,3)] SearchRequest.simps)
  show "EscapeFilter (uid @ '',ou='' @ unit) = EscapeFilter uid @ '',ou='' @ EscapeFilter unit"
    by (simp add: EscapeFilter_def escape_char_def mustEscape_def)
qed (rule EscapeFilter_safe)

theorem user_search_base_witness:
  "sr_BaseDN (user_search sample_conn (''eve'' @ '',ou='' @ ''x'')) = ''uid=eve,ou=x,ou=users''"
  using user_search_base [of sample_conn "''uid=''" "'',ou=users''" "''eve'' @ '',ou='' @ ''x''" "''eve''" "''x''"]
    EscapeFilter_plain [of "''eve''"] EscapeFilter_plain [of "''x''"]
  by (simp add: sample_conn_def mustEscape_def)



end
