(* ===== verification/GoRegexp.thy ===== *)
theory GoRegexp
  imports GoStrings
begin

text \<open>
  Matching of regular expressions as \<^verbatim>\<open>regexp\<close> does it: leftmost, and among the matches at the
  leftmost position the one a backtracking search finds first.  The syntax tree is modelled and the
  matcher is executable; the parser of the concrete syntax (\<^verbatim>\<open>regexp.Compile\<close>) is a parameter
  of the definitions that compile a pattern read from the configuration.  Characters are bytes,
  which is exact for ASCII subjects.
\<close>

datatype regexp =
    Class bool "(char \<times> char) list"
  | Cat regexp regexp
  | Alt regexp regexp
  | Star regexp
  | Capture nat regexp
  | Empty
  | BeginText
  | EndText

text \<open>\<open>Class True\<close> is a negated class.\<close>

abbreviation Lit :: "char \<Rightarrow> regexp" where
  "Lit c \<equiv> Class False [(c, c)]"

abbreviation Plus :: "regexp \<Rightarrow> regexp" where
  "Plus r \<equiv> Cat r (Star r)"

fun in_class :: "bool \<Rightarrow> (char \<times> char) list \<Rightarrow> char \<Rightarrow> bool" where
  "in_class neg ranges c =
     (neg \<noteq> list_ex (\<lambda>(a, b). of_char a \<le> (of_char c :: nat) \<and> (of_char c :: nat) \<le> of_char b) ranges)"

declare in_class.simps [simp del]

type_synonym caps = "(nat \<times> nat \<times> nat) list"

text \<open>
  All ways to match from position \<open>i\<close>, best first, each with the end position and the captured
  spans (the latest first).  An iteration of a star must consume something.
\<close>

function re_match :: "string \<Rightarrow> regexp \<Rightarrow> nat \<Rightarrow> caps \<Rightarrow> (nat \<times> caps) list" where
  "re_match s (Class neg ranges) i c =
     (if i < length s \<and> in_class neg ranges (s ! i) then [(Suc i, c)] else [])"
| "re_match s (Cat r1 r2) i c = concat (map (\<lambda>(j, d). re_match s r2 j d) (re_match s r1 i c))"
| "re_match s (Alt r1 r2) i c = re_match s r1 i c @ re_match s r2 i c"
| "re_match s (Star r) i c =
     concat (map (\<lambda>(j, d). if i < j \<and> j \<le> length s then re_match s (Star r) j d else []) (re_match s r i c))
     @ [(i, c)]"
| "re_match s (Capture n r) i c = map (\<lambda>(j, d). (j, (n, i, j) # d)) (re_match s r i c)"
| "re_match s Empty i c = [(i, c)]"
| "re_match s BeginText i c = (if i = 0 then [(i, c)] else [])"
| "re_match s EndText i c = (if i = length s then [(i, c)] else [])"
  by pat_completeness auto
termination
  by (relation "measures [\<lambda>(s, r, i, c). size r, \<lambda>(s, r, i, c). length s - i]") auto

declare re_match.simps(4) [simp del]

lemmas re_star = re_match.simps(4)

fun groups :: "regexp \<Rightarrow> nat" where
  "groups (Cat r1 r2) = groups r1 + groups r2"
| "groups (Alt r1 r2) = groups r1 + groups r2"
| "groups (Star r) = groups r"
| "groups (Capture n r) = Suc (groups r)"
| "groups _ = 0"

text \<open>The leftmost match at or after a position.\<close>

fun first_match :: "string \<Rightarrow> regexp \<Rightarrow> nat list \<Rightarrow> (nat \<times> nat \<times> caps) option" where
  "first_match s r [] = None"
| "first_match s r (i # is) =
     (case re_match s r i [] of
        [] \<Rightarrow> first_match s r is
      | (j, c) # _ \<Rightarrow> Some (i, j, c))"

definition span :: "string \<Rightarrow> nat \<Rightarrow> nat \<Rightarrow> string" where
  "span s i j = take (j - i) (drop i s)"

definition submatches :: "string \<Rightarrow> regexp \<Rightarrow> nat \<Rightarrow> nat \<Rightarrow> caps \<Rightarrow> string list" where
  "submatches s r i j c =
     span s i j # map (\<lambda>n. case map_of c n of None \<Rightarrow> [] | Some (a, b) \<Rightarrow> span s a b) [1..<Suc (groups r)]"

text \<open>\<^verbatim>\<open>FindStringSubmatch\<close>: the whole match and the groups, or nil.\<close>

definition FindStringSubmatch :: "regexp \<Rightarrow> string \<Rightarrow> string list" where
  "FindStringSubmatch r s =
     (case first_match s r [0..<Suc (length s)] of
        None \<Rightarrow> []
      | Some (i, j, c) \<Rightarrow> submatches s r i j c)"

text \<open>\<^verbatim>\<open>FindAllStringSubmatch\<close> with no limit: successive matches that do not overlap; an empty match
  right after the previous one is dropped.\<close>

function find_all :: "regexp \<Rightarrow> string \<Rightarrow> nat \<Rightarrow> nat option \<Rightarrow> string list list" where
  "find_all r s pos prev =
     (if length s < pos then []
      else case first_match s r [pos..<Suc (length s)] of
             None \<Rightarrow> []
           | Some (i, j, c) \<Rightarrow>
               (if j \<le> pos
                then (if prev = Some i then [] else [submatches s r i j c]) @ find_all r s (Suc pos) (Some j)
                else submatches s r i j c # find_all r s j (Some j)))"
  by pat_completeness auto
termination
  by (relation "measure (\<lambda>(r, s, pos, prev). Suc (length s) - pos)") auto

declare find_all.simps [simp del]

definition FindAllStringSubmatch :: "regexp \<Rightarrow> string \<Rightarrow> string list list" where
  "FindAllStringSubmatch r s = find_all r s 0 None"

section \<open>Basic facts\<close>

lemma re_match_bounds:
  "(j, d) \<in> set (re_match s r i c) \<Longrightarrow> i \<le> length s \<Longrightarrow> i \<le> j \<and> j \<le> length s"
proof (induction s r i c arbitrary: j d rule: re_match.induct)
  case (2 s r1 r2 i c)
  from "2.prems"(1) obtain k e where k: "(k, e) \<in> set (re_match s r1 i c)"
    and j: "(j, d) \<in> set (re_match s r2 k e)" by auto
  from "2.IH"(1) [OF k "2.prems"(2)] "2.IH"(2) [OF k refl j] show ?case by simp
next
  case (4 s r i c)
  show ?case
  proof (cases "(j, d) = (i, c)")
    case True
    with "4.prems" show ?thesis by simp
  next
    case False
    with "4.prems" obtain k e where k: "(k, e) \<in> set (re_match s r i c)" "i < k \<and> k \<le> length s"
      and j: "(j, d) \<in> set (re_match s (Star r) k e)"
      by (auto simp: re_star [of s r i c] split: if_splits)
    from "4.IH"(2) [OF k(1) refl k(2) j] k show ?thesis by simp
  qed
qed (auto split: if_splits)

lemma first_match_bounds:
  "first_match s r is = Some (i, j, c) \<Longrightarrow> \<forall>k \<in> set is. k \<le> length s \<Longrightarrow>
     i \<in> set is \<and> i \<le> j \<and> j \<le> length s \<and> (j, c) \<in> set (re_match s r i [])"
proof (induction "is")
  case (Cons k "is")
  show ?case
  proof (cases "re_match s r k []")
    case Nil
    with Cons show ?thesis by auto
  next
    case (Cons p ps)
    with Cons.prems have "(j, c) \<in> set (re_match s r k [])" "i = k" by (auto split: prod.splits)
    with Cons.prems(2) re_match_bounds [of j c s r k "[]"] show ?thesis by auto
  qed
qed simp

lemma FindStringSubmatch_length:
  "FindStringSubmatch r s \<noteq> [] \<Longrightarrow> length (FindStringSubmatch r s) = Suc (groups r)"
  by (auto simp: FindStringSubmatch_def submatches_def split: option.splits)

text \<open>A greedy star over a class takes the longest run first.\<close>

definition run :: "bool \<Rightarrow> (char \<times> char) list \<Rightarrow> string \<Rightarrow> nat \<Rightarrow> nat" where
  "run neg rs s i = length (takeWhile (in_class neg rs) (drop i s))"

lemma run_step:
  "run neg rs s i = (if i < length s \<and> in_class neg rs (s ! i) then Suc (run neg rs s (Suc i)) else 0)"
proof (cases "i < length s")
  case True
  then have "drop i s = s ! i # drop (Suc i) s" by (simp add: Cons_nth_drop_Suc)
  with True show ?thesis by (simp add: run_def)
qed (simp add: run_def)

lemma star_class_first:
  "\<exists>rest. re_match s (Star (Class neg rs)) i c = (i + run neg rs s i, c) # rest"
proof (induction "length s - i" arbitrary: i)
  case 0
  then show ?case by (simp add: run_step [of neg rs s i] re_star)
next
  case (Suc n)
  show ?case
  proof (cases "in_class neg rs (s ! i)")
    case True
    from Suc.hyps(2) have "i < length s" by simp
    moreover from Suc.hyps(2) have "n = length s - Suc i" by linarith
    with Suc.hyps(1) obtain rest where
      "re_match s (Star (Class neg rs)) (Suc i) c = (Suc i + run neg rs s (Suc i), c) # rest" by blast
    ultimately show ?thesis using True by (simp add: run_step [of neg rs s i] re_star [of s _ i])
  next
    case False
    then show ?thesis by (simp add: run_step [of neg rs s i] re_star)
  qed
qed

lemma plus_class_first:
  assumes "i < length s" and "in_class neg rs (s ! i)"
  shows "\<exists>rest. re_match s (Plus (Class neg rs)) i c = (i + run neg rs s i, c) # rest"
  using assms star_class_first [of s neg rs "Suc i" c] run_step [of neg rs s i] by auto

text \<open>A literal string.\<close>

fun lit_string :: "string \<Rightarrow> regexp \<Rightarrow> regexp" where
  "lit_string [] r = r"
| "lit_string (c # cs) r = Cat (Lit c) (lit_string cs r)"

lemma in_lit [simp]: "in_class False [(c, c)] d \<longleftrightarrow> d = c"
  by (auto simp: in_class.simps)

lemma lit_string_match:
  "re_match s (lit_string t r) i c = (if i \<le> length s \<and> prefix t (drop i s) then re_match s r (i + length t) c
     else if t = [] then re_match s r i c else [])"
proof (induction t arbitrary: i)
  case (Cons x t)
  show ?case
  proof (cases "i < length s")
    case True
    then have "drop i s = s ! i # drop (Suc i) s" by (simp add: Cons_nth_drop_Suc)
    with True Cons [of "Suc i"] show ?thesis by (auto simp: Suc_le_eq)
  qed auto
qed auto

lemma groups_lit_string [simp]: "groups (lit_string t r) = groups r"
  by (induction t) auto

end
