(* ===== verification/GroupNames.thy ===== *)
theory GroupNames
  imports GoRegexp
begin

text \<open>
  Group names (\<^verbatim>\<open>pkg/utils/utils.go\<close>): a group name of the cluster is rewritten into the name
  of a team by the first pattern of the backend type that matches.  \<open>compile\<close> stands for
  \<^verbatim>\<open>regexp.Compile\<close>; \<open>None\<close> is its error.
\<close>

record PatternEntry =
  pe_Input :: string
  pe_Output :: string

type_synonym compiler = "string \<Rightarrow> regexp option"

section \<open>Definitions\<close>

definition replace_suffix :: string where
  "replace_suffix = ''|replace(-,_)''"

fun substitute_groups :: "string \<Rightarrow> nat \<Rightarrow> string list \<Rightarrow> string" where
  "substitute_groups result i [] = result"
| "substitute_groups result i (m # ms) =
     (let placeholder = ''$'' @ show_nat i;
          result' = (if Contains result (placeholder @ replace_suffix)
                     then ReplaceAll result (placeholder @ replace_suffix) (ReplaceAll m ''-'' ''_'')
                     else ReplaceAll result placeholder m)
      in substitute_groups result' (Suc i) ms)"

definition processGroupName :: "string \<Rightarrow> string list \<Rightarrow> string" where
  "processGroupName outputTemplate matches = substitute_groups outputTemplate 1 (tl matches)"

fun first_pattern :: "compiler \<Rightarrow> string \<Rightarrow> string \<Rightarrow> PatternEntry list \<Rightarrow> string result" where
  "first_pattern compile typeName inputStr [] =
     Inl (GoErr (''no matching pattern found for backend type '' @ typeName @ '' and input string is '' @ inputStr))"
| "first_pattern compile typeName inputStr (p # ps) =
     (case compile (pe_Input p) of
        None \<Rightarrow> Inl (GoErr (''invalid regex pattern: '' @ pe_Input p))
      | Some re \<Rightarrow>
          (let matches = FindStringSubmatch re inputStr
           in if matches \<noteq> [] then Inr (processGroupName (pe_Output p) matches)
              else first_pattern compile typeName inputStr ps))"

definition GetTransformedGroupName ::
    "compiler \<Rightarrow> PatternEntry list gomap \<Rightarrow> string \<Rightarrow> string \<Rightarrow> string result" where
  "GetTransformedGroupName compile Pattern typeName inputStr =
     (let patterns = (case map_of Pattern typeName of
                        Some ps \<Rightarrow> ps
                      | None \<Rightarrow> (case map_of Pattern ''default'' of Some ps \<Rightarrow> ps | None \<Rightarrow> []))
      in first_pattern compile typeName inputStr patterns)"

section \<open>The first matching pattern decides\<close>

definition compiles :: "compiler \<Rightarrow> PatternEntry \<Rightarrow> bool" where
  "compiles compile p \<longleftrightarrow> compile (pe_Input p) \<noteq> None"

definition matches_entry :: "compiler \<Rightarrow> string \<Rightarrow> PatternEntry \<Rightarrow> bool" where
  "matches_entry compile s p \<longleftrightarrow> (\<exists>re. compile (pe_Input p) = Some re \<and> FindStringSubmatch re s \<noteq> [])"

lemma first_pattern_skip:
  "(\<forall>p \<in> set ps. compiles compile p \<and> \<not> matches_entry compile s p) \<Longrightarrow>
   first_pattern compile ty s (ps @ qs) = first_pattern compile ty s qs"
  by (induction ps) (auto simp: compiles_def matches_entry_def)

lemma first_pattern_hit:
  assumes "compile (pe_Input p) = Some re" and "FindStringSubmatch re s \<noteq> []"
    and "\<forall>q \<in> set ps. compiles compile q \<and> \<not> matches_entry compile s q"
  shows "first_pattern compile ty s (ps @ p # qs) = Inr (processGroupName (pe_Output p) (FindStringSubmatch re s))"
  using assms by (simp add: first_pattern_skip)

lemma ex_split_Cons:
  "(\<exists>as q bs. x # xs = as @ q # bs \<and> P q \<and> (\<forall>r \<in> set as. C r)) \<longleftrightarrow>
   P x \<or> C x \<and> (\<exists>as q bs. xs = as @ q # bs \<and> P q \<and> (\<forall>r \<in> set as. C r))"
  (is "?L \<longleftrightarrow> P x \<or> C x \<and> ?R")
proof
  assume ?L
  then obtain as q bs where "x # xs = as @ q # bs" "P q" "\<forall>r \<in> set as. C r" by blast
  then show "P x \<or> C x \<and> ?R" by (cases as) auto
next
  assume "P x \<or> C x \<and> ?R"
  then show ?L
  proof (elim disjE conjE exE)
    assume "P x" then show ?L by (intro exI [of _ "[]"]) simp
  next
    fix as q bs assume "C x" "xs = as @ q # bs" "P q" "\<forall>r \<in> set as. C r"
    then show ?L by (intro exI [of _ "x # as"]) auto
  qed
qed

lemma first_pattern_ok_iff:
  "is_ok (first_pattern compile ty s ps) \<longleftrightarrow>
     (\<exists>as p bs. ps = as @ p # bs \<and> matches_entry compile s p \<and> (\<forall>q \<in> set as. compiles compile q))"
proof (induction ps)
  case Nil
  show ?case by simp
next
  case (Cons p ps)
  then show ?case
    unfolding ex_split_Cons by (cases "compile (pe_Input p)") (auto simp: matches_entry_def compiles_def Let_def)
qed

section \<open>Patterns of the shape literal prefix, captured run\<close>

text \<open>
  The patterns of \<^verbatim>\<open>appconfig/default.yaml\<close> for the data-platform groups are a literal prefix
  followed by a captured run of a character class, not anchored at the end.
\<close>

definition prefix_run :: "string \<Rightarrow> bool \<Rightarrow> (char \<times> char) list \<Rightarrow> regexp" where
  "prefix_run t neg rs = lit_string t (Capture 1 (Plus (Class neg rs)))"

lemma FindStringSubmatch_prefix_run:
  assumes "x \<noteq> []" and "\<forall>c \<in> set x. in_class neg rs c" and "y = [] \<or> \<not> in_class neg rs (hd y)"
  shows "FindStringSubmatch (prefix_run t neg rs) (t @ x @ y) = [t @ x, x]"
proof -
  let ?s = "t @ x @ y" and ?n = "length t + length x"
  have "takeWhile (in_class neg rs) (x @ y) = x"
    using assms(2,3) by (cases y) (auto simp: takeWhile_append)
  then have run: "run neg rs ?s (length t) = length x" by (simp add: run_def)
  have "length t < length ?s" "in_class neg rs (?s ! length t)"
    using assms(1,2) by (cases x; simp add: nth_append)+
  from plus_class_first [OF this, of "[]"] run obtain rest where
    "re_match ?s (Plus (Class neg rs)) (length t) [] = (?n, []) # rest" by auto
  then have "re_match ?s (prefix_run t neg rs) 0 [] = (?n, [(1, length t, ?n)]) # map (\<lambda>(j, d). (j, (1, length t, j) # d)) rest"
    unfolding prefix_run_def lit_string_match by simp
  then have "first_match ?s (prefix_run t neg rs) [0..<Suc (length ?s)] = Some (0, ?n, [(1, length t, ?n)])"
    by (subst upt_rec) simp
  then show ?thesis
    by (simp add: FindStringSubmatch_def submatches_def prefix_run_def span_def)
qed

lemma show_nat_1 [simp]: "show_nat (Suc 0) = ''1''"
  by code_simp

lemma processGroupName_group: "processGroupName ''$1_group'' [m, x] = x @ ''_group''"
proof -
  have "ReplaceAll ''$1_group'' ''$1'' x = x @ ''_group''"
    using ReplaceAll_hit [of "''$1''" "''_group''" x] ReplaceAll_absent [of "''$1''" "''_group''" x] by simp
  then show ?thesis
    by (simp add: processGroupName_def replace_suffix_def)
qed

lemma processGroupName_replace:
  "processGroupName ''$1|replace(-,_)_group'' [m, x] = map (\<lambda>c. if c = CHR ''-'' then CHR ''_'' else c) x @ ''_group''"
proof -
  let ?p = "''$1|replace(-,_)''"
  have "ReplaceAll (?p @ ''_group'') ?p z = z @ ''_group''" for z
    by (subst ReplaceAll_hit) (simp_all add: ReplaceAll_absent)
  then show ?thesis
    by (simp add: processGroupName_def replace_suffix_def ReplaceAll_char)
qed

section \<open>The patterns of the shipped configuration\<close>

definition lower_alnum :: "(char \<times> char) list" where
  "lower_alnum = [(CHR ''a'', CHR ''z''), (CHR ''0'', CHR ''9'')]"

definition default_patterns :: "PatternEntry list" where
  "default_patterns =
     [\<lparr>pe_Input = ''dataverse-platform-([a-z0-9]+)'', pe_Output = ''$1_group''\<rparr>,
      \<lparr>pe_Input = ''dataverse-source-([a-z0-9]+)'', pe_Output = ''$1_group''\<rparr>,
      \<lparr>pe_Input = ''dataverse-aggregate-([a-z0-9]+)'', pe_Output = ''$1_group''\<rparr>,
      \<lparr>pe_Input = ''dataverse-consumer-([a-z0-9]+-[a-z0-9]+)'', pe_Output = ''$1|replace(-,_)_group''\<rparr>]"

definition rover_input :: string where
  "rover_input = ''^([^'' @ CHR 0x5C # ''_]+)$''"

definition rover_patterns :: "PatternEntry list" where
  "rover_patterns = [\<lparr>pe_Input = rover_input, pe_Output = ''$1''\<rparr>]"

definition not_underscore :: regexp where
  "not_underscore = Cat BeginText (Cat (Capture 1 (Plus (Class True [(CHR ''_'', CHR ''_'')]))) EndText)"

text \<open>What the parser of regular expressions makes of three of these patterns.\<close>

definition compiles_shipped :: "compiler \<Rightarrow> bool" where
  "compiles_shipped compile \<longleftrightarrow>
     compile ''dataverse-platform-([a-z0-9]+)'' = Some (prefix_run ''dataverse-platform-'' False lower_alnum) \<and>
     compile ''dataverse-source-([a-z0-9]+)'' = Some (prefix_run ''dataverse-source-'' False lower_alnum) \<and>
     compile rover_input = Some not_underscore"

definition sample_compile :: compiler where
  "sample_compile p =
     (if p = ''dataverse-platform-([a-z0-9]+)'' then Some (prefix_run ''dataverse-platform-'' False lower_alnum)
      else if p = ''dataverse-source-([a-z0-9]+)'' then Some (prefix_run ''dataverse-source-'' False lower_alnum)
      else if p = rover_input then Some not_underscore
      else None)"

lemma sample_compile_shipped: "compiles_shipped sample_compile"
  by (simp add: compiles_shipped_def sample_compile_def rover_input_def)

lemma first_match_None: "(\<forall>i \<in> set is. re_match s r i [] = []) \<Longrightarrow> first_match s r is = None"
  by (induction "is") auto

lemma prefix_run_absent:
  assumes "t \<noteq> []" and "\<not> sublist t s"
  shows "FindStringSubmatch (prefix_run t neg rs) s = []"
proof -
  have "\<not> prefix t (drop i s)" for i
    using assms(2) by (meson prefix_imp_sublist sublist_drop sublist_order.order_trans)
  with assms(1) have "re_match s (prefix_run t neg rs) i [] = []" for i
    by (simp add: prefix_run_def lit_string_match)
  then show ?thesis by (simp add: FindStringSubmatch_def first_match_None)
qed

lemma sublist_nth:
  assumes "sublist t s"
  shows "\<exists>a. \<forall>k < length t. a + k < length s \<and> s ! (a + k) = t ! k"
proof -
  from assms obtain p q where s: "s = p @ t @ q" by (auto simp: sublist_def)
  show ?thesis by (rule exI [of _ "length p"]) (simp add: s nth_append)
qed

lemma nth_append_absent:
  assumes "\<forall>c \<in> set x. c \<noteq> d" and "j < length (p @ x)" and "(p @ x) ! j = d"
  shows "j < length p \<and> p ! j = d"
proof (rule ccontr)
  assume "\<not> ?thesis"
  with assms(2,3) have "x ! (j - length p) = d" "j - length p < length x"
    by (auto simp: nth_append split: if_splits)
  with assms(1) show False by (metis nth_mem)
qed

lemma dash_positions: "\<forall>k \<in> set [0..<17]. ''dataverse-source-'' ! k = CHR ''-'' \<longrightarrow> k = 9 \<or> k = 16"
  by code_simp

lemma source_not_platform:
  assumes "\<forall>c \<in> set x. c \<noteq> CHR ''-''"
  shows "\<not> sublist ''dataverse-platform-'' (''dataverse-source-'' @ x)" (is "\<not> sublist ?t (?p @ x)")
proof
  assume "sublist ?t (?p @ x)"
  from sublist_nth [OF this]
  obtain a where a: "\<forall>k < length ?t. a + k < length (?p @ x) \<and> (?p @ x) ! (a + k) = ?t ! k" ..
  have dash: "?t ! 9 = CHR ''-''" "?t ! 18 = CHR ''-''" by simp_all
  have pos: "a + k = 9 \<or> a + k = 16" if "k < length ?t" "?t ! k = CHR ''-''" for k
  proof -
    from a that have "a + k < length ?p \<and> ?p ! (a + k) = CHR ''-''"
      by (intro nth_append_absent [OF assms]) auto
    then show ?thesis using dash_positions by (auto simp del: nth_Cons_numeral)
  qed
  from pos [of 9] pos [of 18] dash have "a + 9 = 9 \<or> a + 9 = 16" "a + 18 = 9 \<or> a + 18 = 16" by simp_all
  then show False by auto
qed

lemma no_dash: "in_class False lower_alnum c \<Longrightarrow> c \<noteq> CHR ''-''"
  by (auto simp: in_class.simps lower_alnum_def)

section \<open>Main results\<close>

text \<open>The patterns of a backend type: its own, or those of \<open>default\<close>.\<close>

definition patterns_of :: "PatternEntry list gomap \<Rightarrow> string \<Rightarrow> PatternEntry list" where
  "patterns_of Pattern ty =
     (case map_of Pattern ty of Some ps \<Rightarrow> ps
      | None \<Rightarrow> (case map_of Pattern ''default'' of Some ps \<Rightarrow> ps | None \<Rightarrow> []))"

lemma GetTransformedGroupName_first:
  "GetTransformedGroupName compile Pattern ty s = first_pattern compile ty s (patterns_of Pattern ty)"
  by (simp add: GetTransformedGroupName_def patterns_of_def)

lemma first_pattern_Inr_iff:
  "first_pattern compile ty s ps = Inr t \<longleftrightarrow>
     (\<exists>as p bs. ps = as @ p # bs \<and>
        (\<exists>re. compile (pe_Input p) = Some re \<and> FindStringSubmatch re s \<noteq> [] \<and>
              t = processGroupName (pe_Output p) (FindStringSubmatch re s)) \<and>
        (\<forall>q \<in> set as. compiles compile q \<and> \<not> matches_entry compile s q))"
proof (induction ps)
  case Nil
  show ?case by simp
next
  case (Cons p ps)
  then show ?case
    unfolding ex_split_Cons by (cases "compile (pe_Input p)") (auto simp: matches_entry_def compiles_def Let_def)
qed

text \<open>
  C16: The transformation takes the patterns of the backend type, or those of \<open>default\<close> when the type has
  none, and applies the first one that matches: it returns a name exactly when some pattern matches
  and every pattern before it is a valid regular expression that does not match, and the name is the
  output template of that pattern with the captured groups substituted.
\<close>

theorem transform_first_match:
  "GetTransformedGroupName compile Pattern ty s = Inr t \<longleftrightarrow>
     (\<exists>as p bs. patterns_of Pattern ty = as @ p # bs \<and>
        (\<exists>re. compile (pe_Input p) = Some re \<and> FindStringSubmatch re s \<noteq> [] \<and>
              t = processGroupName (pe_Output p) (FindStringSubmatch re s)) \<and>
        (\<forall>q \<in> set as. compiles compile q \<and> \<not> matches_entry compile s q))"
  unfolding GetTransformedGroupName_first by (rule first_pattern_Inr_iff)

theorem transform_first_match_witness:
  "GetTransformedGroupName sample_compile [(''default'', default_patterns)] ''fivetran'' ''dataverse-platform-hr'' = Inr ''hr_group''"
proof -
  let ?p = "hd default_patterns" and ?s = "''dataverse-platform-hr''"
  let ?re = "prefix_run ''dataverse-platform-'' False lower_alnum"
  have "patterns_of [(''default'', default_patterns)] ''fivetran'' = [] @ ?p # tl default_patterns"
    by (simp add: patterns_of_def default_patterns_def)
  moreover have "sample_compile (pe_Input ?p) = Some ?re"
    by (simp add: sample_compile_def default_patterns_def)
  moreover have "FindStringSubmatch ?re (''dataverse-platform-'' @ ''hr'' @ []) = [''dataverse-platform-hr'', ''hr'']"
    by (subst FindStringSubmatch_prefix_run) (simp_all add: in_class.simps lower_alnum_def)
  then have "FindStringSubmatch ?re ?s = [''dataverse-platform-hr'', ''hr'']" by simp
  moreover have "processGroupName (pe_Output ?p) [''dataverse-platform-hr'', ''hr''] = ''hr_group''"
    by (simp add: default_patterns_def processGroupName_group)
  ultimately show ?thesis
    unfolding transform_first_match by (intro exI [of _ "[]"] exI [of _ ?p] exI [of _ "tl default_patterns"]) auto
qed

lemma platform_name:
  assumes "compiles_shipped compile" and "patterns_of Pattern ty = default_patterns"
    and "x \<noteq> []" and "\<forall>c \<in> set x. in_class False lower_alnum c"
    and "y = [] \<or> \<not> in_class False lower_alnum (hd y)"
  shows "GetTransformedGroupName compile Pattern ty (''dataverse-platform-'' @ x @ y) = Inr (x @ ''_group'')"
  using assms(1,2) FindStringSubmatch_prefix_run [OF assms(3-5), of "''dataverse-platform-''"]
  by (simp add: compiles_shipped_def default_patterns_def GetTransformedGroupName_first processGroupName_group)

abbreviation sample_pattern :: "PatternEntry list gomap" where
  "sample_pattern \<equiv> [(''default'', default_patterns)]"

lemma sample_name:
  assumes "ty \<noteq> ''default''"
  shows "GetTransformedGroupName sample_compile sample_pattern ty ''dataverse-platform-hr'' = Inr ''hr_group''"
  using platform_name [OF sample_compile_shipped, of sample_pattern ty "''hr''" "[]"] assms
  by (simp add: patterns_of_def in_class.simps lower_alnum_def)

text \<open>
  C17: With the shipped default patterns, a platform group gets the team name built from the
  alphanumeric run after its prefix, whatever follows that run (the patterns are not anchored), and
  the source group of the same run gets the same team name.
\<close>

theorem default_names_collide:
  assumes "compiles_shipped compile" and "patterns_of Pattern ty = default_patterns"
    and "x \<noteq> []" and "\<forall>c \<in> set x. in_class False lower_alnum c"
    and "y = [] \<or> \<not> in_class False lower_alnum (hd y)"
  shows "GetTransformedGroupName compile Pattern ty (''dataverse-platform-'' @ x @ y) = Inr (x @ ''_group'') \<and>
         GetTransformedGroupName compile Pattern ty (''dataverse-source-'' @ x) = Inr (x @ ''_group'')"
proof
  note defs = compiles_shipped_def default_patterns_def GetTransformedGroupName_first
  show "GetTransformedGroupName compile Pattern ty (''dataverse-platform-'' @ x @ y) = Inr (x @ ''_group'')"
    using assms by (rule platform_name)
  have "FindStringSubmatch (prefix_run ''dataverse-platform-'' False lower_alnum) (''dataverse-source-'' @ x) = []"
    using assms(4) no_dash by (intro prefix_run_absent source_not_platform) auto
  then show "GetTransformedGroupName compile Pattern ty (''dataverse-source-'' @ x) = Inr (x @ ''_group'')"
    using assms(1,2) FindStringSubmatch_prefix_run [OF assms(3,4), of "[]" "''dataverse-source-''"]
    by (simp add: defs processGroupName_group)
qed

theorem default_names_collide_witness:
  "GetTransformedGroupName sample_compile [(''default'', default_patterns)] ''fivetran'' (''dataverse-platform-'' @ ''hr'' @ ''-x'') = Inr (''hr'' @ ''_group'') \<and>
   GetTransformedGroupName sample_compile [(''default'', default_patterns)] ''fivetran'' (''dataverse-source-'' @ ''hr'') = Inr (''hr'' @ ''_group'')"
  by (rule default_names_collide)
    (simp_all add: sample_compile_shipped patterns_of_def in_class.simps lower_alnum_def)

end
