(* ===== verification/GroupTypes.thy ===== *)
theory GroupTypes
  imports Prelude
begin

text \<open>
  The custom resource of the operator (\<^verbatim>\<open>api/v1alpha1\<close>): the Group object, its specification and
  status, and the two methods that write the readiness condition, \<^verbatim>\<open>SetWaiting\<close> and
  \<^verbatim>\<open>UpdateStatus\<close>.  Of the object's metadata the model keeps the fields the program reads or
  writes.  \<^verbatim>\<open>metav1.Now()\<close> is the argument \<open>now\<close>; generations are 64-bit words.
\<close>

section \<open>The resource\<close>

definition GroupReadyCondition :: string where
  "GroupReadyCondition = ''GroupReadyCondition''"

definition SuccessfullyReconciled :: string where
  "SuccessfullyReconciled = ''SuccessfullyReconciled''"

definition ReconcileFailed :: string where
  "ReconcileFailed = ''ReconcileFailed''"

definition GroupVersion :: string where
  "GroupVersion = ''operator.dataverse.redhat.com/v1alpha1''"

record BackendStatus =
  bs_Name :: string
  bs_Type :: string
  bs_Status :: bool
  bs_Message :: string

record Backend =
  be_Name :: string
  be_Type :: string

record Members =
  mem_Groups :: "string list"
  mem_Users :: "string list"

record GroupSpec =
  GroupName :: string
  spec_Members :: Members
  Backends :: "Backend list"

datatype ConditionStatus = ConditionTrue | ConditionFalse | ConditionUnknown

record Condition =
  cond_Type :: string
  cond_Status :: ConditionStatus
  cond_LastTransitionTime :: int
  cond_Reason :: string
  cond_Message :: string

record GroupStatus =
  ReconciledUsers :: "string list"
  Conditions :: "Condition list"
  LastAppliedGeneration :: "64 word"
  BackendsStatus :: "BackendStatus list"

record OwnerReference =
  ref_APIVersion :: string
  ref_Kind :: string
  ref_Name :: string
  ref_UID :: string
  ref_BlockOwnerDeletion :: "bool option"

record Group =
  g_Name :: string
  g_Namespace :: string
  g_UID :: string
  g_Generation :: "64 word"
  g_DeletionTimestamp :: "int option"
  g_Finalizers :: "string list"
  g_OwnerReferences :: "OwnerReference list"
  g_Spec :: GroupSpec
  g_Status :: GroupStatus

section \<open>The readiness condition\<close>

text \<open>
  The loop both methods end with: the first condition of the same type is overwritten in place,
  and a condition of a new type is appended.
\<close>

fun set_condition :: "Condition \<Rightarrow> Condition list \<Rightarrow> Condition list" where
  "set_condition c [] = [c]"
| "set_condition c (d # ds) =
     (if cond_Type d = cond_Type c then c # ds else d # set_condition c ds)"

definition waiting_condition :: "int \<Rightarrow> Condition" where
  "waiting_condition now =
     \<lparr>cond_Type = GroupReadyCondition,
      cond_Status = ConditionUnknown,
      cond_LastTransitionTime = now,
      cond_Reason = ''Waiting'',
      cond_Message = ''Group is getting reconciled''\<rparr>"

definition SetWaiting :: "int \<Rightarrow> Group \<Rightarrow> Group" where
  "SetWaiting now c =
     c\<lparr>g_Status := (g_Status c)
         \<lparr>Conditions := set_condition (waiting_condition now) (Conditions (g_Status c))\<rparr>\<rparr>"

definition final_condition :: "bool \<Rightarrow> int \<Rightarrow> Condition" where
  "final_condition isError now =
     (if \<not> isError
      then \<lparr>cond_Type = GroupReadyCondition,
            cond_Status = ConditionTrue,
            cond_LastTransitionTime = now,
            cond_Reason = SuccessfullyReconciled,
            cond_Message = ''Group reconciled successfully''\<rparr>
      else \<lparr>cond_Type = GroupReadyCondition,
            cond_Status = ConditionFalse,
            cond_LastTransitionTime = now,
            cond_Reason = ReconcileFailed,
            cond_Message = ''Group reconcile failed''\<rparr>)"

definition UpdateStatus :: "bool \<Rightarrow> int \<Rightarrow> Group \<Rightarrow> Group" where
  "UpdateStatus isError now c =
     (let st = (if \<not> isError then (g_Status c)\<lparr>LastAppliedGeneration := g_Generation c\<rparr>
                else g_Status c)
      in c\<lparr>g_Status := st\<lparr>Conditions := set_condition (final_condition isError now) (Conditions st)\<rparr>\<rparr>)"

section \<open>Properties of the condition list\<close>

text \<open>The condition of a given type that a reader of the status finds.\<close>

definition find_condition :: "string \<Rightarrow> Condition list \<Rightarrow> Condition option" where
  "find_condition ty cs = find (\<lambda>c. cond_Type c = ty) cs"

definition wf_conditions :: "Condition list \<Rightarrow> bool" where
  "wf_conditions cs \<longleftrightarrow> distinct (map cond_Type cs)"

lemma find_set_condition:
  "find_condition ty (set_condition c cs) =
     (if ty = cond_Type c then Some c else find_condition ty cs)"
  by (induction cs) (auto simp: find_condition_def)

lemma types_set_condition:
  "map cond_Type (set_condition c cs) =
     (if cond_Type c \<in> cond_Type ` set cs then map cond_Type cs
      else map cond_Type cs @ [cond_Type c])"
  by (induction cs) auto

lemma wf_set_condition: "wf_conditions cs \<Longrightarrow> wf_conditions (set_condition c cs)"
  by (auto simp: wf_conditions_def types_set_condition)

lemma set_condition_overwrites:
  "cond_Type c = cond_Type d \<Longrightarrow> set_condition d (set_condition c cs) = set_condition d cs"
  by (induction cs) auto

lemma waiting_condition_fields [simp]:
  "cond_Type (waiting_condition now) = GroupReadyCondition"
  "cond_Status (waiting_condition now) = ConditionUnknown"
  by (simp_all add: waiting_condition_def)

lemma final_condition_fields [simp]:
  "cond_Type (final_condition isError now) = GroupReadyCondition"
  "cond_Status (final_condition isError now) = (if isError then ConditionFalse else ConditionTrue)"
  "cond_Reason (final_condition isError now) =
     (if isError then ReconcileFailed else SuccessfullyReconciled)"
  by (simp_all add: final_condition_def)

lemma Conditions_SetWaiting:
  "Conditions (g_Status (SetWaiting now g)) =
     set_condition (waiting_condition now) (Conditions (g_Status g))"
  by (simp add: SetWaiting_def)

lemma Conditions_UpdateStatus:
  "Conditions (g_Status (UpdateStatus isError now g)) =
     set_condition (final_condition isError now) (Conditions (g_Status g))"
  by (simp add: UpdateStatus_def Let_def)

lemma UpdateStatus_frame:
  "g_Spec (UpdateStatus e now g) = g_Spec g" "g_Name (UpdateStatus e now g) = g_Name g"
  "g_Namespace (UpdateStatus e now g) = g_Namespace g"
  "g_Finalizers (UpdateStatus e now g) = g_Finalizers g"
  "ReconciledUsers (g_Status (UpdateStatus e now g)) = ReconciledUsers (g_Status g)"
  "BackendsStatus (g_Status (UpdateStatus e now g)) = BackendsStatus (g_Status g)"
  by (simp_all add: UpdateStatus_def Let_def)

lemma SetWaiting_frame:
  "g_Spec (SetWaiting now g) = g_Spec g" "g_Name (SetWaiting now g) = g_Name g"
  "g_Namespace (SetWaiting now g) = g_Namespace g"
  "g_Finalizers (SetWaiting now g) = g_Finalizers g"
  "g_OwnerReferences (SetWaiting now g) = g_OwnerReferences g"
  by (simp_all add: SetWaiting_def Let_def)

end
