(* ===== verification/Teams.thy ===== *)
theory Teams
  imports Details GroupNames Structs GroupTypes
begin

text \<open>
  The team of a group in a backend (\<^verbatim>\<open>internal/controller/group_controller.go\<close>):
  \<^verbatim>\<open>fetchOrCreateTeam\<close>, which takes the team's identifier from the cache or creates the team, and
  \<^verbatim>\<open>deleteBackendsTeam\<close>, the clean-up of a deleted group.  \<open>newClient\<close> stands for
  \<^verbatim>\<open>clients.New\<close> on the configured backends; \<open>cops\<close> is the cache.
\<close>

section \<open>Definitions\<close>

definition new_team :: "string \<Rightarrow> string \<Rightarrow> Team" where
  "new_team transformed groupName =
     \<lparr>t_ID = [], t_Name = transformed, t_Description = ''team for '' @ groupName, t_Role = AccountReviewerRole\<rparr>"

text \<open>From the creation of the team on.\<close>

definition create_team ::
    "'c cache \<Rightarrow> 'b client \<Rightarrow> string \<Rightarrow> string \<Rightarrow> string \<Rightarrow> string gomap option \<Rightarrow> 'c \<times> 'b \<Rightarrow> string result \<times> 'c \<times> 'b" where
  "create_team cops cl groupName transformed key m = (\<lambda>(c, b).
     case CreateTeam cl (new_team transformed groupName) b of
       (Inl err, b') \<Rightarrow> (Inl err, c, b')
     | (Inr newTeam, b') \<Rightarrow>
         (case mput key (t_ID newTeam) m of
            Inl panic \<Rightarrow> (Inl panic, c, b')
          | Inr m' \<Rightarrow>
              (case cSet cops transformed (marshal_map m') NoExpiration c of
                 (Some err, c') \<Rightarrow> (Inl err, c', b')
               | (None, c') \<Rightarrow> (Inr (t_ID newTeam), c', b'))))"

definition fetchOrCreateTeam ::
    "compiler \<Rightarrow> PatternEntry list gomap \<Rightarrow> 'c cache \<Rightarrow> 'b client \<Rightarrow> string \<Rightarrow> string \<Rightarrow> string \<Rightarrow> 'c \<times> 'b
       \<Rightarrow> string result \<times> 'c \<times> 'b" where
  "fetchOrCreateTeam compile Pattern cops cl groupName backendName backendType = (\<lambda>(c, b).
     case GetTransformedGroupName compile Pattern backendType groupName of
       Inl err \<Rightarrow> (Inl err, c, b)
     | Inr transformed \<Rightarrow>
         (let key = cacheKey backendName backendType;
              ((v, err), c1) = cGet cops transformed c
          in case cached_details v err of
               Inl jErr \<Rightarrow> (Inl jErr, c1, b)
             | Inr m \<Rightarrow>
                 (if mget m key \<noteq> [] then (Inr (mget m key), c1, b)
                  else create_team cops cl groupName transformed key m (c1, b))))"

text \<open>
  The cache update after a team was deleted in its backend: the entry is removed and, when other
  backends still have a team under this name, written back without this one.
\<close>

definition forget_team ::
    "'c cache \<Rightarrow> string \<Rightarrow> string \<Rightarrow> string gomap \<Rightarrow> 'c \<Rightarrow> gerror option \<times> 'c" where
  "forget_team cops transformed key m c =
     (let m' = AList.delete key m
      in case cDelete cops transformed c of
           (Some err, c') \<Rightarrow> (Some err, c')
         | (None, c') \<Rightarrow>
             (if 0 < length m' then cSet cops transformed (marshal_map m') NoExpiration c' else (None, c')))"

text \<open>One turn of the loop over the backends of a deleted group.\<close>

definition delete_backend_team ::
    "compiler \<Rightarrow> PatternEntry list gomap \<Rightarrow> 'c cache \<Rightarrow> (string \<Rightarrow> string \<Rightarrow> 'b client result) \<Rightarrow> string \<Rightarrow> Backend
       \<Rightarrow> 'c \<times> 'b \<Rightarrow> gerror option \<times> 'c \<times> 'b" where
  "delete_backend_team compile Pattern cops newClient groupName backend = (\<lambda>(c, b).
     case GetTransformedGroupName compile Pattern (be_Type backend) groupName of
       Inl err \<Rightarrow> (Some err, c, b)
     | Inr transformed \<Rightarrow>
         (case newClient (be_Name backend) (be_Type backend) of
            Inl err \<Rightarrow> (Some err, c, b)
          | Inr cl \<Rightarrow>
              (let ((v, err), c1) = cGet cops transformed c;
                   key = cacheKey (be_Name backend) (be_Type backend)
               in case cached_details v err of
                    Inl jErr \<Rightarrow> (Some jErr, c1, b)
                  | Inr m \<Rightarrow>
                      (if mget m key = [] then (None, c1, b)
                       else case DeleteTeamByID cl (mget m key) b of
                              (Some err, b') \<Rightarrow> (Some err, c1, b')
                            | (None, b') \<Rightarrow>
                                (let (err, c2) = forget_team cops transformed key (the m) c1
                                 in (err, c2, b'))))))"

fun deleteBackendsTeam ::
    "compiler \<Rightarrow> PatternEntry list gomap \<Rightarrow> 'c cache \<Rightarrow> (string \<Rightarrow> string \<Rightarrow> 'b client result) \<Rightarrow> string \<Rightarrow> Backend list
       \<Rightarrow> 'c \<times> 'b \<Rightarrow> gerror option \<times> 'c \<times> 'b" where
  "deleteBackendsTeam compile Pattern cops newClient groupName [] = (\<lambda>s. (None, s))"
| "deleteBackendsTeam compile Pattern cops newClient groupName (backend # rest) = (\<lambda>s.
     case delete_backend_team compile Pattern cops newClient groupName backend s of
       (Some err, s') \<Rightarrow> (Some err, s')
     | (None, s') \<Rightarrow> deleteBackendsTeam compile Pattern cops newClient groupName rest s')"

section \<open>The teams the cache knows of\<close>

text \<open>
  The teams of a group that a two-level map \<open>d\<close> has identifiers for, as pairs of the key of the backend
  and the identifier.
\<close>

definition known_team ::
    "compiler \<Rightarrow> PatternEntry list gomap \<Rightarrow> string \<Rightarrow> (string \<Rightarrow> string \<rightharpoonup> string) \<Rightarrow> Backend \<Rightarrow> (string \<times> string) set" where
  "known_team compile Pattern grp d be =
     (case GetTransformedGroupName compile Pattern (be_Type be) grp of
        Inl _ \<Rightarrow> {}
      | Inr name \<Rightarrow>
          (let key = cacheKey (be_Name be) (be_Type be); id = ident d name key
           in if id = [] then {} else {(key, id)}))"

definition known_teams ::
    "compiler \<Rightarrow> PatternEntry list gomap \<Rightarrow> string \<Rightarrow> Backend list \<Rightarrow> (string \<Rightarrow> string \<rightharpoonup> string) \<Rightarrow> (string \<times> string) set" where
  "known_teams compile Pattern grp bs d = (\<Union>be \<in> set bs. known_team compile Pattern grp d be)"

text \<open>\<open>d\<close> loses at most entries on the way to \<open>d'\<close>.\<close>

definition shrinks :: "(string \<Rightarrow> string \<rightharpoonup> string) \<Rightarrow> (string \<Rightarrow> string \<rightharpoonup> string) \<Rightarrow> bool" where
  "shrinks d d' \<longleftrightarrow> (\<forall>k. d' k \<subseteq>\<^sub>m d k)"

lemma shrinks_refl: "shrinks d d"
  by (simp add: shrinks_def)

lemma shrinks_trans: "shrinks d e \<Longrightarrow> shrinks e f \<Longrightarrow> shrinks d f"
  unfolding shrinks_def by (meson map_le_trans)

lemma shrinks_forget: "shrinks d (d(k := (d k)(key := None)))"
  by (auto simp: shrinks_def map_le_def)

lemma shrinks_ident: "shrinks d d' \<Longrightarrow> ident d k key = [] \<Longrightarrow> ident d' k key = []"
  unfolding shrinks_def ident_def map_le_def
  by (metis (no_types, lifting) domIff option.case_eq_if option.exhaust_sel)

lemma known_teams_Nil [simp]: "known_teams compile Pattern grp [] d = {}"
  by (simp add: known_teams_def)

lemma known_teams_Cons:
  assumes "GetTransformedGroupName compile Pattern (be_Type be) grp = Inr name"
  shows "known_teams compile Pattern grp (be # bs) d =
           (let key = cacheKey (be_Name be) (be_Type be); id = ident d name key
            in (if id = [] then {} else {(key, id)}) \<union> known_teams compile Pattern grp bs d)"
  using assms by (simp add: known_teams_def known_team_def Let_def)

lemma ident_forget:
  "ident (d(k := (d k)(key := None))) k' key' = (if k' = k \<and> key' = key then [] else ident d k' key')"
  by (simp add: ident_def)

lemma known_team_forget:
  "insert (key, ident d name key) (known_team compile Pattern grp (d(name := (d name)(key := None))) be) =
   insert (key, ident d name key) (known_team compile Pattern grp d be)"
  by (auto simp: known_team_def Let_def ident_forget split: sum.splits if_splits)

lemma known_teams_forget:
  "insert (key, ident d name key) (known_teams compile Pattern grp bs (d(name := (d name)(key := None)))) =
   insert (key, ident d name key) (known_teams compile Pattern grp bs d)"
  unfolding known_teams_def using known_team_forget [of key d name compile Pattern grp] by blast

text \<open>
  What is relied on of the backends: a deletion that reports success removes that team of that
  backend, and only that one.
\<close>

definition deletes_teams :: "(string \<Rightarrow> string \<Rightarrow> 'b client result) \<Rightarrow> ('b \<Rightarrow> (string \<times> string) set) \<Rightarrow> bool" where
  "deletes_teams newClient T \<longleftrightarrow>
     (\<forall>n t cl id b b'. newClient n t = Inr cl \<longrightarrow> DeleteTeamByID cl id b = (None, b') \<longrightarrow> T b' = T b - {(cacheKey n t, id)})"

section \<open>Behaviour on a working cache\<close>

context details_store
begin

lemma fetchOrCreateTeam_read:
  assumes "inv c" and "GetTransformedGroupName compile Pattern ty grp = Inr name"
  obtains c' m where "inv c'" "D c' = D c" "wf_gomap m" "valid_map m" "map_of m = D c name"
    "fetchOrCreateTeam compile Pattern ops cl grp bn ty (c, b) =
       (let key = cacheKey bn ty
        in if ident (D c) name key \<noteq> [] then (Inr (ident (D c) name key), c', b)
           else create_team ops cl grp name key (Some m) (c', b))"
proof -
  from assms(1) obtain v err c' m where
    r: "cGet ops name c = ((v, err), c')" "details_answer (v, err) m" and m: "wf_gomap m" "valid_map m"
      "map_of m = D c name" "inv c'" "D c' = D c" and g: "\<forall>key. gget m key = ident (D c) name key"
    by (rule readE)
  show ?thesis
    by (rule that [OF m(4,5,1-3)]) (simp add: fetchOrCreateTeam_def assms(2) r(1) cached_details_answer [OF r(2)] g Let_def)
qed

lemma team_cached:
  assumes "inv c" and "GetTransformedGroupName compile Pattern ty grp = Inr name"
    and "ident (D c) name (cacheKey bn ty) \<noteq> []"
  shows "\<exists>c'. fetchOrCreateTeam compile Pattern ops cl grp bn ty (c, b) =
                (Inr (ident (D c) name (cacheKey bn ty)), c', b) \<and> inv c' \<and> D c' = D c"
  by (rule fetchOrCreateTeam_read [OF assms(1,2), of cl bn b]) (auto simp: assms(3))

lemma team_created:
  assumes "inv c" and "GetTransformedGroupName compile Pattern ty grp = Inr name"
    and "ident (D c) name (cacheKey bn ty) = []"
    and "CreateTeam cl (new_team name grp) b = (Inr t, b')" and "valid_utf8 (cacheKey bn ty)" and "valid_utf8 (t_ID t)"
  shows "\<exists>c'. fetchOrCreateTeam compile Pattern ops cl grp bn ty (c, b) = (Inr (t_ID t), c', b') \<and> inv c' \<and>
              D c' = (D c)(name := (D c name)(cacheKey bn ty \<mapsto> t_ID t))"
proof -
  obtain c1 m where m: "inv c1" "D c1 = D c" "wf_gomap m" "valid_map m" "map_of m = D c name"
    and f: "fetchOrCreateTeam compile Pattern ops cl grp bn ty (c, b) =
              create_team ops cl grp name (cacheKey bn ty) (Some m) (c1, b)"
    by (rule fetchOrCreateTeam_read [OF assms(1,2), of cl bn b]) (auto simp: assms(3))
  from m have "map_of m = D c1 name" by simp
  from m(1,3,4) this assms(5,6) obtain c' where
    "cSet ops name (marshal_map (AList.update (cacheKey bn ty) (t_ID t) m)) NoExpiration c1 = (None, c')" "inv c'"
    "D c' = (D c1)(name := (D c1 name)(cacheKey bn ty \<mapsto> t_ID t))" by (rule write_update)
  then show ?thesis by (simp add: f create_team_def assms(4) m(2))
qed

lemma team_create_fails:
  assumes "inv c" and "GetTransformedGroupName compile Pattern ty grp = Inr name"
    and "ident (D c) name (cacheKey bn ty) = []" and "CreateTeam cl (new_team name grp) b = (Inl e, b')"
  shows "\<exists>c'. fetchOrCreateTeam compile Pattern ops cl grp bn ty (c, b) = (Inl e, c', b') \<and> inv c' \<and> D c' = D c"
  by (rule fetchOrCreateTeam_read [OF assms(1,2), of cl bn b]) (auto simp: assms(3,4) create_team_def)

lemma forget_team_ok:
  assumes "inv c" and "wf_gomap m" and "valid_map m" and "map_of m = D c name"
  shows "\<exists>c'. forget_team ops name key m c = (None, c') \<and> inv c' \<and> D c' = (D c)(name := (D c name)(key := None))"
proof -
  let ?m = "AList.delete key m"
  from det_remove [OF assms(1)] obtain c1 where
    c1: "cDelete ops name c = (None, c1)" "inv c1" "D c1 = (D c)(name := Map.empty)" by blast
  have m: "wf_gomap ?m" "valid_map ?m" "map_of ?m = (D c name)(key := None)"
    using assms(2-4) by (simp_all add: valid_map_delete gomap_simps)
  show ?thesis
  proof (cases "?m = []")
    case True
    with m(3) have "(D c name)(key := None) = Map.empty" by simp
    with c1 True show ?thesis by (simp add: forget_team_def)
  next
    case False
    with det_write [OF c1(2) m(1,2), of name] c1 m(3) show ?thesis by (auto simp: forget_team_def)
  qed
qed

lemma delete_team_step:
  assumes "inv c" and "delete_backend_team compile Pattern ops newClient grp be (c, b) = (None, c', b')"
  obtains name cl where "GetTransformedGroupName compile Pattern (be_Type be) grp = Inr name"
    and "newClient (be_Name be) (be_Type be) = Inr cl" and "inv c'"
    and "let key = cacheKey (be_Name be) (be_Type be); id = ident (D c) name key
         in D c' = (D c)(name := (D c name)(key := if id = [] then D c name key else None)) \<and>
            (if id = [] then b' = b else DeleteTeamByID cl id b = (None, b'))"
proof -
  let ?key = "cacheKey (be_Name be) (be_Type be)"
  from assms(2) obtain name cl where n: "GetTransformedGroupName compile Pattern (be_Type be) grp = Inr name"
    "newClient (be_Name be) (be_Type be) = Inr cl"
    by (auto simp: delete_backend_team_def split: sum.splits)
  from assms(1) obtain v err c1 m where
    r: "cGet ops name c = ((v, err), c1)" "details_answer (v, err) m" and m: "wf_gomap m" "valid_map m"
      "map_of m = D c name" "inv c1" "D c1 = D c" and g: "\<forall>key. gget m key = ident (D c) name key"
    by (rule readE)
  note body = delete_backend_team_def [of compile Pattern ops newClient grp be, THEN fun_cong, of "(c, b)"]
  show ?thesis
  proof (cases "ident (D c) name ?key = []")
    case True
    with assms(2) n r g have "c' = c1" "b' = b"
      by (simp_all add: body cached_details_answer Let_def)
    with True m show ?thesis by (intro that [OF n]) simp_all
  next
    case False
    from m have m1: "map_of m = D c1 name" by simp
    from forget_team_ok [OF m(4,1,2) m1, of ?key] False assms(2) n r g m(5) show ?thesis
      by (intro that [OF n]) (auto simp: body cached_details_answer Let_def split: prod.splits option.splits)
  qed
qed

lemma delete_all_teams:
  assumes "deletes_teams newClient T"
  shows "inv c \<Longrightarrow> deleteBackendsTeam compile Pattern ops newClient grp bs (c, b) = (None, c', b') \<Longrightarrow>
    inv c' \<and> shrinks (D c) (D c') \<and> T b' = T b - known_teams compile Pattern grp bs (D c) \<and>
    known_teams compile Pattern grp bs (D c') = {}"
proof (induction bs arbitrary: c b)
  case Nil
  then show ?case by (simp add: shrinks_refl)
next
  case (Cons be bs)
  let ?kt = "known_teams compile Pattern grp" and ?key = "cacheKey (be_Name be) (be_Type be)"
  from Cons.prems(2) obtain c1 b1 where
    s: "delete_backend_team compile Pattern ops newClient grp be (c, b) = (None, c1, b1)"
    and rest: "deleteBackendsTeam compile Pattern ops newClient grp bs (c1, b1) = (None, c', b')"
    by (auto split: prod.splits option.splits)
  from Cons.prems(1) s obtain name cl where n: "GetTransformedGroupName compile Pattern (be_Type be) grp = Inr name"
    "newClient (be_Name be) (be_Type be) = Inr cl" "inv c1"
    and st: "let key = ?key; id = ident (D c) name key
         in D c1 = (D c)(name := (D c name)(key := if id = [] then D c name key else None)) \<and>
            (if id = [] then b1 = b else DeleteTeamByID cl id b = (None, b1))"
    by (rule delete_team_step)
  note IH = Cons.IH [OF n(3) rest]
  show ?case
  proof (cases "ident (D c) name ?key = []")
    case True
    with st have "D c1 = D c" "b1 = b" by (simp_all add: fun_upd_idem)
    with IH True show ?thesis using shrinks_ident by (auto simp: known_teams_Cons [OF n(1)] Let_def)
  next
    case False
    with st have D: "D c1 = (D c)(name := (D c name)(?key := None))" and "DeleteTeamByID cl (ident (D c) name ?key) b = (None, b1)"
      by (simp_all add: Let_def)
    with assms n(2) have T: "T b1 = T b - {(?key, ident (D c) name ?key)}" by (simp add: deletes_teams_def)
    from IH have "T b' = T b1 - ?kt bs (D c1)" by blast
    also have "\<dots> = T b - insert (?key, ident (D c) name ?key) (?kt bs (D c1))" using T by auto
    also have "\<dots> = T b - ?kt (be # bs) (D c)"
      unfolding D known_teams_forget using False by (simp add: known_teams_Cons [OF n(1)] Let_def)
    finally have "T b' = T b - ?kt (be # bs) (D c)" .
    moreover have "ident (D c1) name ?key = []" by (simp add: D ident_def)
    with IH have "ident (D c') name ?key = []" using shrinks_ident by blast
    with IH have "?kt (be # bs) (D c') = {}" by (simp add: known_teams_Cons [OF n(1)] Let_def)
    moreover have "shrinks (D c) (D c1)" unfolding D by (rule shrinks_forget)
    with IH have "shrinks (D c) (D c')" using shrinks_trans by blast
    ultimately show ?thesis using IH by blast
  qed
qed

end

section \<open>Main results\<close>

text \<open>
  C9: \<^verbatim>\<open>fetchOrCreateTeam\<close> on the in-memory cache: a team whose identifier is cached is never created
  again and nothing changes; otherwise the team is created with the transformed name, and on success
  its identifier is returned and becomes the cached one of this backend, with every other cached
  identifier untouched; when the backend fails, its error is returned and the cache is unchanged.
\<close>

theorem fetch_or_create_team:
  assumes "never_expires c" and "encoded (contents c)"
    and "GetTransformedGroupName compile Pattern ty grp = Inr name" and "valid_utf8 (cacheKey bn ty)"
    and "\<And>t b'. CreateTeam cl (new_team name grp) b = (Inr t, b') \<Longrightarrow> valid_utf8 (t_ID t)"
  shows "\<exists>c'. never_expires c' \<and> encoded (contents c') \<and>
    (let d = details (contents c); key = cacheKey bn ty;
         run = fetchOrCreateTeam compile Pattern (inmemory_cache clock) cl grp bn ty (c, b)
     in if ident d name key \<noteq> [] then run = (Inr (ident d name key), c', b) \<and> details (contents c') = d
        else case CreateTeam cl (new_team name grp) b of
               (Inl e, b') \<Rightarrow> run = (Inl e, c', b') \<and> details (contents c') = d
             | (Inr t, b') \<Rightarrow> run = (Inr (t_ID t), c', b') \<and> details (contents c') = d(name := (d name)(key \<mapsto> t_ID t)))"
proof -
  have inv: "never_expires c \<and> encoded (contents c)" using assms(1,2) by simp
  consider "ident (details (contents c)) name (cacheKey bn ty) \<noteq> []"
    | e b' where "ident (details (contents c)) name (cacheKey bn ty) = []" "CreateTeam cl (new_team name grp) b = (Inl e, b')"
    | t b' where "ident (details (contents c)) name (cacheKey bn ty) = []" "CreateTeam cl (new_team name grp) b = (Inr t, b')"
    by (metis old.prod.exhaust sum.exhaust)
  then show ?thesis
  proof cases
    case 1
    with mem.det.team_cached [OF inv assms(3) 1, of clock cl b] show ?thesis by (auto simp: Let_def)
  next
    case 2
    with mem.det.team_create_fails [OF inv assms(3) 2, of clock] show ?thesis by (auto simp: Let_def)
  next
    case 3
    with mem.det.team_created [OF inv assms(3) 3 assms(4) assms(5) [OF 3(2)], of clock] show ?thesis
      by (auto simp: Let_def)
  qed
qed

lemma demo_create_team: "CreateTeam demo_client t b = (Inr (t\<lparr>t_ID := ascii (t_Name t)\<rparr>), AList.update (ascii (t_Name t)) [] b)"
  by (simp add: demo_client_def)

theorem fetch_or_create_team_witness:
  "\<exists>c'. never_expires c' \<and> encoded (contents c') \<and>
     fetchOrCreateTeam sample_compile sample_pattern (inmemory_cache (\<lambda>n. 7)) demo_client ''dataverse-platform-hr'' ''fv'' ''fivetran'' (empty_cache, [])
       = (Inr ''hr_group'', c', [(''hr_group'', [])]) \<and>
     details (contents c') = (\<lambda>_. Map.empty)(''hr_group'' := [cacheKey ''fv'' ''fivetran'' \<mapsto> ''hr_group''])"
proof -
  have key: "valid_utf8 (cacheKey ''fv'' ''fivetran'')" "valid_utf8 ''hr_group''"
    by (rule valid_ascii, simp add: cacheKey_def)+
  have "GetTransformedGroupName sample_compile sample_pattern ''fivetran'' ''dataverse-platform-hr'' = Inr ''hr_group''"
    by (simp add: sample_name)
  from fetch_or_create_team [OF empty_cache_ok(1) _ this key(1), of demo_client "[]" "\<lambda>n. 7"] key(2) show ?thesis
    by (simp add: demo_create_team new_team_def ascii_def Let_def)
qed

text \<open>
  C10: When the clean-up of a deleted group reports success, exactly the teams whose identifiers the cache
  held for the group's backends have been deleted there, and the cache no longer holds any of them;
  a team the cache does not know of is left alone, although the group's finalizer is then removed.
\<close>

theorem delete_backends_team:
  assumes "deletes_teams newClient T" and "never_expires c" and "encoded (contents c)"
    and "deleteBackendsTeam compile Pattern (inmemory_cache clock) newClient grp bs (c, b) = (None, c', b')"
  shows "T b' = T b - known_teams compile Pattern grp bs (details (contents c)) \<and>
         known_teams compile Pattern grp bs (details (contents c')) = {} \<and>
         shrinks (details (contents c)) (details (contents c')) \<and> never_expires c' \<and> encoded (contents c')"
  using mem.det.delete_all_teams [OF assms(1) conjI [OF assms(2,3)] assms(4)] by blast


text \<open>One backend, with the team of a group in the cache.\<close>

abbreviation demo_key :: string where
  "demo_key \<equiv> cacheKey ''fv'' ''fivetran''"

definition demo_new :: "string \<Rightarrow> string \<Rightarrow> demo client result" where
  "demo_new n t = (if n = ''fv'' \<and> t = ''fivetran'' then Inr demo_client else Inl (GoErr ''invalid backend''))"

definition demo_teams :: "demo \<Rightarrow> (string \<times> string) set" where
  "demo_teams b = {(demo_key, i) | i. map_of b i \<noteq> None}"

lemma demo_deletes_teams: "deletes_teams demo_new demo_teams"
  by (auto simp: deletes_teams_def demo_new_def demo_client_def demo_teams_def gomap_simps split: if_splits)

definition team_cache :: InMemoryCache where
  "team_cache = \<lparr>client = \<lparr>defaultExpiration = - 1,
     items = [(''hr_group'', \<lparr>Object = marshal_map [(demo_key, ''hr_group'')], Expiration = 0\<rparr>)]\<rparr>, tick = 0\<rparr>"

lemma demo_valid: "valid_map [(demo_key, ''hr_group'')]" "wf_gomap [(demo_key, ''hr_group'')]"
  by (auto simp: valid_map_def wf_gomap_def cacheKey_def intro!: valid_ascii)

lemma contents_team_cache: "contents team_cache = [''hr_group'' \<mapsto> marshal_map [(demo_key, ''hr_group'')]]"
  by (auto simp: contents_def team_cache_def fun_eq_iff)

lemma team_cache_ok: "never_expires team_cache" "encoded (contents team_cache)"
  using demo_valid by (auto simp: never_expires_def wf_gomap_def team_cache_def encoded_def contents_team_cache [unfolded team_cache_def])

lemma details_team_cache: "details (contents team_cache) = (\<lambda>_. Map.empty)(''hr_group'' := [demo_key \<mapsto> ''hr_group''])"
  unfolding contents_team_cache details_update [OF demo_valid(2,1)] by (simp add: fun_eq_iff)

lemma demo_delete_run:
  "\<exists>c'. deleteBackendsTeam sample_compile sample_pattern (inmemory_cache (\<lambda>n. 7)) demo_new ''dataverse-platform-hr''
      [\<lparr>be_Name = ''fv'', be_Type = ''fivetran''\<rparr>] (team_cache, [(''hr_group'', [])]) = (None, c', [])"
proof -
  have "unmarshal_map (marshal_map [(demo_key, ''hr_group'')]) = Inr (Some [(demo_key, ''hr_group'')])"
    by (simp add: unmarshal_marshal demo_valid)
  then show ?thesis
    by (simp add: delete_backend_team_def sample_name demo_new_def inmemory_cache_def never_expires_Get(1) [OF team_cache_ok(1)]
        contents_team_cache cached_details_def forget_team_def inmemory_Delete_def gget_def demo_client_def Let_def)
qed

theorem delete_backends_team_witness:
  "demo_teams [] = demo_teams [(''hr_group'', [])] - {(demo_key, ''hr_group'')}"
proof -
  let ?bs = "[\<lparr>be_Name = ''fv'', be_Type = ''fivetran''\<rparr>]"
  have "known_teams sample_compile sample_pattern ''dataverse-platform-hr'' ?bs (details (contents team_cache)) = {(demo_key, ''hr_group'')}"
    by (simp add: known_teams_def known_team_def sample_name details_team_cache ident_def)
  with demo_delete_run delete_backends_team [OF demo_deletes_teams team_cache_ok] show ?thesis by metis
qed

end
