(* ===== verification/Membership.thy ===== *)
theory Membership
  imports GroupTypes
begin

text \<open>
  The members of a group (\<^verbatim>\<open>internal/controller/group_controller.go\<close>): the recursive collection
  of the users of a group and of the groups it names, \<^verbatim>\<open>fetchUniqueGroupMembers\<close>, and
  \<^verbatim>\<open>deduplicateMembers\<close>.  Reading a Group object is the parameter \<open>get\<close> (namespace, name).
  The recursion follows names held by the cluster, so it is bounded by fuel; with a finite number
  of Group objects in the namespace, one unit more than their number is enough
  (\<open>fetch_enough_fuel\<close>).
\<close>

type_synonym kget = "string \<Rightarrow> string \<Rightarrow> Group result"

abbreviation subgroups :: "Group \<Rightarrow> string list" where
  "subgroups g \<equiv> mem_Groups (spec_Members (g_Spec g))"

abbreviation users :: "Group \<Rightarrow> string list" where
  "users g \<equiv> mem_Users (spec_Members (g_Spec g))"

section \<open>Definitions\<close>

text \<open>
  \<open>visitedOnPath\<close> is the set of names on the current recursion path; the deferred deletion takes
  the name off again when the call returns.  \<open>None\<close> is running out of fuel.
\<close>

fun fetchUniqueGroupMembers ::
    "nat \<Rightarrow> kget \<Rightarrow> string \<Rightarrow> string \<Rightarrow> string list \<Rightarrow> (string list result \<times> string list) option"
and fetchSubGroups ::
    "nat \<Rightarrow> kget \<Rightarrow> string list \<Rightarrow> string \<Rightarrow> string list \<Rightarrow> string list
       \<Rightarrow> (string list result \<times> string list) option" where
  "fetchUniqueGroupMembers 0 get groupName namespace visitedOnPath = None"
| "fetchUniqueGroupMembers (Suc fuel) get groupName namespace visitedOnPath =
     (if groupName \<in> set visitedOnPath then Some (Inr [], visitedOnPath)
      else
        let visited = groupName # visitedOnPath
        in case get namespace groupName of
             Inl err \<Rightarrow> Some (Inl err, removeAll groupName visited)
           | Inr groupCR \<Rightarrow>
               (case fetchSubGroups fuel get (subgroups groupCR) namespace visited (users groupCR) of
                  None \<Rightarrow> None
                | Some (r, visited') \<Rightarrow> Some (r, removeAll groupName visited')))"
| "fetchSubGroups fuel get [] namespace visited members = Some (Inr members, visited)"
| "fetchSubGroups fuel get (subGroup # rest) namespace visited members =
     (case fetchUniqueGroupMembers fuel get subGroup namespace visited of
        None \<Rightarrow> None
      | Some (Inl err, visited') \<Rightarrow> Some (Inl err, visited')
      | Some (Inr subMembers, visited') \<Rightarrow>
          fetchSubGroups fuel get rest namespace visited' (members @ subMembers))"

text \<open>The loop of \<^verbatim>\<open>deduplicateMembers\<close>: \<open>seen\<close> is \<open>uniqueMembersMap\<close>.\<close>

fun dedup_loop :: "string list \<Rightarrow> string list \<Rightarrow> string list \<Rightarrow> string list" where
  "dedup_loop seen uniqueMembers [] = uniqueMembers"
| "dedup_loop seen uniqueMembers (member # rest) =
     (if member \<in> set seen then dedup_loop seen uniqueMembers rest
      else dedup_loop (member # seen) (uniqueMembers @ [member]) rest)"

definition deduplicateMembers :: "string list \<Rightarrow> string list" where
  "deduplicateMembers members = dedup_loop [] [] members"

section \<open>Specification: reachable groups\<close>

text \<open>\<open>reach_group get ns g h\<close>: following subgroup names from \<open>g\<close> one arrives at \<open>h\<close>.\<close>

inductive reach_group :: "kget \<Rightarrow> string \<Rightarrow> string \<Rightarrow> string \<Rightarrow> bool" for get ns where
  self: "reach_group get ns g g"
| sub: "get ns g = Inr cr \<Longrightarrow> c \<in> set (subgroups cr) \<Longrightarrow> reach_group get ns c h
        \<Longrightarrow> reach_group get ns g h"

text \<open>The same with the names of \<open>V\<close> forbidden on the way: what one recursive call explores.\<close>

inductive reach_avoiding :: "kget \<Rightarrow> string \<Rightarrow> string set \<Rightarrow> string \<Rightarrow> string \<Rightarrow> bool"
  for get ns V where
  av_self: "g \<notin> V \<Longrightarrow> reach_avoiding get ns V g g"
| av_sub: "g \<notin> V \<Longrightarrow> get ns g = Inr cr \<Longrightarrow> c \<in> set (subgroups cr) \<Longrightarrow> reach_avoiding get ns V c h
        \<Longrightarrow> reach_avoiding get ns V g h"

lemma reach_avoiding_start: "reach_avoiding get ns V g h \<Longrightarrow> g \<notin> V"
  by (induction rule: reach_avoiding.induct) auto

lemma reach_avoiding_anti: "reach_avoiding get ns V g h \<Longrightarrow> W \<subseteq> V \<Longrightarrow> reach_avoiding get ns W g h"
  by (induction rule: reach_avoiding.induct) (auto intro: reach_avoiding.intros)

lemma reach_avoiding_empty: "reach_avoiding get ns {} g h \<longleftrightarrow> reach_group get ns g h"
proof
  show "reach_avoiding get ns {} g h \<Longrightarrow> reach_group get ns g h"
    by (induction rule: reach_avoiding.induct) (auto intro: reach_group.intros)
  show "reach_group get ns g h \<Longrightarrow> reach_avoiding get ns {} g h"
    by (induction rule: reach_group.induct) (auto intro: reach_avoiding.intros)
qed

text \<open>A walk that may pass through \<open>g\<close> can be cut at its last visit of \<open>g\<close>.\<close>

lemma reach_avoiding_cut:
  assumes "reach_avoiding get ns V c h"
  shows "reach_avoiding get ns (insert g V) c h \<or> h = g \<or>
         (\<exists>cr c'. get ns g = Inr cr \<and> c' \<in> set (subgroups cr) \<and> reach_avoiding get ns (insert g V) c' h)"
  using assms
proof (induction rule: reach_avoiding.induct)
  case (av_self a)
  then show ?case by (cases "a = g") (auto intro: reach_avoiding.intros)
next
  case (av_sub a cr c h)
  then show ?case by (cases "a = g") (auto intro: reach_avoiding.intros)
qed

lemma reach_avoiding_unfold:
  "reach_avoiding get ns V g h \<longleftrightarrow>
     g \<notin> V \<and> (h = g \<or> (\<exists>cr c. get ns g = Inr cr \<and> c \<in> set (subgroups cr)
                              \<and> reach_avoiding get ns (insert g V) c h))"
  (is "?L \<longleftrightarrow> ?R")
proof
  assume L: ?L
  then have "g \<notin> V" by (rule reach_avoiding_start)
  moreover from reach_avoiding_cut [OF L, of g]
  have "h = g \<or> (\<exists>cr c. get ns g = Inr cr \<and> c \<in> set (subgroups cr)
          \<and> reach_avoiding get ns (insert g V) c h)"
    by (auto dest: reach_avoiding_start)
  ultimately show ?R by blast
next
  assume ?R
  then show ?L
    by (auto intro: reach_avoiding.intros dest: reach_avoiding_anti [where W = V])
qed

section \<open>The recursion path is restored\<close>

lemma fetch_visited_restored:
  "fetchUniqueGroupMembers fuel get g ns vis = Some (r, vis') \<Longrightarrow> vis' = vis"
  "fetchSubGroups fuel get gs ns vis ms = Some (r, vis') \<Longrightarrow> vis' = vis"
proof (induction fuel get g ns vis and fuel get gs ns vis ms arbitrary: r vis' and r vis'
    rule: fetchUniqueGroupMembers_fetchSubGroups.induct)
  case (2 fuel get g ns vis)
  show ?case
  proof (cases "g \<in> set vis")
    case True
    with "2.prems" show ?thesis by simp
  next
    case False
    then show ?thesis
      using "2.prems" "2.IH" [OF False refl]
      by (fastforce simp: Let_def split: sum.splits option.splits)
  qed
next
  case (4 fuel get sg rest ns vis ms)
  from "4.prems" obtain q vis1 where s: "fetchUniqueGroupMembers fuel get sg ns vis = Some (q, vis1)"
    by (auto split: option.splits)
  then have v: "vis1 = vis" by (rule "4.IH"(1))
  show ?case
  proof (cases q)
    case (Inl e)
    with "4.prems" s v show ?thesis by simp
  next
    case (Inr sub)
    with "4.prems" s have "fetchSubGroups fuel get rest ns vis1 (ms @ sub) = Some (r, vis')" by simp
    with "4.IH"(2) [OF s [unfolded Inr] refl refl] v show ?thesis by simp
  qed
qed simp_all

section \<open>What a call returns\<close>

text \<open>The users of the groups a call explores, and that all of them could be read.\<close>

definition explored_users :: "kget \<Rightarrow> string \<Rightarrow> string set \<Rightarrow> string \<Rightarrow> string set" where
  "explored_users get ns V g = {u. \<exists>h cr. reach_avoiding get ns V g h \<and> get ns h = Inr cr \<and> u \<in> set (users cr)}"

definition explored_ok :: "kget \<Rightarrow> string \<Rightarrow> string set \<Rightarrow> string \<Rightarrow> bool" where
  "explored_ok get ns V g \<longleftrightarrow> (\<forall>h. reach_avoiding get ns V g h \<longrightarrow> is_ok (get ns h))"

lemma explored_visited:
  "g \<in> V \<Longrightarrow> explored_users get ns V g = {}" "g \<in> V \<Longrightarrow> explored_ok get ns V g"
  by (auto simp: explored_users_def explored_ok_def dest: reach_avoiding_start)

lemma explored_users_step:
  "g \<notin> V \<Longrightarrow> get ns g = Inr cr \<Longrightarrow>
   explored_users get ns V g = set (users cr) \<union> (\<Union>c \<in> set (subgroups cr). explored_users get ns (insert g V) c)"
  by (auto simp: explored_users_def reach_avoiding_unfold [of get ns V g])

lemma explored_ok_step:
  "g \<notin> V \<Longrightarrow> get ns g = Inr cr \<Longrightarrow>
   explored_ok get ns V g \<longleftrightarrow> (\<forall>c \<in> set (subgroups cr). explored_ok get ns (insert g V) c)"
  by (auto simp: explored_ok_def reach_avoiding_unfold [of get ns V g])

lemma fetch_result:
  "fetchUniqueGroupMembers fuel get g ns vis = Some (Inr ms, vis') \<Longrightarrow>
     set ms = explored_users get ns (set vis) g \<and> explored_ok get ns (set vis) g"
  "fetchSubGroups fuel get gs ns vis acc = Some (Inr ms, vis') \<Longrightarrow>
     set ms = set acc \<union> (\<Union>c \<in> set gs. explored_users get ns (set vis) c)
     \<and> (\<forall>c \<in> set gs. explored_ok get ns (set vis) c)"
proof (induction fuel get g ns vis and fuel get gs ns vis acc arbitrary: ms vis' and ms vis'
    rule: fetchUniqueGroupMembers_fetchSubGroups.induct)
  case (2 fuel get g ns vis)
  show ?case
  proof (cases "g \<in> set vis")
    case True
    with "2.prems" show ?thesis by (simp add: explored_visited)
  next
    case False
    with "2.prems" obtain cr vis2 where cr: "get ns g = Inr cr"
      and sub: "fetchSubGroups fuel get (subgroups cr) ns (g # vis) (users cr) = Some (Inr ms, vis2)"
      by (auto simp: Let_def split: sum.splits option.splits)
    from "2.IH" [OF False refl cr sub] False cr show ?thesis
      by (simp add: explored_users_step explored_ok_step)
  qed
next
  case (4 fuel get sg rest ns vis acc)
  from "4.prems" obtain sub vis1 where s: "fetchUniqueGroupMembers fuel get sg ns vis = Some (Inr sub, vis1)"
    and r: "fetchSubGroups fuel get rest ns vis1 (acc @ sub) = Some (Inr ms, vis')"
    by (auto split: option.splits sum.splits prod.splits)
  from s have v: "vis1 = vis" by (rule fetch_visited_restored(1))
  from "4.IH"(1) [OF s] "4.IH"(2) [OF s refl refl r] show ?case
    unfolding v by auto
qed auto

lemma fetch_error:
  "fetchUniqueGroupMembers fuel get g ns vis = Some (Inl e, vis') \<Longrightarrow>
     \<exists>h. reach_avoiding get ns (set vis) g h \<and> get ns h = Inl e"
  "fetchSubGroups fuel get gs ns vis acc = Some (Inl e, vis') \<Longrightarrow>
     \<exists>c \<in> set gs. \<exists>h. reach_avoiding get ns (set vis) c h \<and> get ns h = Inl e"
proof (induction fuel get g ns vis and fuel get gs ns vis acc arbitrary: vis' and vis'
    rule: fetchUniqueGroupMembers_fetchSubGroups.induct)
  case (2 fuel get g ns vis)
  show ?case
  proof (cases "g \<in> set vis")
    case True
    with "2.prems" show ?thesis by simp
  next
    case False
    show ?thesis
    proof (cases "get ns g")
      case (Inl err)
      with False "2.prems" have "err = e" by (simp add: Let_def)
      with Inl False show ?thesis by (auto intro: reach_avoiding.av_self)
    next
      case (Inr cr)
      with False "2.prems" obtain vis2 where
        sub: "fetchSubGroups fuel get (subgroups cr) ns (g # vis) (users cr) = Some (Inl e, vis2)"
        by (auto simp: Let_def split: option.splits)
      from "2.IH" [OF False refl Inr sub] Inr False show ?thesis
        by (auto simp: reach_avoiding_unfold [of get ns "set vis" g])
    qed
  qed
next
  case (4 fuel get sg rest ns vis acc)
  show ?case
  proof (cases "fetchUniqueGroupMembers fuel get sg ns vis")
    case None
    with "4.prems" show ?thesis by simp
  next
    case (Some p)
    obtain r vis1 where p: "p = (r, vis1)" by (cases p)
    have s: "fetchUniqueGroupMembers fuel get sg ns vis = Some (r, vis1)" using Some p by simp
    then have v: "vis1 = vis" by (rule fetch_visited_restored(1))
    show ?thesis
    proof (cases r)
      case (Inl err)
      with "4.prems" s have "err = e" by simp
      with "4.IH"(1) s Inl show ?thesis by auto
    next
      case (Inr sub)
      with "4.prems" s have "fetchSubGroups fuel get rest ns vis1 (acc @ sub) = Some (Inl e, vis')"
        by simp
      with "4.IH"(2) [OF s [unfolded Inr] refl refl] v show ?thesis by auto
    qed
  qed
qed auto

section \<open>Termination\<close>

text \<open>
  Only names that can be read are added to the path, and a name is never added twice: the
  recursion is no deeper than the number of readable groups off the path, plus one call that
  fails or finds a name on the path.
\<close>

lemma fetchSubGroups_total:
  assumes "\<And>c. fetchUniqueGroupMembers fuel get c ns vis \<noteq> None"
  shows "fetchSubGroups fuel get gs ns vis acc \<noteq> None"
proof (induction gs arbitrary: acc)
  case Nil
  show ?case by simp
next
  case (Cons c gs)
  from assms [of c] obtain r vis' where s: "fetchUniqueGroupMembers fuel get c ns vis = Some (r, vis')"
    by (cases "fetchUniqueGroupMembers fuel get c ns vis") auto
  then have "vis' = vis" by (rule fetch_visited_restored(1))
  with s Cons.IH show ?case by (cases r) auto
qed

lemma fetch_enough_fuel:
  assumes "finite U" and "\<And>g. is_ok (get ns g) \<Longrightarrow> g \<in> U"
  shows "card (U - set vis) < fuel \<Longrightarrow> fetchUniqueGroupMembers fuel get g ns vis \<noteq> None"
proof (induction fuel arbitrary: g vis)
  case 0
  then show ?case by simp
next
  case (Suc fuel)
  show ?case
  proof (cases "g \<in> set vis \<or> \<not> is_ok (get ns g)")
    case True
    then show ?thesis by (auto simp: Let_def elim: not_is_okE)
  next
    case False
    then obtain cr where cr: "get ns g = Inr cr" and new: "g \<notin> set vis"
      by (auto simp: result_iff)
    then have "g \<in> U - set vis" using assms(2) [of g] by simp
    then have "card (U - set (g # vis)) < card (U - set vis)"
      using assms(1) by (intro psubset_card_mono) auto
    with Suc.prems have "card (U - set (g # vis)) < fuel" by simp
    then have "fetchSubGroups fuel get (subgroups cr) ns (g # vis) (users cr) \<noteq> None"
      by (intro fetchSubGroups_total Suc.IH)
    with cr new show ?thesis by (auto simp: Let_def)
  qed
qed

section \<open>Deduplication\<close>

text \<open>The reference: keep the first occurrence of every member.\<close>

lemma remdups_snoc: "remdups (xs @ [x]) = filter (\<lambda>y. y \<noteq> x) (remdups xs) @ [x]"
  by (induction xs) auto

lemma dedup_loop_eq:
  "dedup_loop seen acc xs = acc @ rev (remdups (rev (filter (\<lambda>x. x \<notin> set seen) xs)))"
proof (induction xs arbitrary: seen acc)
  case Nil
  show ?case by simp
next
  case (Cons x xs)
  then show ?case
    by (simp add: remdups_snoc rev_filter remdups_filter conj_commute)
qed

lemma deduplicateMembers_eq: "deduplicateMembers xs = rev (remdups (rev xs))"
  by (simp add: deduplicateMembers_def dedup_loop_eq)

lemma set_deduplicateMembers [simp]: "set (deduplicateMembers xs) = set xs"
  by (simp add: deduplicateMembers_eq)

lemma distinct_deduplicateMembers [simp]: "distinct (deduplicateMembers xs)"
  by (simp add: deduplicateMembers_eq)

section \<open>Main results\<close>

definition all_users :: "kget \<Rightarrow> string \<Rightarrow> string \<Rightarrow> string set" where
  "all_users get ns g = {u. \<exists>h cr. reach_group get ns g h \<and> get ns h = Inr cr \<and> u \<in> set (users cr)}"

lemma explored_users_all: "explored_users get ns {} g = all_users get ns g"
  by (simp add: explored_users_def all_users_def reach_avoiding_empty)

lemma explored_ok_all: "explored_ok get ns {} g \<longleftrightarrow> (\<forall>h. reach_group get ns g h \<longrightarrow> is_ok (get ns h))"
  by (simp add: explored_ok_def reach_avoiding_empty)

text \<open>
  C2: With finitely many Group objects in the namespace, the recursive collection of members always
  returns, cyclic group references included, and leaves the recursion path empty.  If every group
  reachable from the root can be read, the deduplicated result lists exactly the users of the
  reachable groups, each once; otherwise it is the error of a reachable group that cannot be read.
\<close>

theorem fetch_members_correct:
  assumes "finite U" and "\<And>h. is_ok (get ns h) \<Longrightarrow> h \<in> U" and "card U < fuel"
  shows "if \<forall>h. reach_group get ns g h \<longrightarrow> is_ok (get ns h)
         then \<exists>ms. fetchUniqueGroupMembers fuel get g ns [] = Some (Inr ms, [])
                 \<and> set (deduplicateMembers ms) = all_users get ns g \<and> distinct (deduplicateMembers ms)
         else \<exists>h e. reach_group get ns g h \<and> get ns h = Inl e
                 \<and> fetchUniqueGroupMembers fuel get g ns [] = Some (Inl e, [])"
proof -
  have "fetchUniqueGroupMembers fuel get g ns [] \<noteq> None"
    by (rule fetch_enough_fuel [where get = get and ns = ns, OF assms(1,2)]) (simp_all add: assms(3))
  then obtain r vis where f: "fetchUniqueGroupMembers fuel get g ns [] = Some (r, vis)" by auto
  then have vis: "vis = []" by (rule fetch_visited_restored(1))
  show ?thesis
  proof (cases r)
    case (Inl e)
    with f obtain h where "reach_group get ns g h" "get ns h = Inl e"
      using fetch_error(1) [of fuel get g ns "[]" e vis] by (auto simp: reach_avoiding_empty)
    moreover from this have "\<not> (\<forall>h. reach_group get ns g h \<longrightarrow> is_ok (get ns h))" by auto
    ultimately show ?thesis using f vis Inl by auto
  next
    case (Inr ms)
    with f have "set ms = all_users get ns g" "\<forall>h. reach_group get ns g h \<longrightarrow> is_ok (get ns h)"
      using fetch_result(1) [of fuel get g ns "[]" ms vis]
      by (simp_all add: explored_users_all explored_ok_all)
    with f vis Inr show ?thesis by simp
  qed
qed

text \<open>Two groups that name each other, and a third name nobody defines.\<close>

definition sample_group :: "string \<Rightarrow> string list \<Rightarrow> string list \<Rightarrow> Group" where
  "sample_group n gs us =
     \<lparr>g_Name = n, g_Namespace = ''ns'', g_UID = ''uid-'' @ n, g_Generation = 1,
      g_DeletionTimestamp = None, g_Finalizers = [], g_OwnerReferences = [],
      g_Spec = \<lparr>GroupName = n, spec_Members = \<lparr>mem_Groups = gs, mem_Users = us\<rparr>, Backends = []\<rparr>,
      g_Status = \<lparr>ReconciledUsers = [], Conditions = [], LastAppliedGeneration = 0, BackendsStatus = []\<rparr>\<rparr>"

definition sample_get :: kget where
  "sample_get ns g =
     (if g = ''a'' then Inr (sample_group ''a'' [''b''] [''u1'', ''u2''])
      else if g = ''b'' then Inr (sample_group ''b'' [''a''] [''u2'', ''u3''])
      else Inl (NotFound g))"

lemma sample_get_ok: "is_ok (sample_get ns h) \<Longrightarrow> h \<in> {''a'', ''b''}"
  by (auto simp: sample_get_def split: if_splits)

theorem fetch_members_correct_witness:
  "fetchUniqueGroupMembers 3 sample_get ''a'' ''ns'' [] = Some (Inr [''u1'', ''u2'', ''u2'', ''u3''], [])
   \<and> (if \<forall>h. reach_group sample_get ''ns'' ''a'' h \<longrightarrow> is_ok (sample_get ''ns'' h)
      then \<exists>ms. fetchUniqueGroupMembers 3 sample_get ''a'' ''ns'' [] = Some (Inr ms, [])
              \<and> set (deduplicateMembers ms) = all_users sample_get ''ns'' ''a'' \<and> distinct (deduplicateMembers ms)
      else \<exists>h e. reach_group sample_get ''ns'' ''a'' h \<and> sample_get ''ns'' h = Inl e
              \<and> fetchUniqueGroupMembers 3 sample_get ''a'' ''ns'' [] = Some (Inl e, []))"
proof (intro conjI)
  show "fetchUniqueGroupMembers 3 sample_get ''a'' ''ns'' [] = Some (Inr [''u1'', ''u2'', ''u2'', ''u3''], [])"
    by (simp add: eval_nat_numeral sample_get_def sample_group_def)
qed (rule fetch_members_correct [where U = "{''a'', ''b''}"], simp, erule sample_get_ok, simp)

end
