(* ===== verification/OwnerRefs.thy ===== *)
theory OwnerRefs
  imports Membership
begin

text \<open>
  Owner references (\<^verbatim>\<open>setOwnerReference\<close> in \<^verbatim>\<open>internal/controller/group_controller.go\<close>) and the
  interface to the API server.  A group gets one owner reference per group it names as a member;
  references of other kinds stay.  Go's sets of identifiers are lists of keys without repetition.
\<close>

section \<open>The API server\<close>

text \<open>
  Reads leave the state of the cluster alone; an update returns the object as the server stored it,
  which the client library decodes into the caller's object.
\<close>

record 'k kube =
  kGet :: "'k \<Rightarrow> kget"
  kUpdate :: "Group \<Rightarrow> 'k \<Rightarrow> Group result \<times> 'k"
  kStatusUpdate :: "Group \<Rightarrow> 'k \<Rightarrow> Group result \<times> 'k"
  kList :: "'k \<Rightarrow> string \<Rightarrow> Group list result"

section \<open>Definitions\<close>

definition owner_ref :: "Group \<Rightarrow> OwnerReference" where
  "owner_ref parent =
     \<lparr>ref_APIVersion = GroupVersion, ref_Kind = ''Group'', ref_Name = g_Name parent, ref_UID = g_UID parent,
      ref_BlockOwnerDeletion = Some True\<rparr>"

fun desiredOwnerRefs :: "kget \<Rightarrow> string \<Rightarrow> string list \<Rightarrow> OwnerReference gomap \<Rightarrow> OwnerReference gomap result" where
  "desiredOwnerRefs get ns [] acc = Inr acc"
| "desiredOwnerRefs get ns (parentGroupName # rest) acc =
     (case get ns parentGroupName of
        Inl err \<Rightarrow> Inl err
      | Inr parent \<Rightarrow> desiredOwnerRefs get ns rest (AList.update (g_UID parent) (owner_ref parent) acc))"

definition is_group_ref :: "OwnerReference \<Rightarrow> bool" where
  "is_group_ref ref \<longleftrightarrow> ref_Kind ref = ''Group'' \<and> ref_APIVersion ref = GroupVersion"

definition existingGroupOwnerRefs :: "OwnerReference list \<Rightarrow> string list" where
  "existingGroupOwnerRefs refs = remdups (map ref_UID (filter is_group_ref refs))"

definition nonGroupOwnerRefs :: "OwnerReference list \<Rightarrow> OwnerReference list" where
  "nonGroupOwnerRefs refs = filter (\<lambda>ref. \<not> is_group_ref ref) refs"

definition needsUpdate :: "OwnerReference gomap \<Rightarrow> string list \<Rightarrow> bool" where
  "needsUpdate desired existing \<longleftrightarrow>
     (if length desired \<noteq> length existing then True else list_ex (\<lambda>uid. uid \<notin> set existing) (map fst desired))"

definition newOwnerRefs :: "iter \<Rightarrow> OwnerReference gomap \<Rightarrow> OwnerReference list \<Rightarrow> OwnerReference list" where
  "newOwnerRefs it desired refs =
     nonGroupOwnerRefs refs @ List.map_filter (map_of desired) (it (map fst desired))"

definition setOwnerReference :: "'k kube \<Rightarrow> iter \<Rightarrow> Group \<Rightarrow> 'k \<Rightarrow> Group result \<times> 'k" where
  "setOwnerReference api it g k =
     (case desiredOwnerRefs (kGet api k) (g_Namespace g) (subgroups g) [] of
        Inl err \<Rightarrow> (Inl err, k)
      | Inr desired \<Rightarrow>
          (if \<not> needsUpdate desired (existingGroupOwnerRefs (g_OwnerReferences g)) then (Inr g, k)
           else kUpdate api (g\<lparr>g_OwnerReferences := newOwnerRefs it desired (g_OwnerReferences g)\<rparr>) k))"

section \<open>The comparison decides equality of the sets\<close>

lemma needsUpdate_iff:
  assumes "wf_gomap desired" and "distinct existing"
  shows "needsUpdate desired existing \<longleftrightarrow> fst ` set desired \<noteq> set existing"
proof -
  have len: "length desired = card (fst ` set desired)" "length existing = card (set existing)"
    using assms distinct_card [of "map fst desired"] distinct_card [of existing] by (simp_all add: wf_gomap_def)
  show ?thesis
  proof (cases "length desired = length existing")
    case True
    with len have "fst ` set desired \<subseteq> set existing \<longleftrightarrow> fst ` set desired = set existing"
      by (metis List.finite_set card_subset_eq equalityD1)
    with True show ?thesis by (auto simp: needsUpdate_def list_ex_iff)
  next
    case False
    with len show ?thesis by (auto simp: needsUpdate_def)
  qed
qed

lemma wf_desired: "wf_gomap acc \<Longrightarrow> desiredOwnerRefs get ns gs acc = Inr d \<Longrightarrow> wf_gomap d"
  by (induction gs arbitrary: acc) (auto split: sum.splits, blast intro: wf_gomap_update)

text \<open>The identifiers of the groups named as members.\<close>

definition member_uids :: "kget \<Rightarrow> string \<Rightarrow> string list \<Rightarrow> string set" where
  "member_uids get ns gs = {g_UID p | p n. n \<in> set gs \<and> get ns n = Inr p}"

lemma member_uids_simps [simp]:
  "member_uids get ns [] = {}"
  "get ns n = Inr p \<Longrightarrow> member_uids get ns (n # gs) = insert (g_UID p) (member_uids get ns gs)"
  by (auto simp: member_uids_def)

lemma keys_desired: "desiredOwnerRefs get ns gs acc = Inr d \<Longrightarrow> fst ` set d = fst ` set acc \<union> member_uids get ns gs"
proof (induction gs arbitrary: acc)
  case (Cons n gs)
  then obtain p where p: "get ns n = Inr p" "desiredOwnerRefs get ns gs (AList.update (g_UID p) (owner_ref p) acc) = Inr d"
    by (auto split: sum.splits)
  from Cons.IH [OF p(2)] p(1) show ?case by (simp add: dom_update)
qed simp

lemma refs_desired:
  "(\<forall>(u, r) \<in> set acc. is_group_ref r \<and> ref_UID r = u) \<Longrightarrow> desiredOwnerRefs get ns gs acc = Inr d \<Longrightarrow>
   \<forall>(u, r) \<in> set d. is_group_ref r \<and> ref_UID r = u"
proof (induction gs arbitrary: acc)
  case (Cons n gs)
  then obtain p where p: "desiredOwnerRefs get ns gs (AList.update (g_UID p) (owner_ref p) acc) = Inr d"
    by (auto split: sum.splits)
  have "\<forall>(u, r) \<in> set (AList.update (g_UID p) (owner_ref p) acc). is_group_ref r \<and> ref_UID r = u"
    using Cons.prems(1) by (induction acc) (auto simp: is_group_ref_def owner_ref_def)
  from Cons.IH [OF this p] show ?case .
qed simp

lemma map_filter_values:
  assumes "wf_gomap d" and "go_range it"
  shows "set (List.map_filter (map_of d) (it (map fst d))) = snd ` set d"
proof -
  have "set (it (map fst d)) = fst ` set d" using assms go_range_set by blast
  moreover have "map_of d u = Some r \<longleftrightarrow> (u, r) \<in> set d" for u r
    using assms(1) by (simp add: wf_gomap_def map_of_eq_Some_iff)
  ultimately show ?thesis by (force simp: List.map_filter_def)
qed

lemma new_refs:
  assumes "desiredOwnerRefs get ns gs [] = Inr d" and "go_range it"
  shows "nonGroupOwnerRefs (newOwnerRefs it d refs) = nonGroupOwnerRefs refs"
    and "set (existingGroupOwnerRefs (newOwnerRefs it d refs)) = member_uids get ns gs"
proof -
  let ?new = "List.map_filter (map_of d) (it (map fst d))"
  have set: "set ?new = snd ` set d" using map_filter_values [OF wf_desired [OF _ assms(1)] assms(2)] by simp
  have grp: "\<forall>(u, r) \<in> set d. is_group_ref r \<and> ref_UID r = u" using refs_desired [OF _ assms(1)] by simp
  then have "\<forall>r \<in> set ?new. is_group_ref r" unfolding set by auto
  then show "nonGroupOwnerRefs (newOwnerRefs it d refs) = nonGroupOwnerRefs refs"
    by (simp add: newOwnerRefs_def nonGroupOwnerRefs_def)
  have "set (existingGroupOwnerRefs (newOwnerRefs it d refs)) = ref_UID ` {r \<in> snd ` set d. is_group_ref r}"
    by (auto simp: existingGroupOwnerRefs_def newOwnerRefs_def nonGroupOwnerRefs_def set)
  also have "\<dots> = fst ` set d" using grp by force
  also have "\<dots> = member_uids get ns gs" using keys_desired [OF assms(1)] by simp
  finally show "set (existingGroupOwnerRefs (newOwnerRefs it d refs)) = member_uids get ns gs" .
qed

section \<open>Main result\<close>

text \<open>
  C13: \<^verbatim>\<open>setOwnerReference\<close> fails only when a group named as a member cannot be read or the update fails.
  When it succeeds, the Group owner references of the object are exactly those of the groups it
  names as members and its other owner references are kept in order; and it writes to the API
  server only when the set of Group owners has to change.
\<close>

theorem set_owner_reference:
  assumes "go_range it"
    and "\<And>h k h' k'. kUpdate api h k = (Inr h', k') \<Longrightarrow> g_OwnerReferences h' = g_OwnerReferences h"
    and "setOwnerReference api it g k = (Inr g', k')"
  shows "set (existingGroupOwnerRefs (g_OwnerReferences g')) = member_uids (kGet api k) (g_Namespace g) (subgroups g) \<and>
         nonGroupOwnerRefs (g_OwnerReferences g') = nonGroupOwnerRefs (g_OwnerReferences g) \<and>
         (set (existingGroupOwnerRefs (g_OwnerReferences g)) = member_uids (kGet api k) (g_Namespace g) (subgroups g) \<longrightarrow>
            g' = g \<and> k' = k)"
proof -
  let ?old = "existingGroupOwnerRefs (g_OwnerReferences g)" and ?uids = "member_uids (kGet api k) (g_Namespace g) (subgroups g)"
  from assms(3) obtain d where d: "desiredOwnerRefs (kGet api k) (g_Namespace g) (subgroups g) [] = Inr d"
    by (auto simp: setOwnerReference_def split: sum.splits)
  have "needsUpdate d ?old \<longleftrightarrow> fst ` set d \<noteq> set ?old"
    by (rule needsUpdate_iff) (use wf_desired [OF _ d] in \<open>auto simp: existingGroupOwnerRefs_def\<close>)
  with keys_desired [OF d] have iff: "needsUpdate d ?old \<longleftrightarrow> set ?old \<noteq> ?uids" by auto
  show ?thesis
  proof (cases "needsUpdate d ?old")
    case True
    with assms(3) d have "kUpdate api (g\<lparr>g_OwnerReferences := newOwnerRefs it d (g_OwnerReferences g)\<rparr>) k = (Inr g', k')"
      by (simp add: setOwnerReference_def)
    from assms(2) [OF this] new_refs [OF d assms(1)] True iff show ?thesis by simp
  next
    case False
    with assms(3) d have "g' = g" "k' = k" by (simp_all add: setOwnerReference_def)
    with False iff show ?thesis by simp
  qed
qed

text \<open>A cluster that stores every object it is given.\<close>

type_synonym demo_cluster = "((string \<times> string) \<times> Group) list"

definition demo_kube :: "demo_cluster kube" where
  "demo_kube =
     \<lparr>kGet = \<lambda>k ns n. (case map_of k (ns, n) of None \<Rightarrow> Inl (NotFound n) | Some g \<Rightarrow> Inr g),
      kUpdate = \<lambda>g k. (Inr g, AList.update (g_Namespace g, g_Name g) g k),
      kStatusUpdate = \<lambda>g k. (Inr g, AList.update (g_Namespace g, g_Name g) g k),
      kList = \<lambda>k n. Inr (filter (\<lambda>g. n \<in> set (subgroups g)) (map snd k))\<rparr>"

theorem set_owner_reference_witness:
  "\<exists>g' k'. setOwnerReference demo_kube rev (sample_group ''a'' [''b''] []) [((''ns'', ''b''), sample_group ''b'' [] [])] = (Inr g', k') \<and>
     set (existingGroupOwnerRefs (g_OwnerReferences g')) = {''uid-b''}"
proof -
  let ?g = "sample_group ''a'' [''b''] []" and ?k = "[((''ns'', ''b''), sample_group ''b'' [] [])]"
  have "\<exists>g' k'. setOwnerReference demo_kube rev ?g ?k = (Inr g', k')"
    by (simp add: setOwnerReference_def demo_kube_def sample_group_def)
  then obtain g' k' where run: "setOwnerReference demo_kube rev ?g ?k = (Inr g', k')" by blast
  have "member_uids (kGet demo_kube ?k) (g_Namespace ?g) (subgroups ?g) = {''uid-b''}"
    by (simp add: demo_kube_def sample_group_def)
  with set_owner_reference [OF go_range_rev _ run] run show ?thesis
    by (auto simp: demo_kube_def)
qed

end
