(* ===== verification/Reconcile.thy ===== *)
theory Reconcile
  imports Teams Users OwnerRefs Ldap
begin

text \<open>
  The reconciler (\<^verbatim>\<open>internal/controller/group_controller.go\<close>): \<^verbatim>\<open>Reconcile\<close>, split along its parts,
  and the mapping of a changed group to the groups that name it.  The surroundings are the record
  \<open>genv\<close>: the API server, the LDAP client, the cache, \<^verbatim>\<open>clients.New\<close> on the configured backends, the
  regular-expression compiler and the name patterns, the conversions of \<^verbatim>\<open>MapToStruct\<close>, the order
  in which maps are visited, and the fuel of the member collection.  The state is one component per
  neighbour.  Logging is left out.
\<close>

section \<open>Surroundings and state\<close>

record ('k, 'l, 'c, 'b) genv =
  e_kube :: "'k kube"
  e_ldap :: "string \<Rightarrow> 'l \<Rightarrow> goval gomap result \<times> 'l"
  e_cache :: "'c cache"
  e_new :: "string \<Rightarrow> string \<Rightarrow> 'b client result"
  e_compile :: compiler
  e_Pattern :: "PatternEntry list gomap"
  e_conv :: env
  e_iter :: iter
  e_fuel :: nat

record ('k, 'l, 'c, 'b) world =
  w_kube :: 'k
  w_ldap :: 'l
  w_cache :: 'c
  w_backend :: 'b

definition groupFinalizer :: string where
  "groupFinalizer = ''operator.dataverse.redhat.com/finalizer''"

section \<open>One backend\<close>

text \<open>
  How a turn of the loop over the backends ends: with success, with an error that is recorded in the
  status (\<^verbatim>\<open>continue\<close>), or with a return from \<^verbatim>\<open>Reconcile\<close> (a failed addition or removal of
  members, or a panic).
\<close>

datatype outcome = Succeeded | Failed gerror | Aborted gerror

definition fail :: "gerror \<Rightarrow> outcome" where
  "fail e = (if is_panic e then Aborted e else Failed e)"

text \<open>The calls that change the membership of the team.\<close>

definition apply_changes ::
    "'b client \<Rightarrow> string \<Rightarrow> string list \<Rightarrow> string list \<Rightarrow> 'b \<Rightarrow> gerror option \<times> 'b" where
  "apply_changes cl teamID usersToAdd usersToRemove b =
     (case (if 0 < length usersToAdd then AddUserToTeam cl teamID usersToAdd b else (None, b)) of
        (Some err, b') \<Rightarrow> (Some err, b')
      | (None, b') \<Rightarrow>
          (if 0 < length usersToRemove then RemoveUserFromTeam cl teamID usersToRemove b' else (None, b')))"

text \<open>From the membership listing on.\<close>

definition sync_members ::
    "('k, 'l, 'c, 'b) genv \<Rightarrow> LDAPUser gomap \<Rightarrow> string list \<Rightarrow> Backend \<Rightarrow> 'b client \<Rightarrow> string \<Rightarrow> 'c \<times> 'b
       \<Rightarrow> outcome \<times> 'c \<times> 'b" where
  "sync_members E ldap uniqueMembers be cl teamID = (\<lambda>(c, b).
     case FetchTeamMembersByTeamID cl teamID b of
       (Inl err, b1) \<Rightarrow> (fail err, c, b1)
     | (Inr members, b1) \<Rightarrow>
         (case processUsers (e_cache E) (e_iter E) ldap uniqueMembers members (be_Name be) (be_Type be) c of
            (Inl err, c1) \<Rightarrow> (fail err, c1, b1)
          | (Inr (usersToAdd, usersToRemove), c1) \<Rightarrow>
              (case apply_changes cl teamID usersToAdd usersToRemove b1 of
                 (Some err, b2) \<Rightarrow> (Aborted err, c1, b2)
               | (None, b2) \<Rightarrow> (Succeeded, c1, b2))))"

definition reconcile_backend ::
    "('k, 'l, 'c, 'b) genv \<Rightarrow> string \<Rightarrow> LDAPUser gomap \<Rightarrow> string list \<Rightarrow> Backend \<Rightarrow> 'c \<times> 'b \<Rightarrow> outcome \<times> 'c \<times> 'b" where
  "reconcile_backend E groupName ldap uniqueMembers be = (\<lambda>(c, b).
     case e_new E (be_Name be) (be_Type be) of
       Inl err \<Rightarrow> (fail err, c, b)
     | Inr cl \<Rightarrow>
         (case fetchOrCreateTeam (e_compile E) (e_Pattern E) (e_cache E) cl groupName (be_Name be) (be_Type be) (c, b) of
            (Inl err, s) \<Rightarrow> (fail err, s)
          | (Inr teamID, s) \<Rightarrow>
              (case createUsersInBackendAndCache (e_cache E) cl ldap (be_Name be) (be_Type be) uniqueMembers s of
                 (Some err, s') \<Rightarrow> (fail err, s')
               | (None, s') \<Rightarrow> sync_members E ldap uniqueMembers be cl teamID s')))"

section \<open>All backends\<close>

text \<open>\<open>backendErrors\<close> is keyed by the type of the backend.\<close>

fun reconcile_backends ::
    "('k, 'l, 'c, 'b) genv \<Rightarrow> string \<Rightarrow> LDAPUser gomap \<Rightarrow> string list \<Rightarrow> Backend list \<Rightarrow> string gomap \<times> bool \<Rightarrow> 'c \<times> 'b
       \<Rightarrow> (gerror + string gomap \<times> bool) \<times> 'c \<times> 'b" where
  "reconcile_backends E groupName ldap uniqueMembers [] errs s = (Inr errs, s)"
| "reconcile_backends E groupName ldap uniqueMembers (be # bes) (backendErrors, isError) s =
     (case reconcile_backend E groupName ldap uniqueMembers be s of
        (Aborted err, s') \<Rightarrow> (Inl err, s')
      | (Failed err, s') \<Rightarrow>
          reconcile_backends E groupName ldap uniqueMembers bes
            (AList.update (be_Type be) (Error err) backendErrors, True) s'
      | (Succeeded, s') \<Rightarrow>
          reconcile_backends E groupName ldap uniqueMembers bes (backendErrors, isError) s')"

definition backend_status :: "string gomap \<Rightarrow> Backend \<Rightarrow> BackendStatus" where
  "backend_status backendErrors be =
     (case map_of backendErrors (be_Type be) of
        Some msg \<Rightarrow> \<lparr>bs_Name = be_Name be, bs_Type = be_Type be, bs_Status = False, bs_Message = msg\<rparr>
      | None \<Rightarrow> \<lparr>bs_Name = be_Name be, bs_Type = be_Type be, bs_Status = True, bs_Message = ''Successful''\<rparr>)"

section \<open>The LDAP data of the members\<close>

fun fetch_ldap_data ::
    "('k, 'l, 'c, 'b) genv \<Rightarrow> string list \<Rightarrow> LDAPUser gomap \<Rightarrow> 'l \<Rightarrow> LDAPUser gomap \<times> 'l" where
  "fetch_ldap_data E [] acc l = (acc, l)"
| "fetch_ldap_data E (user # rest) acc l =
     (case e_ldap E user l of
        (Inl err, l') \<Rightarrow> fetch_ldap_data E rest acc l'
      | (Inr data, l') \<Rightarrow>
          (case ldap_user_of (e_conv E) (e_iter E) data of
             Inl err \<Rightarrow> fetch_ldap_data E rest acc l'
           | Inr ldapUser \<Rightarrow> fetch_ldap_data E rest (AList.update user ldapUser acc) l'))"

section \<open>Reconcile\<close>

text \<open>A group that is being deleted.\<close>

definition reconcile_deletion ::
    "('k, 'l, 'c, 'b) genv \<Rightarrow> Group \<Rightarrow> ('k, 'l, 'c, 'b) world \<Rightarrow> gerror option \<times> ('k, 'l, 'c, 'b) world" where
  "reconcile_deletion E g w =
     (if groupFinalizer \<in> set (g_Finalizers g) then
        (case deleteBackendsTeam (e_compile E) (e_Pattern E) (e_cache E) (e_new E) (GroupName (g_Spec g)) (Backends (g_Spec g))
                (w_cache w, w_backend w) of
           (Some err, c, b) \<Rightarrow> (Some err, w\<lparr>w_cache := c, w_backend := b\<rparr>)
         | (None, c, b) \<Rightarrow>
             (case kUpdate (e_kube E) (g\<lparr>g_Finalizers := removeAll groupFinalizer (g_Finalizers g)\<rparr>) (w_kube w) of
                (Inl err, k) \<Rightarrow> (Some err, w\<lparr>w_cache := c, w_backend := b, w_kube := k\<rparr>)
              | (Inr _, k) \<Rightarrow> (None, w\<lparr>w_cache := c, w_backend := b, w_kube := k\<rparr>)))
      else (None, w))"

text \<open>Finalizer, owner references and the waiting condition of a live group.\<close>

definition prepare :: "('k, 'l, 'c, 'b) genv \<Rightarrow> int \<Rightarrow> Group \<Rightarrow> 'k \<Rightarrow> Group result \<times> 'k" where
  "prepare E now g k =
     (case (if groupFinalizer \<notin> set (g_Finalizers g)
            then kUpdate (e_kube E) (g\<lparr>g_Finalizers := g_Finalizers g @ [groupFinalizer]\<rparr>) k
            else (Inr g, k)) of
        (Inl err, k1) \<Rightarrow> (Inl err, k1)
      | (Inr g1, k1) \<Rightarrow>
          (case setOwnerReference (e_kube E) (e_iter E) g1 k1 of
             (Inl err, k2) \<Rightarrow> (Inl err, k2)
           | (Inr g2, k2) \<Rightarrow> kStatusUpdate (e_kube E) (SetWaiting now g2) k2))"

text \<open>
  The end of \<^verbatim>\<open>Reconcile\<close>: the status of every backend, the readiness condition, the status update
  (whose error is only logged) and the returned error.
\<close>

definition finish ::
    "('k, 'l, 'c, 'b) genv \<Rightarrow> int \<Rightarrow> Group \<Rightarrow> string gomap \<times> bool \<Rightarrow> 'k \<Rightarrow> gerror option \<times> 'k" where
  "finish E now g = (\<lambda>(backendErrors, isError) k.
     let g1 = g\<lparr>g_Status := (g_Status g)\<lparr>BackendsStatus := map (backend_status backendErrors) (Backends (g_Spec g))\<rparr>\<rparr>;
         (_, k') = kStatusUpdate (e_kube E) (UpdateStatus isError now g1) k
     in (if 0 < length backendErrors then Some (GoErr ''failed to reconcile all backends'') else None, k'))"

text \<open>From the collected members on.\<close>

definition reconcile_members ::
    "('k, 'l, 'c, 'b) genv \<Rightarrow> int \<Rightarrow> Group \<Rightarrow> string list \<Rightarrow> ('k, 'l, 'c, 'b) world \<Rightarrow> gerror option \<times> ('k, 'l, 'c, 'b) world" where
  "reconcile_members E now g allMembers w =
     (let uniqueMembers = deduplicateMembers allMembers;
          g1 = g\<lparr>g_Status := (g_Status g)\<lparr>ReconciledUsers := uniqueMembers\<rparr>\<rparr>;
          (ldap, l) = fetch_ldap_data E uniqueMembers [] (w_ldap w)
      in case reconcile_backends E (GroupName (g_Spec g1)) ldap uniqueMembers (Backends (g_Spec g1)) ([], False)
                (w_cache w, w_backend w) of
           (Inl err, c, b) \<Rightarrow> (Some err, w\<lparr>w_ldap := l, w_cache := c, w_backend := b\<rparr>)
         | (Inr errs, c, b) \<Rightarrow>
             (let (r, k) = finish E now g1 errs (w_kube w)
              in (r, w\<lparr>w_ldap := l, w_cache := c, w_backend := b, w_kube := k\<rparr>)))"

fun IgnoreNotFound :: "gerror \<Rightarrow> gerror option" where
  "IgnoreNotFound (NotFound s) = None"
| "IgnoreNotFound e = Some e"

text \<open>
  \<open>None\<close> is running out of fuel in the collection of the members; \<open>now1\<close> and \<open>now2\<close> are the two
  readings of the clock.
\<close>

definition Reconcile ::
    "('k, 'l, 'c, 'b) genv \<Rightarrow> int \<Rightarrow> int \<Rightarrow> string \<Rightarrow> string \<Rightarrow> ('k, 'l, 'c, 'b) world
       \<Rightarrow> (gerror option \<times> ('k, 'l, 'c, 'b) world) option" where
  "Reconcile E now1 now2 namespace name w =
     (case kGet (e_kube E) (w_kube w) namespace name of
        Inl err \<Rightarrow> Some (IgnoreNotFound err, w)
      | Inr g \<Rightarrow>
          (if g_DeletionTimestamp g \<noteq> None then Some (reconcile_deletion E g w)
           else case prepare E now1 g (w_kube w) of
                  (Inl err, k) \<Rightarrow> Some (Some err, w\<lparr>w_kube := k\<rparr>)
                | (Inr g1, k) \<Rightarrow>
                    (case fetchUniqueGroupMembers (e_fuel E) (kGet (e_kube E) k) (GroupName (g_Spec g1)) (g_Namespace g1) [] of
                       None \<Rightarrow> None
                     | Some (Inl err, _) \<Rightarrow> Some (Some err, w\<lparr>w_kube := k\<rparr>)
                     | Some (Inr allMembers, _) \<Rightarrow>
                         Some (reconcile_members E now2 g1 allMembers (w\<lparr>w_kube := k\<rparr>)))))"

section \<open>Which groups a changed group wakes\<close>

text \<open>The index of \<^verbatim>\<open>SetupWithManager\<close>: the values a group is listed under.\<close>

definition indexFunc :: "Group \<Rightarrow> string list" where
  "indexFunc g = subgroups g"

definition mapFunc :: "'k kube \<Rightarrow> 'k \<Rightarrow> Group \<Rightarrow> (string \<times> string) list" where
  "mapFunc api k g =
     (case kList api k (g_Name g) of
        Inl err \<Rightarrow> []
      | Inr referencing \<Rightarrow> map (\<lambda>r. (g_Namespace r, g_Name r)) referencing)"

section \<open>What is relied on of a backend\<close>

text \<open>
  \<open>M b t\<close> is the set of members of team \<open>t\<close> in the state \<open>b\<close>: a listing shows it, an addition or a
  removal that reports success changes it for that team only.  This is required for identifiers with a
  property \<open>P\<close>, which the identifiers handed out by the backend have.
\<close>

definition team_backend :: "(string \<Rightarrow> bool) \<Rightarrow> 'b client \<Rightarrow> ('b \<Rightarrow> string \<Rightarrow> string set) \<Rightarrow> bool" where
  "team_backend P cl M \<longleftrightarrow>
     (\<forall>t b ms b'. P t \<longrightarrow> FetchTeamMembersByTeamID cl t b = (Inr ms, b') \<longrightarrow>
        wf_gomap ms \<and> fst ` set ms = M b t \<and> M b' = M b \<and> (\<forall>i \<in> fst ` set ms. P i)) \<and>
     (\<forall>t us b b'. P t \<longrightarrow> (\<forall>i \<in> set us. P i) \<longrightarrow> AddUserToTeam cl t us b = (None, b') \<longrightarrow> M b' = (M b)(t := M b t \<union> set us)) \<and>
     (\<forall>t us b b'. P t \<longrightarrow> (\<forall>i \<in> set us. P i) \<longrightarrow> RemoveUserFromTeam cl t us b = (None, b') \<longrightarrow> M b' = (M b)(t := M b t - set us))"

definition creates_teams :: "'b client \<Rightarrow> bool" where
  "creates_teams cl \<longleftrightarrow> (\<forall>t b t' b'. valid_utf8 (t_Name t) \<longrightarrow> CreateTeam cl t b = (Inr t', b') \<longrightarrow> valid_utf8 (t_ID t'))"

lemma team_backendD:
  assumes "team_backend P cl M" and "P t"
  shows "FetchTeamMembersByTeamID cl t b = (Inr ms, b') \<Longrightarrow>
      wf_gomap ms \<and> fst ` set ms = M b t \<and> M b' = M b \<and> (\<forall>i \<in> fst ` set ms. P i)"
    and "\<forall>i \<in> set us. P i \<Longrightarrow> AddUserToTeam cl t us b = (None, b') \<Longrightarrow> M b' = (M b)(t := M b t \<union> set us)"
    and "\<forall>i \<in> set us. P i \<Longrightarrow> RemoveUserFromTeam cl t us b = (None, b') \<Longrightarrow> M b' = (M b)(t := M b t - set us)"
  using assms unfolding team_backend_def by blast+

lemma team_backendI:
  assumes "\<And>t b ms b'. P t \<Longrightarrow> FetchTeamMembersByTeamID cl t b = (Inr ms, b') \<Longrightarrow>
      wf_gomap ms \<and> fst ` set ms = M b t \<and> M b' = M b \<and> (\<forall>i \<in> fst ` set ms. P i)"
    and "\<And>t us b b'. P t \<Longrightarrow> \<forall>i \<in> set us. P i \<Longrightarrow> AddUserToTeam cl t us b = (None, b') \<Longrightarrow> M b' = (M b)(t := M b t \<union> set us)"
    and "\<And>t us b b'. P t \<Longrightarrow> \<forall>i \<in> set us. P i \<Longrightarrow> RemoveUserFromTeam cl t us b = (None, b') \<Longrightarrow> M b' = (M b)(t := M b t - set us)"
  shows "team_backend P cl M"
  unfolding team_backend_def using assms by blast

lemma apply_changes_members:
  assumes "team_backend P cl M" and "P t" and "\<forall>i \<in> set add \<union> set remove. P i" and "apply_changes cl t add remove b = (None, b')"
  shows "M b' = (M b)(t := (M b t \<union> set add) - set remove)"
proof -
  from assms(4) obtain b1 where
    1: "(if 0 < length add then AddUserToTeam cl t add b else (None, b)) = (None, b1)" and
    2: "(if 0 < length remove then RemoveUserFromTeam cl t remove b1 else (None, b1)) = (None, b')"
    by (auto simp: apply_changes_def split: prod.splits option.splits)
  from 1 assms(3) team_backendD(2) [OF assms(1,2), of add b b1] have "M b1 = (M b)(t := M b t \<union> set add)"
    by (cases "add = []") auto
  moreover from 2 assms(3) team_backendD(3) [OF assms(1,2), of remove b1 b'] have "M b' = (M b1)(t := M b1 t - set remove)"
    by (cases "remove = []") auto
  ultimately show ?thesis by simp
qed

lemma fail_not_Succeeded [simp]: "fail e \<noteq> Succeeded" "Succeeded \<noteq> fail e"
  by (simp_all add: fail_def)

context details_store
begin

lemma fetchOrCreateTeam_inv:
  assumes "creates_teams cl" and "valid_utf8 (cacheKey bn ty)" and "inv c"
    and "\<And>name. GetTransformedGroupName compile Pattern ty grp = Inr name \<Longrightarrow> valid_utf8 name"
    and "fetchOrCreateTeam compile Pattern ops cl grp bn ty (c, b) = (r, c', b')"
  shows "inv c' \<and> (\<forall>t. r = Inr t \<longrightarrow>
           (\<exists>name. GetTransformedGroupName compile Pattern ty grp = Inr name \<and> ident (D c') name (cacheKey bn ty) = t)) \<and>
         (\<forall>P. creates_ids P cl \<longrightarrow> known_ids P (cacheKey bn ty) (D c) \<longrightarrow>
            known_ids P (cacheKey bn ty) (D c') \<and> (\<forall>t. r = Inr t \<longrightarrow> P t))"
proof (cases "GetTransformedGroupName compile Pattern ty grp")
  case (Inl e)
  with assms(3,5) show ?thesis by (auto simp: fetchOrCreateTeam_def)
next
  case (Inr name)
  let ?id = "ident (D c) name (cacheKey bn ty)"
  obtain ct b1 where ct: "CreateTeam cl (new_team name grp) b = (ct, b1)" by (rule prod.exhaust)
  consider "?id \<noteq> []" | e where "?id = []" "ct = Inl e" | t where "?id = []" "ct = Inr t" by (cases ct) auto
  then show ?thesis
  proof cases
    case 1
    from team_cached [OF assms(3) Inr 1, of cl b] Inr assms(5) 1 show ?thesis by (auto simp: known_ids_def)
  next
    case 2
    with team_create_fails [OF assms(3) Inr 2(1), of cl b e b1] ct Inr assms(5) show ?thesis by auto
  next
    case 3
    have name: "valid_utf8 (t_Name (new_team name grp))" using assms(4) [OF Inr] by (simp add: new_team_def)
    with ct 3 assms(1) have "valid_utf8 (t_ID t)" by (auto simp: creates_teams_def)
    with name team_created [OF assms(3) Inr 3(1), of cl b t b1] ct 3 Inr assms(2,5) show ?thesis
      by (auto simp: ident_update intro!: known_ids_update dest: creates_idsD)
  qed
qed

text \<open>The identifiers of the users that have LDAP data.\<close>

lemma sync_members_exact:
  assumes "e_cache E = ops" and "go_range (e_iter E)" and "team_backend P cl M" and "inv c"
    and "\<forall>e \<in> set (emails ldap us). ident (D c) e (cacheKey (be_Name be) (be_Type be)) \<noteq> []"
    and "sync_members E ldap us be cl t (c, b) = (Succeeded, c', b')"
    and "P t" and "known_ids P (cacheKey (be_Name be) (be_Type be)) (D c)"
  shows "inv c' \<and> D c' = D c \<and>
         (let ids = (\<lambda>e. ident (D c) e (cacheKey (be_Name be) (be_Type be))) ` set (emails ldap us)
          in M b' t = ids - {u \<in> set us. map_of ldap u = None \<and> u \<in> M b t})"
proof -
  let ?ids = "map (\<lambda>e. ident (D c) e (cacheKey (be_Name be) (be_Type be))) (emails ldap us)"
  from assms(6) obtain ms b1 where ms: "FetchTeamMembersByTeamID cl t b = (Inr ms, b1)"
    by (auto simp: sync_members_def split: prod.splits sum.splits)
  from team_backendD(1) [OF assms(3,7) ms] have M: "wf_gomap ms" "fst ` set ms = M b t" "M b1 = M b" "\<forall>i \<in> fst ` set ms. P i"
    by blast+
  let ?add = "filter (\<lambda>i. map_of ms i = None) ?ids"
  let ?rm = "without_ldap ldap ms us @ filter (\<lambda>i. i \<notin> set ?ids) (e_iter E (map fst ms))"
  from process_users [OF assms(4,5), of "e_iter E" ms] obtain c1 where
    "processUsers ops (e_iter E) ldap us ms (be_Name be) (be_Type be) c = (Inr (?add, ?rm), c1)" "inv c1" "D c1 = D c"
    by (auto simp: Let_def)
  with assms(1,6) ms have "apply_changes cl t ?add ?rm b1 = (None, b')" and c': "c' = c1"
    by (auto simp: sync_members_def split: prod.splits option.splits)
  moreover have "\<forall>i \<in> set ?add \<union> set ?rm. P i"
  proof (intro ballI)
    fix i
    assume "i \<in> set ?add \<union> set ?rm"
    then have "i \<in> set ?ids \<or> i \<in> fst ` set ms"
      by (force simp: without_ldap_def go_range_set [OF assms(2) M(1)] dest: map_of_SomeD)
    with assms(5,8) M(4) show "P i" by (auto simp: known_ids_def)
  qed
  ultimately have "M b' = (M b1)(t := (M b1 t \<union> set ?add) - set ?rm)" using apply_changes_members [OF assms(3,7)] by blast
  with M(3) have "M b' t = (M b t \<union> set ?add) - set ?rm" by simp
  also have "\<dots> = set ?ids - {u \<in> set us. map_of ldap u = None \<and> u \<in> M b t}"
    unfolding M(2) [symmetric]
    by (auto simp: without_ldap_def map_of_eq_None_iff go_range_set [OF assms(2) M(1)])
  finally show ?thesis using \<open>inv c1\<close> \<open>D c1 = D c\<close> c' by (simp add: Let_def)
qed

lemma reconcile_backend_exact:
  assumes "e_cache E = ops" and "go_range (e_iter E)" and "e_new E (be_Name be) (be_Type be) = Inr cl"
    and "team_backend P cl M" and "creates_teams cl" and "creates_users cl" and "valid_utf8 (cacheKey (be_Name be) (be_Type be))"
    and "inv c" and "reconcile_backend E grp ldap us be (c, b) = (Succeeded, c', b')"
    and "creates_ids P cl" and "known_ids P (cacheKey (be_Name be) (be_Type be)) (D c)" and "named_users ldap us"
    and "\<And>name. GetTransformedGroupName (e_compile E) (e_Pattern E) (be_Type be) grp = Inr name \<Longrightarrow> valid_utf8 name"
  obtains t where "inv c'"
    "fst (fetchOrCreateTeam (e_compile E) (e_Pattern E) ops cl grp (be_Name be) (be_Type be) (c, b)) = Inr t"
    "let ids = (\<lambda>e. ident (D c') e (cacheKey (be_Name be) (be_Type be))) ` set (emails ldap us)
     in M b' t \<subseteq> ids \<and> ids - {u \<in> set us. map_of ldap u = None} \<subseteq> M b' t \<and> [] \<notin> ids"
proof -
  let ?key = "cacheKey (be_Name be) (be_Type be)"
  obtain r1 c1 b1 where f: "fetchOrCreateTeam (e_compile E) (e_Pattern E) ops cl grp (be_Name be) (be_Type be) (c, b) = (r1, c1, b1)"
    by (rule prod_cases3)
  obtain r2 c2 b2 where u: "createUsersInBackendAndCache ops cl ldap (be_Name be) (be_Type be) us (c1, b1) = (r2, c2, b2)"
    by (rule prod_cases3)
  from assms(1,3,9) f u obtain t where t: "r1 = Inr t" "r2 = None"
    "sync_members E ldap us be cl t (c2, b2) = (Succeeded, c', b')"
    by (auto simp: reconcile_backend_def split: sum.splits option.splits)
  note fetched = fetchOrCreateTeam_inv [OF assms(5,7,8,13) f]
  from create_users [OF assms(6,7) _ u assms(12)] fetched t(2) have
    c2: "inv c2" "extends (set (emails ldap us)) ?key (D c1) (D c2)" "\<forall>e \<in> set (emails ldap us). ident (D c2) e ?key \<noteq> []" by auto
  from fetched assms(10,11) t(1) have c1: "inv c1" "known_ids P ?key (D c1)" "P t" by auto
  from create_users_ids [OF assms(6,7,10) c1(1,2) u assms(12)] have "known_ids P ?key (D c2)" .
  note sync = sync_members_exact [OF assms(1,2,4) c2(1,3) t(3) c1(3) this]
  show ?thesis
  proof (rule that)
    show "inv c'" using sync by blast
    show "fst (fetchOrCreateTeam (e_compile E) (e_Pattern E) ops cl grp (be_Name be) (be_Type be) (c, b)) = Inr t"
      using f t(1) by simp
    show "let ids = (\<lambda>e. ident (D c') e ?key) ` set (emails ldap us)
      in M b' t \<subseteq> ids \<and> ids - {u \<in> set us. map_of ldap u = None} \<subseteq> M b' t \<and> [] \<notin> ids"
      using sync c2(3) by (auto simp: Let_def)
  qed
qed

text \<open>A turn that finds the team and all users in the cache: only the members are compared and changed.\<close>

lemma known_backend_run:
  assumes "e_cache E = ops" and "e_new E (be_Name be) (be_Type be) = Inr cl" and "inv c"
    and "GetTransformedGroupName (e_compile E) (e_Pattern E) (be_Type be) grp = Inr name"
    and "creates_users cl" and "valid_utf8 (cacheKey (be_Name be) (be_Type be))" and "named_users ldap us"
    and "ident (D c) name (cacheKey (be_Name be) (be_Type be)) = t" and "t \<noteq> []"
    and "map (\<lambda>e. ident (D c) e (cacheKey (be_Name be) (be_Type be))) (emails ldap us) = ids" and "[] \<notin> set ids"
    and "FetchTeamMembersByTeamID cl t b = (Inr members, b1)"
    and "apply_changes cl t (filter (\<lambda>i. map_of members i = None) ids)
           (without_ldap ldap members us @ filter (\<lambda>i. i \<notin> set ids) (e_iter E (map fst members))) b1 = (None, b2)"
  shows "\<exists>c'. reconcile_backend E grp ldap us be (c, b) = (Succeeded, c', b2)"
proof -
  let ?key = "cacheKey (be_Name be) (be_Type be)"
  from team_cached [OF assms(3,4), of "be_Name be" cl b] assms(8,9) obtain c1 where
    1: "fetchOrCreateTeam (e_compile E) (e_Pattern E) ops cl grp (be_Name be) (be_Type be) (c, b) = (Inr t, c1, b)" "inv c1" "D c1 = D c" by auto
  have ids: "\<forall>e \<in> set (emails ldap us). ident (D c1) e ?key \<noteq> []" using assms(10,11) 1(3) by force
  from create_users_known [OF assms(5,6) 1(2) ids assms(7)] obtain c2 where
    2: "createUsersInBackendAndCache ops cl ldap (be_Name be) (be_Type be) us (c1, b) = (None, c2, b)" "inv c2" by blast
  from create_users [OF assms(5,6) 1(2) 2(1) assms(7)] have "extends (set (emails ldap us)) ?key (D c1) (D c2)" by simp
  with ids 1(3) have same: "\<forall>e \<in> set (emails ldap us). ident (D c2) e ?key = ident (D c) e ?key" by (auto simp: extends_def)
  then have "map (\<lambda>e. ident (D c2) e ?key) (emails ldap us) = ids" "\<forall>e \<in> set (emails ldap us). ident (D c2) e ?key \<noteq> []"
    using assms(10) ids 1(3) by auto
  with process_users [OF 2(2), of ldap us "be_Name be" "be_Type be" "e_iter E" members] obtain c3 where
    "processUsers ops (e_iter E) ldap us members (be_Name be) (be_Type be) c2 =
      (Inr (filter (\<lambda>i. map_of members i = None) ids, without_ldap ldap members us @ filter (\<lambda>i. i \<notin> set ids) (e_iter E (map fst members))), c3)"
    by (auto simp: Let_def)
  with 1(1) 2(1) assms(1,2,12,13) show ?thesis by (simp add: reconcile_backend_def sync_members_def)
qed

end

section \<open>The loop over the backends\<close>

text \<open>The outcomes of the turns, in order, up to the first abort.\<close>

fun outcomes ::
    "('k, 'l, 'c, 'b) genv \<Rightarrow> string \<Rightarrow> LDAPUser gomap \<Rightarrow> string list \<Rightarrow> Backend list \<Rightarrow> 'c \<times> 'b \<Rightarrow> (Backend \<times> outcome) list" where
  "outcomes E grp ldap us [] s = []"
| "outcomes E grp ldap us (be # bes) s =
     (case reconcile_backend E grp ldap us be s of
        (Aborted err, s') \<Rightarrow> [(be, Aborted err)]
      | (o1, s') \<Rightarrow> (be, o1) # outcomes E grp ldap us bes s')"

text \<open>What the failed turns leave in \<open>backendErrors\<close>.\<close>

fun record_errors :: "(Backend \<times> outcome) list \<Rightarrow> string gomap \<Rightarrow> string gomap" where
  "record_errors [] errs = errs"
| "record_errors ((be, Failed err) # os) errs = record_errors os (AList.update (be_Type be) (Error err) errs)"
| "record_errors (_ # os) errs = record_errors os errs"

definition failed :: "(Backend \<times> outcome) list \<Rightarrow> Backend set" where
  "failed os = {be. \<exists>err. (be, Failed err) \<in> set os}"

lemma failed_simps [simp]:
  "failed [] = {}"
  "failed ((be, Failed err) # os) = insert be (failed os)"
  "failed ((be, Succeeded) # os) = failed os"
  "failed ((be, Aborted err) # os) = failed os"
  by (auto simp: failed_def)

lemma reconcile_backends_outcomes:
  "reconcile_backends E grp ldap us bes (errs, isErr) s = (Inr (errs', isErr'), s') \<Longrightarrow>
     map fst (outcomes E grp ldap us bes s) = bes \<and>
     errs' = record_errors (outcomes E grp ldap us bes s) errs \<and>
     (isErr' \<longleftrightarrow> isErr \<or> failed (outcomes E grp ldap us bes s) \<noteq> {})"
proof (induction bes arbitrary: errs isErr s)
  case (Cons be bes)
  obtain r s1 where "reconcile_backend E grp ldap us be s = (r, s1)" by (rule prod.exhaust)
  with Cons show ?case by (cases r) fastforce+
qed auto

lemma record_errors_dom: "dom (map_of (record_errors os errs)) = dom (map_of errs) \<union> be_Type ` failed os"
proof (induction os errs rule: record_errors.induct)
  case (2 be err os errs)
  then show ?case by (auto simp: gomap_simps)
qed auto

text \<open>The message kept for a type is that of the last failing backend of this type.\<close>

lemma record_errors_last:
  "(\<forall>(b, o1) \<in> set os2. be_Type b = be_Type be \<longrightarrow> (\<forall>e. o1 \<noteq> Failed e)) \<Longrightarrow>
   map_of (record_errors (os1 @ (be, Failed err) # os2) errs) (be_Type be) = Some (Error err)"
proof (induction os1 errs rule: record_errors.induct)
  case (1 errs)
  have "(\<forall>(b, o1) \<in> set os2. be_Type b = be_Type be \<longrightarrow> (\<forall>e. o1 \<noteq> Failed e)) \<Longrightarrow>
    map_of (record_errors os2 m) (be_Type be) = map_of m (be_Type be)" for m
    by (induction os2 m rule: record_errors.induct) (auto simp: gomap_simps)
  from this [OF 1] show ?case by (simp add: gomap_simps)
qed auto

lemma backend_status_failed:
  "\<not> bs_Status (backend_status (record_errors os []) be) \<longleftrightarrow> be_Type be \<in> be_Type ` failed os"
  using record_errors_dom [of os "[]"] by (auto simp: backend_status_def split: option.splits)

lemma backend_status_fields [simp]:
  "bs_Name (backend_status errs be) = be_Name be" "bs_Type (backend_status errs be) = be_Type be"
  by (simp_all add: backend_status_def split: option.split)

section \<open>Main results\<close>

text \<open>
  C3: When the reconciliation of a backend succeeds, its team has exactly the wanted members: the members
  are identifiers of group users with LDAP data, each such user is a member, and the identifiers
  are the ones the cache holds for this backend.  The only identifiers that may be missing are those
  equal to the name of a group user without LDAP data.  The contract of the backend is needed for the
  identifiers it hands out only (\<open>P\<close>).
\<close>

theorem backend_membership_exact:
  assumes "e_cache E = inmemory_cache clock" and "go_range (e_iter E)" and "e_new E (be_Name be) (be_Type be) = Inr cl"
    and "team_backend P cl M" and "creates_teams cl" and "creates_users cl" and "valid_utf8 (cacheKey (be_Name be) (be_Type be))"
    and "never_expires c" and "encoded (contents c)"
    and "reconcile_backend E grp ldap us be (c, b) = (Succeeded, c', b')"
    and "creates_ids P cl" and "known_ids P (cacheKey (be_Name be) (be_Type be)) (details (contents c))" and "named_users ldap us"
    and "\<And>name. GetTransformedGroupName (e_compile E) (e_Pattern E) (be_Type be) grp = Inr name \<Longrightarrow> valid_utf8 name"
  shows "\<exists>t. fst (fetchOrCreateTeam (e_compile E) (e_Pattern E) (e_cache E) cl grp (be_Name be) (be_Type be) (c, b)) = Inr t \<and>
           (let ids = (\<lambda>e. ident (details (contents c')) e (cacheKey (be_Name be) (be_Type be))) ` set (emails ldap us)
            in [] \<notin> ids \<and> M b' t \<subseteq> ids \<and> ids - {u \<in> set us. map_of ldap u = None} \<subseteq> M b' t)"
proof -
  have inv: "never_expires c \<and> encoded (contents c)" using assms(8,9) ..
  show ?thesis
    by (rule mem.det.reconcile_backend_exact [OF assms(1-7) inv assms(10-14)]) (auto simp: assms(1) Let_def)
qed

text \<open>One backend whose team and user are in the cache already.\<close>

definition demo_env :: "(demo_cluster, unit, InMemoryCache, demo) genv" where
  "demo_env = \<lparr>e_kube = demo_kube,
     e_ldap = \<lambda>u l. (if u = ''bob'' then Inr [(''mail'', VString ''bob@x.org'')] else Inl (GoErr ''no LDAP entries found for user''), l),
     e_cache = inmemory_cache (\<lambda>n. 7), e_new = demo_new, e_compile = sample_compile, e_Pattern = sample_pattern,
     e_conv = plain_env, e_iter = rev, e_fuel = 5\<rparr>"

definition demo_cache :: InMemoryCache where
  "demo_cache = snd (inmemory_Set (\<lambda>n. 7) ''bob@x.org'' (marshal_map [(demo_key, ''u-1'')]) NoExpiration team_cache)"

abbreviation demo_backend :: Backend where
  "demo_backend \<equiv> \<lparr>be_Name = ''fv'', be_Type = ''fivetran''\<rparr>"

lemma demo_user_valid: "wf_gomap [(demo_key, ''u-1'')]" "valid_map [(demo_key, ''u-1'')]"
  by (auto simp: valid_map_def wf_gomap_def cacheKey_def intro!: valid_ascii)

lemma demo_cache_ok: "never_expires demo_cache" "encoded (contents demo_cache)"
  and details_demo_cache: "details (contents demo_cache) =
        (\<lambda>_. Map.empty)(''hr_group'' := [demo_key \<mapsto> ''hr_group''], ''bob@x.org'' := [demo_key \<mapsto> ''u-1''])"
proof -
  obtain r where "inmemory_Set (\<lambda>n. 7) ''bob@x.org'' (marshal_map [(demo_key, ''u-1'')]) NoExpiration team_cache = (r, demo_cache)"
    by (metis demo_cache_def prod.collapse)
  from never_expires_Set [OF team_cache_ok(1) this]
  have "never_expires demo_cache" "contents demo_cache = (contents team_cache)(''bob@x.org'' \<mapsto> marshal_map [(demo_key, ''u-1'')])" by simp_all
  then show "never_expires demo_cache" "encoded (contents demo_cache)" "details (contents demo_cache) =
        (\<lambda>_. Map.empty)(''hr_group'' := [demo_key \<mapsto> ''hr_group''], ''bob@x.org'' := [demo_key \<mapsto> ''u-1''])"
    using encoded_update [OF team_cache_ok(2) demo_user_valid] details_update [OF demo_user_valid, of "contents team_cache"]
    by (simp_all add: details_team_cache)
qed

lemma demo_ident: "ident (details (contents demo_cache)) ''hr_group'' demo_key = ''hr_group''"
  "ident (details (contents demo_cache)) ''bob@x.org'' demo_key = ''u-1''"
  by (simp_all add: details_demo_cache ident_def)

lemma demo_fetch: "\<exists>c'. fetchOrCreateTeam sample_compile sample_pattern (inmemory_cache (\<lambda>n. 7)) demo_client ''dataverse-platform-hr'' ''fv'' ''fivetran'' (demo_cache, b)
    = (Inr ''hr_group'', c', b) \<and> (never_expires c' \<and> encoded (contents c')) \<and> details (contents c') = details (contents demo_cache)"
  using mem.det.team_cached [of demo_cache sample_compile sample_pattern "''fivetran''" "''dataverse-platform-hr''" "''hr_group''" "''fv''" "\<lambda>n. 7" demo_client b]
  by (simp add: demo_cache_ok sample_name demo_ident)

lemma demo_team_backend: "team_backend (\<lambda>_. True) demo_client (\<lambda>b t. set (demo_members b t))"
  by (auto simp: team_backend_def demo_client_def demo_members_def wf_gomap_def gomap_simps comp_def image_iff fun_eq_iff)

lemma demo_creates_teams: "creates_teams demo_client"
  by (auto simp: creates_teams_def demo_create_team ascii_def intro!: valid_ascii)

lemma demo_listing: "FetchTeamMembersByTeamID demo_client ''hr_group'' [(''hr_group'', [''old''])] =
    (Inr [(''old'', empty_user)], [(''hr_group'', [''old''])])"
  by (simp add: demo_client_def demo_members_def)

lemma demo_apply: "apply_changes demo_client ''hr_group'' [''u-1''] [''old''] [(''hr_group'', [''old''])] = (None, [(''hr_group'', [''u-1''])])"
  by (simp add: apply_changes_def demo_client_def demo_members_def)

text \<open>Any client that lists and changes the demo team, in surroundings with the demo cache.\<close>

lemma demo_run_any:
  assumes "e_cache E = inmemory_cache (\<lambda>n. 7)" and "e_compile E = sample_compile" and "e_Pattern E = sample_pattern" and "e_iter E = rev"
    and "e_new E ''fv'' ''fivetran'' = Inr cl" and "creates_users cl"
    and "FetchTeamMembersByTeamID cl ''hr_group'' b = (Inr [(''old'', v)], b1)" and "apply_changes cl ''hr_group'' [''u-1''] [''old''] b1 = (None, b2)"
  shows "\<exists>c'. reconcile_backend E ''dataverse-platform-hr'' demo_ldap [''bob''] demo_backend (demo_cache, b) = (Succeeded, c', b2)"
proof (rule mem.det.known_backend_run [OF assms(1) _ _ _ assms(6), where members = "[(''old'', v)]"])
  show "never_expires demo_cache \<and> encoded (contents demo_cache)" using demo_cache_ok ..
  show "GetTransformedGroupName (e_compile E) (e_Pattern E) (be_Type demo_backend) ''dataverse-platform-hr'' = Inr ''hr_group''"
    using assms(2,3) by (simp add: sample_name)
  show "FetchTeamMembersByTeamID cl ''hr_group'' b = (Inr [(''old'', v)], b1)" by (rule assms(7))
  have em: "emails demo_ldap [''bob''] = [''bob@x.org'']" by (simp add: demo_ldap_def)
  show "map (\<lambda>e. ident (details (contents demo_cache)) e (cacheKey (be_Name demo_backend) (be_Type demo_backend))) (emails demo_ldap [''bob'']) = [''u-1'']"
    unfolding em by (simp add: demo_ident)
  show "apply_changes cl ''hr_group'' (filter (\<lambda>i. map_of [(''old'', v)] i = None) [''u-1''])
      (without_ldap demo_ldap [(''old'', v)] [''bob''] @ filter (\<lambda>i. i \<notin> set [''u-1'']) (e_iter E (map fst [(''old'', v)]))) b1 = (None, b2)"
    using assms(4,8) by (simp add: without_ldap_def demo_ldap_def)
qed (simp_all add: assms(5) demo_key_valid demo_named_users demo_ident)

lemma demo_run:
  "\<exists>c'. reconcile_backend demo_env ''dataverse-platform-hr'' demo_ldap [''bob''] demo_backend (demo_cache, [(''hr_group'', [''old''])])
     = (Succeeded, c', [(''hr_group'', [''u-1''])])"
  by (rule demo_run_any [OF _ _ _ _ _ demo_creates_users demo_listing demo_apply]) (simp_all add: demo_env_def demo_new_def)

theorem backend_membership_exact_witness:
  "\<exists>c' b'. reconcile_backend demo_env ''dataverse-platform-hr'' demo_ldap [''bob''] demo_backend (demo_cache, [(''hr_group'', [''old''])])
       = (Succeeded, c', b') \<and>
     set (demo_members b' ''hr_group'') = {ident (details (contents c')) ''bob@x.org'' demo_key}"
proof -
  from demo_run obtain c' b' where
    run: "reconcile_backend demo_env ''dataverse-platform-hr'' demo_ldap [''bob''] demo_backend (demo_cache, [(''hr_group'', [''old''])])
      = (Succeeded, c', b')" by blast
  have env: "e_cache demo_env = inmemory_cache (\<lambda>n. 7)" "go_range (e_iter demo_env)"
    "e_new demo_env (be_Name demo_backend) (be_Type demo_backend) = Inr demo_client"
    by (simp_all add: demo_env_def go_range_rev demo_new_def)
  from demo_fetch [of "[(''hr_group'', [''old''])]"]
  have f: "fst (fetchOrCreateTeam (e_compile demo_env) (e_Pattern demo_env) (e_cache demo_env) demo_client ''dataverse-platform-hr''
      (be_Name demo_backend) (be_Type demo_backend) (demo_cache, [(''hr_group'', [''old''])])) = Inr ''hr_group''"
    by (auto simp: demo_env_def)
  have key: "valid_utf8 (cacheKey (be_Name demo_backend) (be_Type demo_backend))" using demo_key_valid by simp
  have em: "emails demo_ldap [''bob''] = [''bob@x.org'']" "{u \<in> set [''bob'']. map_of demo_ldap u = None} = {}"
    by (simp_all add: demo_ldap_def)
  have name: "valid_utf8 name" if "GetTransformedGroupName (e_compile demo_env) (e_Pattern demo_env) (be_Type demo_backend) ''dataverse-platform-hr'' = Inr name" for name
    using that sample_name [of "''fivetran''"] by (auto simp: demo_env_def intro!: valid_ascii)
  have ids: "creates_ids (\<lambda>_. True) demo_client" "known_ids (\<lambda>_. True) k d" for k d
    by (simp_all add: creates_ids_def known_ids_def)
  from backend_membership_exact [OF env demo_team_backend demo_creates_teams demo_creates_users key demo_cache_ok run ids demo_named_users name]
  show ?thesis using run unfolding f em Let_def by (auto simp: image_def)
qed

text \<open>
  C7: A failing backend does not stop the others: when no turn aborts, every backend of the group is
  attempted, in order; a backend is reported as failed exactly when some backend of the same type
  failed, and the error flag is set exactly when some backend failed.
\<close>

theorem backend_failures_reported:
  assumes "reconcile_backends E grp ldap us bes ([], False) s = (Inr (errs, isErr), s')"
  shows "map fst (outcomes E grp ldap us bes s) = bes \<and>
         (isErr \<longleftrightarrow> failed (outcomes E grp ldap us bes s) \<noteq> {}) \<and> (isErr \<longleftrightarrow> errs \<noteq> []) \<and>
         (\<forall>be. \<not> bs_Status (backend_status errs be) \<longleftrightarrow> be_Type be \<in> be_Type ` failed (outcomes E grp ldap us bes s))"
proof -
  let ?os = "outcomes E grp ldap us bes s"
  note run = reconcile_backends_outcomes [OF assms]
  then have "errs = record_errors ?os []" by simp
  with record_errors_dom [of ?os "[]"] have "errs \<noteq> [] \<longleftrightarrow> failed ?os \<noteq> {}" by (auto simp: dom_map_of_conv_image_fst)
  with run backend_status_failed [of ?os] show ?thesis by auto
qed


lemma demo_failing: "reconcile_backend demo_env grp ldap us \<lparr>be_Name = ''zz'', be_Type = ''fivetran''\<rparr> s = (Failed (GoErr ''invalid backend''), s)"
  by (cases s) (simp add: reconcile_backend_def demo_env_def demo_new_def fail_def)

theorem backend_failures_reported_witness:
  "\<exists>errs s'. reconcile_backends demo_env ''dataverse-platform-hr'' demo_ldap [''bob''] [\<lparr>be_Name = ''zz'', be_Type = ''fivetran''\<rparr>, demo_backend]
       ([], False) (demo_cache, [(''hr_group'', [''old''])]) = (Inr (errs, True), s') \<and>
     \<not> bs_Status (backend_status errs demo_backend)"
proof -
  let ?bes = "[\<lparr>be_Name = ''zz'', be_Type = ''fivetran''\<rparr>, demo_backend]" and ?s = "(demo_cache, [(''hr_group'', [''old''])])"
  from demo_run obtain s' where s': "reconcile_backend demo_env ''dataverse-platform-hr'' demo_ldap [''bob''] demo_backend ?s = (Succeeded, s')"
    by blast
  then obtain errs where run: "reconcile_backends demo_env ''dataverse-platform-hr'' demo_ldap [''bob''] ?bes ([], False) ?s = (Inr (errs, True), s')"
    by (simp add: demo_failing)
  have "be_Type demo_backend \<in> be_Type ` failed (outcomes demo_env ''dataverse-platform-hr'' demo_ldap [''bob''] ?bes ?s)"
    using s' by (simp add: demo_failing)
  with backend_failures_reported [OF run] run show ?thesis by blast
qed

lemma reconcile_backends_abort:
  "reconcile_backends E grp ldap us bes errs s = (Inl err, s') \<Longrightarrow>
     outcomes E grp ldap us bes s \<noteq> [] \<and> snd (last (outcomes E grp ldap us bes s)) = Aborted err"
proof (induction bes arbitrary: errs s)
  case (Cons be bes)
  obtain r s1 where r: "reconcile_backend E grp ldap us be s = (r, s1)" by (rule prod.exhaust)
  with Cons show ?case by (cases r; cases errs) (auto dest!: Cons.IH)
qed simp

lemma outcomes_no_abort:
  "reconcile_backends E grp ldap us bes errs s = (Inr errs', s') \<Longrightarrow> (be, Aborted e) \<notin> set (outcomes E grp ldap us bes s)"
proof (induction bes arbitrary: errs s)
  case (Cons be1 bes)
  obtain r s1 where r: "reconcile_backend E grp ldap us be1 s = (r, s1)" by (rule prod.exhaust)
  with Cons show ?case by (cases r; cases errs) (auto dest!: Cons.IH)
qed simp

text \<open>
  C4: How the part of \<^verbatim>\<open>Reconcile\<close> after the member collection ends.  When adding or removing members
  fails in some backend, that error is returned at once and the status of the group is not written,
  so its condition stays at Waiting.  Otherwise the status written has the deduplicated members,
  one entry per backend that is positive exactly when no backend of this type failed, a Ready
  condition that is true exactly when nothing failed, and the applied generation only in that case;
  and an error is returned exactly when something failed.
\<close>

theorem reconcile_members_status:
  "\<exists>us ldap os h. us = deduplicateMembers allMembers \<and> ldap = fst (fetch_ldap_data E us [] (w_ldap w)) \<and>
     os = outcomes E (GroupName (g_Spec g)) ldap us (Backends (g_Spec g)) (w_cache w, w_backend w) \<and>
     (if \<exists>be e. (be, Aborted e) \<in> set os
      then snd (last os) = Aborted (the (fst (reconcile_members E now g allMembers w))) \<and>
           fst (reconcile_members E now g allMembers w) \<noteq> None \<and>
           w_kube (snd (reconcile_members E now g allMembers w)) = w_kube w
      else w_kube (snd (reconcile_members E now g allMembers w)) = snd (kStatusUpdate (e_kube E) h (w_kube w)) \<and>
           ReconciledUsers (g_Status h) = us \<and>
           map (\<lambda>st. (bs_Name st, bs_Type st, bs_Status st)) (BackendsStatus (g_Status h)) =
             map (\<lambda>be. (be_Name be, be_Type be, be_Type be \<notin> be_Type ` failed os)) (Backends (g_Spec g)) \<and>
           find_condition GroupReadyCondition (Conditions (g_Status h)) = Some (final_condition (failed os \<noteq> {}) now) \<and>
           LastAppliedGeneration (g_Status h) = (if failed os = {} then g_Generation g else LastAppliedGeneration (g_Status g)) \<and>
           (fst (reconcile_members E now g allMembers w) = None \<longleftrightarrow> failed os = {}))"
proof -
  let ?us = "deduplicateMembers allMembers" and ?run = "reconcile_members E now g allMembers w"
  obtain ldap l where l: "fetch_ldap_data E ?us [] (w_ldap w) = (ldap, l)" by (rule prod.exhaust)
  let ?os = "outcomes E (GroupName (g_Spec g)) ldap ?us (Backends (g_Spec g)) (w_cache w, w_backend w)"
  obtain r c b where r: "reconcile_backends E (GroupName (g_Spec g)) ldap ?us (Backends (g_Spec g)) ([], False) (w_cache w, w_backend w)
      = (r, c, b)" by (rule prod_cases3)
  show ?thesis
  proof (cases r)
    case (Inl e)
    from reconcile_backends_abort [OF r [unfolded Inl]] have last: "?os \<noteq> []" "snd (last ?os) = Aborted e" by simp_all
    then have "\<exists>be e. (be, Aborted e) \<in> set ?os" by (metis last_in_set prod.collapse)
    with last l r Inl show ?thesis by (simp add: reconcile_members_def)
  next
    case (Inr p)
    obtain errs isErr where p: "p = (errs, isErr)" by (rule prod.exhaust)
    note run = r [unfolded Inr p]
    note out = reconcile_backends_outcomes [OF run]
    have no: "\<not> (\<exists>be e. (be, Aborted e) \<in> set ?os)" using outcomes_no_abort [OF run] by blast
    let ?h = "UpdateStatus isErr now (g\<lparr>g_Status := (g_Status g)\<lparr>ReconciledUsers := ?us, BackendsStatus := map (backend_status errs) (Backends (g_Spec g))\<rparr>\<rparr>)"
    have "errs = [] \<longleftrightarrow> failed ?os = {}" "isErr \<longleftrightarrow> failed ?os \<noteq> {}"
      using out record_errors_dom [of ?os "[]"] by (auto simp: dom_map_of_conv_image_fst)
    moreover have "bs_Status (backend_status errs be) \<longleftrightarrow> be_Type be \<notin> be_Type ` failed ?os" for be
      using out backend_status_failed [of ?os be] by auto
    ultimately show ?thesis
      using no l run by (intro exI [of _ ?us] exI [of _ ldap] exI [of _ ?os] exI [of _ ?h])
        (simp add: reconcile_members_def finish_def find_set_condition Conditions_UpdateStatus UpdateStatus_frame
          UpdateStatus_def Let_def split: prod.splits)
  qed
qed

text \<open>
  C5: The finalizer of a deleted group is removed only after the clean-up: when \<^verbatim>\<open>Reconcile\<close> of a group
  under deletion returns without an error, every team the cache knew for its backends is gone from
  them, and the object was updated without the finalizer; when the clean-up fails, the error is
  returned and the object is not touched, so the deletion is retried.
\<close>

theorem deletion_finalizer_last:
  assumes "deletes_teams (e_new E) T" and "e_cache E = inmemory_cache clock"
    and "never_expires (w_cache w)" and "encoded (contents (w_cache w))"
    and "kGet (e_kube E) (w_kube w) ns name = Inr g" and "g_DeletionTimestamp g \<noteq> None" and "groupFinalizer \<in> set (g_Finalizers g)"
    and "Reconcile E now1 now2 ns name w = Some (r, w')"
  shows "if r = None
         then T (w_backend w') = T (w_backend w) - known_teams (e_compile E) (e_Pattern E) (GroupName (g_Spec g))
                                  (Backends (g_Spec g)) (details (contents (w_cache w))) \<and>
              w_kube w' = snd (kUpdate (e_kube E) (g\<lparr>g_Finalizers := removeAll groupFinalizer (g_Finalizers g)\<rparr>) (w_kube w))
         else w_kube w' = w_kube w \<or>
              \<not> is_ok (fst (kUpdate (e_kube E) (g\<lparr>g_Finalizers := removeAll groupFinalizer (g_Finalizers g)\<rparr>) (w_kube w)))"
proof -
  obtain d c b where d: "deleteBackendsTeam (e_compile E) (e_Pattern E) (inmemory_cache clock) (e_new E) (GroupName (g_Spec g))
      (Backends (g_Spec g)) (w_cache w, w_backend w) = (d, c, b)" by (rule prod_cases3)
  have inv: "never_expires (w_cache w) \<and> encoded (contents (w_cache w))" using assms(3,4) ..
  have r: "reconcile_deletion E g w = (r, w')" using assms(5,6,8) by (simp add: Reconcile_def)
  show ?thesis
  proof (cases d)
    case None
    from mem.det.delete_all_teams [OF assms(1) inv d [unfolded None]] r d None assms(2,7) show ?thesis
      by (auto simp: reconcile_deletion_def split: prod.splits sum.splits)
  next
    case (Some e)
    with r d assms(2,7) show ?thesis by (auto simp: reconcile_deletion_def)
  qed
qed

definition deleted_group :: Group where
  "deleted_group = (sample_group ''g'' [] [])\<lparr>g_DeletionTimestamp := Some 3, g_Finalizers := [groupFinalizer],
     g_Spec := \<lparr>GroupName = ''dataverse-platform-hr'', spec_Members = \<lparr>mem_Groups = [], mem_Users = []\<rparr>, Backends = [demo_backend]\<rparr>\<rparr>"

theorem deletion_finalizer_last_witness:
  "\<exists>w'. Reconcile demo_env 1 2 ''ns'' ''g''
          \<lparr>w_kube = [((''ns'', ''g''), deleted_group)], w_ldap = (), w_cache = team_cache, w_backend = [(''hr_group'', [])]\<rparr>
        = Some (None, w') \<and> (demo_key, ''hr_group'') \<notin> demo_teams (w_backend w')"
proof -
  let ?w = "\<lparr>w_kube = [((''ns'', ''g''), deleted_group)], w_ldap = (), w_cache = team_cache, w_backend = [(''hr_group'', [])]\<rparr>"
  have g: "kGet (e_kube demo_env) (w_kube ?w) ''ns'' ''g'' = Inr deleted_group" "g_DeletionTimestamp deleted_group \<noteq> None"
    "groupFinalizer \<in> set (g_Finalizers deleted_group)" "GroupName (g_Spec deleted_group) = ''dataverse-platform-hr''"
    "Backends (g_Spec deleted_group) = [demo_backend]"
    by (simp_all add: demo_env_def demo_kube_def deleted_group_def)
  from demo_delete_run g have "\<exists>w'. Reconcile demo_env 1 2 ''ns'' ''g'' ?w = Some (None, w')"
    by (auto simp: Reconcile_def reconcile_deletion_def demo_env_def demo_kube_def)
  then obtain w' where run: "Reconcile demo_env 1 2 ''ns'' ''g'' ?w = Some (None, w')" ..
  have env: "deletes_teams (e_new demo_env) demo_teams" "e_cache demo_env = inmemory_cache (\<lambda>n. 7)"
    "e_compile demo_env = sample_compile" "e_Pattern demo_env = sample_pattern"
    by (simp_all add: demo_env_def demo_deletes_teams)
  have w: "never_expires (w_cache ?w)" "encoded (contents (w_cache ?w))" by (simp_all add: team_cache_ok)
  have "(demo_key, ''hr_group'') \<in> known_teams sample_compile sample_pattern ''dataverse-platform-hr'' [demo_backend] (details (contents team_cache))"
    by (simp add: known_teams_def known_team_def sample_name details_team_cache ident_def)
  with deletion_finalizer_last [OF env(1,2) w g(1-3) run] run show ?thesis by (simp add: env g(4,5))
qed


definition live_group :: Group where
  "live_group = (sample_group ''dataverse-platform-hr'' [] [''bob''])\<lparr>g_Spec :=
     \<lparr>GroupName = ''dataverse-platform-hr'', spec_Members = \<lparr>mem_Groups = [], mem_Users = [''bob'']\<rparr>, Backends = [demo_backend]\<rparr>\<rparr>"

abbreviation live_world :: "(demo_cluster, unit, InMemoryCache, demo) world" where
  "live_world \<equiv> \<lparr>w_kube = [((''ns'', ''dataverse-platform-hr''), live_group)], w_ldap = (),
     w_cache = demo_cache, w_backend = [(''hr_group'', [''old''])]\<rparr>"

lemma demo_fetch_ldap: "fetch_ldap_data demo_env [''bob''] [] () = (demo_ldap, ())"
proof -
  have "all_strings [(''mail'', VString ''bob@x.org'')]" by (simp add: all_strings_def)
  from ldap_user_of_strings [OF this, of plain_env rev] show ?thesis
    by (simp add: demo_env_def demo_ldap_def get_string_def)
qed

lemma live_prepare: "\<exists>g k. prepare demo_env now live_group (w_kube live_world) = (Inr g, k) \<and> g_Spec g = g_Spec live_group \<and>
    g_Namespace g = ''ns'' \<and> kGet demo_kube k ''ns'' ''dataverse-platform-hr'' = Inr g \<and>
    (\<forall>h. is_ok (kGet demo_kube k ''ns'' h) \<longrightarrow> h = ''dataverse-platform-hr'')"
  by (simp add: prepare_def demo_env_def demo_kube_def live_group_def sample_group_def setOwnerReference_def
      needsUpdate_def existingGroupOwnerRefs_def SetWaiting_def)

lemma live_members: "\<exists>w'. reconcile_members demo_env now g [''bob''] (live_world\<lparr>w_kube := k\<rparr>) = (None, w') \<and>
    w_backend w' \<noteq> w_backend live_world"
  if "g_Spec g = g_Spec live_group"
proof -
  from demo_run obtain c' where
    run: "reconcile_backend demo_env ''dataverse-platform-hr'' demo_ldap [''bob''] demo_backend (demo_cache, [(''hr_group'', [''old''])])
      = (Succeeded, c', [(''hr_group'', [''u-1''])])" by blast
  have "deduplicateMembers [''bob''] = [''bob'']" by (simp add: deduplicateMembers_def)
  with run that show ?thesis
    by (simp add: reconcile_members_def demo_fetch_ldap live_group_def finish_def Let_def split: prod.splits del: fetch_ldap_data.simps)
qed

lemma live_run: "\<exists>w'. Reconcile demo_env 1 2 ''ns'' ''dataverse-platform-hr'' live_world = Some (None, w') \<and>
    w_backend w' \<noteq> w_backend live_world"
proof -
  from live_prepare [of 1] obtain g k where p: "prepare demo_env 1 live_group (w_kube live_world) = (Inr g, k)"
    "g_Spec g = g_Spec live_group" "g_Namespace g = ''ns''" "kGet demo_kube k ''ns'' ''dataverse-platform-hr'' = Inr g" by blast
  have "kGet (e_kube demo_env) (w_kube live_world) ''ns'' ''dataverse-platform-hr'' = Inr live_group" "g_DeletionTimestamp live_group = None"
    by (simp_all add: demo_env_def demo_kube_def live_group_def sample_group_def)
  moreover have "fetchUniqueGroupMembers (e_fuel demo_env) (kGet (e_kube demo_env) k) (GroupName (g_Spec g)) (g_Namespace g) [] = Some (Inr [''bob''], [])"
    using p(2-4) by (simp add: demo_env_def live_group_def eval_nat_numeral)
  ultimately show ?thesis using p(1) live_members [OF p(2), of 2 k] by (simp add: Reconcile_def)
qed




end
