(* ===== verification/Rover.thy ===== *)
theory Rover
  imports JsonStructs Ldap Reconcile
begin

text \<open>
  The Rover client (\<^verbatim>\<open>pkg/clients/redhat_rover\<close>) on an HTTP service: its configuration, one definition per
  operation, with the URLs and JSON bodies it sends and the status codes it accepts.  Rover is the
  LDAP itself, so its user operations make no request.  The theorems relate the wire format to the
  membership the reconciler relies on.
\<close>

section \<open>Wire format\<close>

definition MemberApprovalTypeSelfService :: string where
  "MemberApprovalTypeSelfService = ''self-service''"

definition MemberTypeUser :: string where
  "MemberTypeUser = ''user''"

definition MemberTypeServiceAccount :: string where
  "MemberTypeServiceAccount = ''serviceaccount''"

definition defaultContactEmail :: string where
  "defaultContactEmail = ''devnull@redhat.com''"

definition rover_headers :: "string gomap" where
  "rover_headers = [(''Content-Type'', ''application/json'')]"

record Member =
  m_Type :: string
  m_ID :: string

record RoverGroup =
  rg_Name :: string
  rg_Description :: string
  rg_MemberApprovalType :: string
  rg_Owners :: "Member slice"
  rg_ContactList :: string
  rg_DisplayName :: "string option"
  rg_Notes :: string
  rg_RoverGroupMemberQuery :: "string option"
  rg_RoverGroupInclusions :: "Member slice"
  rg_RoverGroupExclusions :: "Member slice"
  rg_Members :: "Member slice"
  rg_MemberOf :: "string option"
  rg_Namespace :: "string option"

record MemberModRequest =
  mod_Additions :: "Member slice"
  mod_Deletions :: "Member slice"

definition empty_member :: Member where
  "empty_member = \<lparr>m_Type = [], m_ID = []\<rparr>"

definition empty_group :: RoverGroup where
  "empty_group =
     \<lparr>rg_Name = [], rg_Description = [], rg_MemberApprovalType = [], rg_Owners = NilSlice, rg_ContactList = [],
      rg_DisplayName = None, rg_Notes = [], rg_RoverGroupMemberQuery = None, rg_RoverGroupInclusions = NilSlice,
      rg_RoverGroupExclusions = NilSlice, rg_Members = NilSlice, rg_MemberOf = None, rg_Namespace = None\<rparr>"

definition empty_mod :: MemberModRequest where
  "empty_mod = \<lparr>mod_Additions = NilSlice, mod_Deletions = NilSlice\<rparr>"

text \<open>The encoders and decoders that \<^verbatim>\<open>encoding/json\<close> derives from the struct tags.\<close>

fun json_ptr :: "string option \<Rightarrow> json" where
  "json_ptr None = JNull"
| "json_ptr (Some s) = JStr s"

definition json_member :: "Member \<Rightarrow> json" where
  "json_member m = JObj [(''type'', JStr (m_Type m)), (''id'', JStr (m_ID m))]"

definition json_group :: "RoverGroup \<Rightarrow> json" where
  "json_group g = JObj
     [(''name'', JStr (rg_Name g)), (''description'', JStr (rg_Description g)),
      (''memberApprovalType'', JStr (rg_MemberApprovalType g)), (''owners'', json_slice json_member (rg_Owners g)),
      (''contactList'', JStr (rg_ContactList g)), (''displayName'', json_ptr (rg_DisplayName g)), (''notes'', JStr (rg_Notes g)),
      (''roverGroupMemberQuery'', json_ptr (rg_RoverGroupMemberQuery g)),
      (''roverGroupInclusions'', json_slice json_member (rg_RoverGroupInclusions g)),
      (''roverGroupExclusions'', json_slice json_member (rg_RoverGroupExclusions g)),
      (''members'', json_slice json_member (rg_Members g)), (''memberOf'', json_ptr (rg_MemberOf g)),
      (''namespace'', json_ptr (rg_Namespace g))]"

definition json_mod :: "MemberModRequest \<Rightarrow> json" where
  "json_mod r = JObj
     [(''additions'', json_slice json_member (mod_Additions r)), (''deletions'', json_slice json_member (mod_Deletions r))]"

definition dec_member :: "Member decoder" where
  "dec_member = dec_struct
     [(''type'', \<lambda>j m. map_option (\<lambda>v. m\<lparr>m_Type := v\<rparr>) (dec_string j (m_Type m))),
      (''id'', \<lambda>j m. map_option (\<lambda>v. m\<lparr>m_ID := v\<rparr>) (dec_string j (m_ID m)))]"

definition dec_members :: "Member slice decoder" where
  "dec_members = dec_slice empty_member dec_member"

definition dec_group :: "RoverGroup decoder" where
  "dec_group = dec_struct
     [(''name'', \<lambda>j g. map_option (\<lambda>v. g\<lparr>rg_Name := v\<rparr>) (dec_string j (rg_Name g))),
      (''description'', \<lambda>j g. map_option (\<lambda>v. g\<lparr>rg_Description := v\<rparr>) (dec_string j (rg_Description g))),
      (''memberApprovalType'', \<lambda>j g. map_option (\<lambda>v. g\<lparr>rg_MemberApprovalType := v\<rparr>) (dec_string j (rg_MemberApprovalType g))),
      (''owners'', \<lambda>j g. map_option (\<lambda>v. g\<lparr>rg_Owners := v\<rparr>) (dec_members j (rg_Owners g))),
      (''contactList'', \<lambda>j g. map_option (\<lambda>v. g\<lparr>rg_ContactList := v\<rparr>) (dec_string j (rg_ContactList g))),
      (''displayName'', \<lambda>j g. map_option (\<lambda>v. g\<lparr>rg_DisplayName := v\<rparr>) (dec_string_ptr j (rg_DisplayName g))),
      (''notes'', \<lambda>j g. map_option (\<lambda>v. g\<lparr>rg_Notes := v\<rparr>) (dec_string j (rg_Notes g))),
      (''roverGroupMemberQuery'', \<lambda>j g. map_option (\<lambda>v. g\<lparr>rg_RoverGroupMemberQuery := v\<rparr>) (dec_string_ptr j (rg_RoverGroupMemberQuery g))),
      (''roverGroupInclusions'', \<lambda>j g. map_option (\<lambda>v. g\<lparr>rg_RoverGroupInclusions := v\<rparr>) (dec_members j (rg_RoverGroupInclusions g))),
      (''roverGroupExclusions'', \<lambda>j g. map_option (\<lambda>v. g\<lparr>rg_RoverGroupExclusions := v\<rparr>) (dec_members j (rg_RoverGroupExclusions g))),
      (''members'', \<lambda>j g. map_option (\<lambda>v. g\<lparr>rg_Members := v\<rparr>) (dec_members j (rg_Members g))),
      (''memberOf'', \<lambda>j g. map_option (\<lambda>v. g\<lparr>rg_MemberOf := v\<rparr>) (dec_string_ptr j (rg_MemberOf g))),
      (''namespace'', \<lambda>j g. map_option (\<lambda>v. g\<lparr>rg_Namespace := v\<rparr>) (dec_string_ptr j (rg_Namespace g)))]"

definition dec_mod :: "MemberModRequest decoder" where
  "dec_mod = dec_struct
     [(''additions'', \<lambda>j r. map_option (\<lambda>v. r\<lparr>mod_Additions := v\<rparr>) (dec_members j (mod_Additions r))),
      (''deletions'', \<lambda>j r. map_option (\<lambda>v. r\<lparr>mod_Deletions := v\<rparr>) (dec_members j (mod_Deletions r)))]"

section \<open>Construction\<close>

record RoverClient =
  rc_serviceAccountName :: string
  rc_url :: string

record RoverConfig =
  rcfg_URL :: string
  rcfg_PrivateKeyPath :: string
  rcfg_CertPath :: string
  rcfg_ServiceAccountName :: string

definition rover_config_fields :: "field list" where
  "rover_config_fields =
     [Field ''URL'' True ''url'' TString, Field ''PrivateKeyPath'' True ''private_key_path'' TString,
      Field ''CertPath'' True ''cert_path'' TString, Field ''ServiceAccountName'' True ''service_account_name'' TString]"

fun rover_config_of_target :: "target \<Rightarrow> RoverConfig" where
  "rover_config_of_target (Pointer _ (SStruct [u, k, c, n])) =
     \<lparr>rcfg_URL = string_of_tval u, rcfg_PrivateKeyPath = string_of_tval k, rcfg_CertPath = string_of_tval c,
      rcfg_ServiceAccountName = string_of_tval n\<rparr>"
| "rover_config_of_target _ = \<lparr>rcfg_URL = [], rcfg_PrivateKeyPath = [], rcfg_CertPath = [], rcfg_ServiceAccountName = []\<rparr>"

definition rover_config_of :: "env \<Rightarrow> iter \<Rightarrow> goval gomap \<Rightarrow> RoverConfig result" where
  "rover_config_of E it data =
     (case MapToStruct E it data (Pointer (TStruct rover_config_fields) (zero_val (TStruct rover_config_fields))) of
        (_, Some err) \<Rightarrow> Inl err
      | (target, None) \<Rightarrow> Inr (rover_config_of_target target))"

definition rover_retrier :: retrier where
  "rover_retrier = ConstantBackoff (milliseconds 100) (milliseconds 50)"

definition rover_NewClient ::
    "env \<Rightarrow> iter \<Rightarrow> ('k, 'p) tls_env \<Rightarrow> goval gomap \<Rightarrow> ConnectionPoolConfig \<Rightarrow> HystrixResiliencyConfig \<Rightarrow>
     (RoverClient \<times> ('k, 'p) hystrix_options) result" where
  "rover_NewClient E it T data pool hystrixCfg =
     (case rover_config_of E it data of
        Inl err \<Rightarrow> Inl err
      | Inr cfg \<Rightarrow>
          if rcfg_CertPath cfg = [] \<or> rcfg_PrivateKeyPath cfg = [] \<or> rcfg_URL cfg = [] \<or> rcfg_ServiceAccountName cfg = [] then
            Inl (GoErr ''rover configuration is missing required fields: URL, CertPath, PrivateKeyPath, or ServiceAccountName'')
          else
            (case InitializeClient T ''redhat_rover''
                    (pool\<lparr>CertPath := rcfg_CertPath cfg, PrivateKeyPath := rcfg_PrivateKeyPath cfg\<rparr>)
                    hystrixCfg (Some rover_retrier) 3 False of
               Inl err \<Rightarrow> Inl (errorf ''failed to initialize http client: '' err)
             | Inr opts \<Rightarrow> Inr (\<lparr>rc_serviceAccountName = rcfg_ServiceAccountName cfg, rc_url = rcfg_URL cfg\<rparr>, opts)))"

section \<open>Requests\<close>

definition rover_sendRequest :: "'b http \<Rightarrow> string \<Rightarrow> string \<Rightarrow> json option \<Rightarrow> string gomap \<Rightarrow> 'b \<Rightarrow> reply \<times> 'b" where
  "rover_sendRequest h url meth body headers b =
     (if url = [] then (([], 0, Some (GoErr ''URL cannot be empty'')), b)
      else if meth = [] then (([], 0, Some (GoErr ''HTTP method cannot be empty'')), b)
      else
        (case NewRequest h meth url (case body of None \<Rightarrow> [] | Some j \<Rightarrow> print_json j) of
           Inl err \<Rightarrow> (([], 0, Some err), b)
         | Inr req \<Rightarrow> MakeRequest h (SetHeaders (header_order h) headers req) b))"

text \<open>\<^verbatim>\<open>url.PathEscape\<close>\<close>

definition path_safe :: "char \<Rightarrow> bool" where
  "path_safe c \<longleftrightarrow>
     (CHR ''a'' \<le> c \<and> c \<le> CHR ''z'') \<or> (CHR ''A'' \<le> c \<and> c \<le> CHR ''Z'') \<or> (CHR ''0'' \<le> c \<and> c \<le> CHR ''9'') \<or> c \<in> set ''-_.~$&+:=@''"

definition upper_hex :: "nat \<Rightarrow> char" where
  "upper_hex n = (if n < 10 then chr (48 + n) else chr (55 + n))"

definition PathEscape :: "string \<Rightarrow> string" where
  "PathEscape s = concat (map (\<lambda>c. if path_safe c then [c] else [CHR ''%'', upper_hex (ord c div 16), upper_hex (ord c mod 16)]) s)"

section \<open>Teams\<close>

definition rv_FetchAllTeams :: "'b \<Rightarrow> Team gomap result \<times> 'b" where
  "rv_FetchAllTeams b = (Inr [], b)"

definition rv_FetchTeamDetails :: "string \<Rightarrow> 'b \<Rightarrow> Team result \<times> 'b" where
  "rv_FetchTeamDetails teamID b = (Inl (GoErr ''fetching team details is not supported''), b)"

definition rover_group_of :: "RoverClient \<Rightarrow> Team \<Rightarrow> RoverGroup" where
  "rover_group_of rC team =
     empty_group\<lparr>rg_Name := t_Name team, rg_Description := t_Description team,
       rg_MemberApprovalType := MemberApprovalTypeSelfService,
       rg_Owners := Slice [\<lparr>m_Type = MemberTypeServiceAccount, m_ID = rc_serviceAccountName rC\<rparr>] [],
       rg_ContactList := defaultContactEmail, rg_Notes := ''Created by Usernaut''\<rparr>"

definition rover_team :: "Team \<Rightarrow> Team" where
  "rover_team team = empty_team\<lparr>t_ID := t_Name team, t_Name := t_Name team, t_Description := t_Description team\<rparr>"

definition rv_CreateTeam :: "'b http \<Rightarrow> RoverClient \<Rightarrow> Team \<Rightarrow> 'b \<Rightarrow> Team result \<times> 'b" where
  "rv_CreateTeam h rC team b =
     (let ((resp, respCode, err), b') =
        rover_sendRequest h (rc_url rC @ ''/v1/groups'') ''POST'' (Some (json_group (rover_group_of rC team))) rover_headers b
      in (case err of
            Some e \<Rightarrow> if respCode \<noteq> 403 then Inl e else Inr (rover_team team)
          | None \<Rightarrow>
              if respCode = 403 then Inr (rover_team team)
              else if respCode \<noteq> 201 then Inl (GoErr (''failed to create rover group: '' @ resp))
              else Inr (rover_team team), b'))"

definition rv_DeleteTeamByID :: "'b http \<Rightarrow> RoverClient \<Rightarrow> string \<Rightarrow> 'b \<Rightarrow> gerror option \<times> 'b" where
  "rv_DeleteTeamByID h rC teamID b =
     (let ((resp, respCode, err), b') =
        rover_sendRequest h (rc_url rC @ ''/v1/groups/'' @ PathEscape teamID) ''DELETE'' None rover_headers b
      in (if respCode = 404 then None
          else case err of
            Some e \<Rightarrow> Some e
          | None \<Rightarrow>
              if respCode \<noteq> 200 \<and> respCode \<noteq> 204 then Some (GoErr (''failed to delete rover group: '' @ resp)) else None, b'))"

section \<open>Membership\<close>

definition add_rover_member :: "Member \<Rightarrow> User gomap \<Rightarrow> User gomap" where
  "add_rover_member m acc =
     (if m_Type m \<noteq> MemberTypeUser then acc else AList.update (m_ID m) (empty_user\<lparr>u_ID := m_ID m\<rparr>) acc)"

definition rv_FetchTeamMembersByTeamID :: "'b http \<Rightarrow> RoverClient \<Rightarrow> string \<Rightarrow> 'b \<Rightarrow> User gomap result \<times> 'b" where
  "rv_FetchTeamMembersByTeamID h rC teamID b =
     (let ((resp, respCode, err), b') = rover_sendRequest h (rc_url rC @ ''/v1/groups/'' @ teamID) ''GET'' None rover_headers b
      in (case err of
            Some e \<Rightarrow> Inl e
          | None \<Rightarrow>
              if respCode \<noteq> 200 then Inl (GoErr (''failed to fetch rover group members with response code: '' @ StatusText respCode))
              else
                (case Unmarshal dec_group resp empty_group of
                   Inl jErr \<Rightarrow> Inl (GoErr (''failed to decode rover group response: '' @ Error jErr))
                 | Inr roverGroup \<Rightarrow> Inr (fold add_rover_member (elements (rg_Members roverGroup)) [])), b'))"

definition user_members :: "string list \<Rightarrow> Member slice" where
  "user_members userIDs = Slice (map (\<lambda>i. \<lparr>m_Type = MemberTypeUser, m_ID = i\<rparr>) userIDs) []"

definition mod_request :: "string \<Rightarrow> string list \<Rightarrow> MemberModRequest result" where
  "mod_request action userIDs =
     (if action = ''add'' then Inr (empty_mod\<lparr>mod_Additions := user_members userIDs\<rparr>)
      else if action = ''remove'' then Inr (empty_mod\<lparr>mod_Deletions := user_members userIDs\<rparr>)
      else Inl (GoErr (''invalid action:'' @ action)))"

definition rv_modify :: "'b http \<Rightarrow> RoverClient \<Rightarrow> string \<Rightarrow> string \<Rightarrow> string list \<Rightarrow> 'b \<Rightarrow> gerror option \<times> 'b" where
  "rv_modify h rC action teamID userIDs b =
     (case mod_request action userIDs of
        Inl err \<Rightarrow> (Some err, b)
      | Inr req \<Rightarrow>
          (let ((resp, respCode, err), b') =
             rover_sendRequest h (rc_url rC @ ''/v1/groups/'' @ teamID @ ''/membersMod'') ''POST'' (Some (json_mod req)) rover_headers b
           in (case err of
                 Some e \<Rightarrow> Some e
               | None \<Rightarrow>
                   if respCode \<noteq> 200 then
                     Some (GoErr (''failed to '' @ action @ '' users in rover group with response code: '' @ StatusText respCode))
                   else None, b')))"

definition rv_AddUserToTeam :: "'b http \<Rightarrow> RoverClient \<Rightarrow> string \<Rightarrow> string list \<Rightarrow> 'b \<Rightarrow> gerror option \<times> 'b" where
  "rv_AddUserToTeam h rC teamID userIDs b = rv_modify h rC ''add'' teamID userIDs b"

definition rv_RemoveUserFromTeam :: "'b http \<Rightarrow> RoverClient \<Rightarrow> string \<Rightarrow> string list \<Rightarrow> 'b \<Rightarrow> gerror option \<times> 'b" where
  "rv_RemoveUserFromTeam h rC teamID userIDs b = rv_modify h rC ''remove'' teamID userIDs b"

section \<open>Users\<close>

definition rv_FetchAllUsers :: "'b \<Rightarrow> (User gomap \<times> User gomap) result \<times> 'b" where
  "rv_FetchAllUsers b = (Inr ([], []), b)"

definition rv_FetchUserDetails :: "string \<Rightarrow> 'b \<Rightarrow> User result \<times> 'b" where
  "rv_FetchUserDetails userID b = (Inr empty_user, b)"

definition rv_CreateUser :: "User \<Rightarrow> 'b \<Rightarrow> User result \<times> 'b" where
  "rv_CreateUser u b = (Inr (empty_user\<lparr>u_ID := u_UserName u\<rparr>), b)"

definition rv_DeleteUser :: "string \<Rightarrow> 'b \<Rightarrow> gerror option \<times> 'b" where
  "rv_DeleteUser userID b = (None, b)"

definition rover_client :: "'b http \<Rightarrow> RoverClient \<Rightarrow> 'b client" where
  "rover_client h rC =
     \<lparr>FetchAllUsers = rv_FetchAllUsers, FetchUserDetails = rv_FetchUserDetails, CreateUser = rv_CreateUser,
      DeleteUser = rv_DeleteUser, FetchAllTeams = rv_FetchAllTeams, FetchTeamDetails = rv_FetchTeamDetails,
      CreateTeam = rv_CreateTeam h rC, DeleteTeamByID = rv_DeleteTeamByID h rC,
      FetchTeamMembersByTeamID = rv_FetchTeamMembersByTeamID h rC, AddUserToTeam = rv_AddUserToTeam h rC,
      RemoveUserFromTeam = rv_RemoveUserFromTeam h rC\<rparr>"

section \<open>Encoding and decoding\<close>

definition valid_member :: "Member \<Rightarrow> bool" where
  "valid_member m \<longleftrightarrow> valid_utf8 (m_Type m) \<and> valid_utf8 (m_ID m)"

fun valid_slice :: "Member slice \<Rightarrow> bool" where
  "valid_slice NilSlice = True"
| "valid_slice (Slice xs beyond) = (list_all valid_member xs \<and> beyond = [])"

fun valid_ptr :: "string option \<Rightarrow> bool" where
  "valid_ptr None = True"
| "valid_ptr (Some s) = valid_utf8 s"

definition valid_group :: "RoverGroup \<Rightarrow> bool" where
  "valid_group g \<longleftrightarrow>
     valid_utf8 (rg_Name g) \<and> valid_utf8 (rg_Description g) \<and> valid_utf8 (rg_MemberApprovalType g) \<and> valid_slice (rg_Owners g) \<and>
     valid_utf8 (rg_ContactList g) \<and> valid_ptr (rg_DisplayName g) \<and> valid_utf8 (rg_Notes g) \<and> valid_ptr (rg_RoverGroupMemberQuery g) \<and>
     valid_slice (rg_RoverGroupInclusions g) \<and> valid_slice (rg_RoverGroupExclusions g) \<and> valid_slice (rg_Members g) \<and>
     valid_ptr (rg_MemberOf g) \<and> valid_ptr (rg_Namespace g)"

definition valid_mod :: "MemberModRequest \<Rightarrow> bool" where
  "valid_mod r \<longleftrightarrow> valid_slice (mod_Additions r) \<and> valid_slice (mod_Deletions r)"

lemma valid_names:
  "valid_utf8 ''type''" "valid_utf8 ''id''" "valid_utf8 ''name''" "valid_utf8 ''description''" "valid_utf8 ''memberApprovalType''"
  "valid_utf8 ''owners''" "valid_utf8 ''contactList''" "valid_utf8 ''displayName''" "valid_utf8 ''notes''"
  "valid_utf8 ''roverGroupMemberQuery''" "valid_utf8 ''roverGroupInclusions''" "valid_utf8 ''roverGroupExclusions''"
  "valid_utf8 ''members''" "valid_utf8 ''memberOf''" "valid_utf8 ''namespace''" "valid_utf8 ''additions''" "valid_utf8 ''deletions''"
  "valid_utf8 ''user''"
  by (rule valid_ascii_list, simp)+

lemma valid_json_member: "valid_json (json_member m) \<longleftrightarrow> valid_member m"
  by (simp add: json_member_def valid_member_def valid_names)

lemma valid_json_slice: "valid_slice s \<Longrightarrow> valid_json (json_slice json_member s)"
  by (cases s) (auto simp: list_all_iff valid_json_member)

lemma valid_json_ptr: "valid_ptr p \<Longrightarrow> valid_json (json_ptr p)"
  by (cases p) auto

lemma dec_json_member: "dec_member (json_member m) old = Some m"
  by (simp add: dec_member_def json_member_def select_field_def)

lemma dec_json_members: "valid_slice s \<Longrightarrow> dec_members (json_slice json_member s) NilSlice = Some s"
  by (cases s) (auto simp: dec_members_def dec_elements_fresh dec_json_member comp_def those_map_Some [where g = "\<lambda>m. m"])

lemma dec_json_ptr: "dec_string_ptr (json_ptr p) old = Some p"
  by (cases p) auto

lemmas json_parts = valid_names valid_json_slice valid_json_ptr dec_json_members dec_json_ptr

text \<open>Reading back one field after the other.\<close>

lemma dec_field:
  "map_of fs key = Some d \<Longrightarrow> d j old = Some v \<Longrightarrow> dec_fields fs ((key, j) # ms) old = dec_fields fs ms v"
  by (simp add: select_field_def)

lemma valid_json_mod: "valid_mod r \<Longrightarrow> valid_json (json_mod r)"
  by (simp add: valid_mod_def json_mod_def json_parts)

lemma dec_json_mod: "valid_mod r \<Longrightarrow> dec_mod (json_mod r) empty_mod = Some r"
  by (simp add: valid_mod_def json_mod_def dec_mod_def empty_mod_def dec_field json_parts del: dec_fields.simps(2))

lemma mod_round_trip: "valid_mod r \<Longrightarrow> Unmarshal dec_mod (print_json (json_mod r)) empty_mod = Inr r"
  by (simp only: Unmarshal_valid [OF valid_json_mod] dec_json_mod option.case)

lemma valid_json_group: "valid_group g \<Longrightarrow> valid_json (json_group g)"
  by (simp add: valid_group_def json_group_def json_parts)

lemma dec_json_group: "valid_group g \<Longrightarrow> dec_group (json_group g) empty_group = Some g"
  by (simp add: valid_group_def json_group_def dec_group_def empty_group_def dec_field json_parts del: dec_fields.simps(2))

lemma group_decoded: "valid_group g \<Longrightarrow> Unmarshal dec_group (print_json (json_group g)) empty_group = Inr g"
  by (simp only: Unmarshal_valid [OF valid_json_group] dec_json_group option.case)

section \<open>What is relied on of the service\<close>

definition user_ids :: "Member slice \<Rightarrow> string set" where
  "user_ids s = {m_ID m |m. m \<in> set (elements s) \<and> m_Type m = MemberTypeUser}"

text \<open>
  \<open>M b t\<close> are the user members of the group \<open>t\<close>: a group that is read is sent as its JSON object, and a
  modification that is answered with OK has been carried out on that group only.
\<close>

definition rover_service :: "'b http \<Rightarrow> string \<Rightarrow> ('b \<Rightarrow> string \<Rightarrow> string set) \<Rightarrow> bool" where
  "rover_service h url M \<longleftrightarrow>
     (\<forall>t r b res b' body. rq_method r = ''GET'' \<longrightarrow> rq_url r = url @ ''/v1/groups/'' @ t \<longrightarrow> Do h r b = (Inr res, b') \<longrightarrow>
        StatusCode res = 200 \<longrightarrow> rs_body res = Inr body \<longrightarrow>
        (\<exists>g. body = print_json (json_group g) \<and> valid_group g \<and> user_ids (rg_Members g) = M b t) \<and> M b' = M b) \<and>
     (\<forall>t r b res b' req. rq_method r = ''POST'' \<longrightarrow> rq_url r = url @ ''/v1/groups/'' @ t @ ''/membersMod'' \<longrightarrow>
        rq_body r = print_json (json_mod req) \<longrightarrow> valid_mod req \<longrightarrow> Do h r b = (Inr res, b') \<longrightarrow> StatusCode res = 200 \<longrightarrow>
        M b' = (M b)(t := M b t \<union> user_ids (mod_Additions req) - user_ids (mod_Deletions req)))"

lemma rover_serviceD:
  assumes "rover_service h url M"
  shows "rq_method r = ''GET'' \<Longrightarrow> rq_url r = url @ ''/v1/groups/'' @ t \<Longrightarrow> Do h r b = (Inr res, b') \<Longrightarrow>
      StatusCode res = 200 \<Longrightarrow> rs_body res = Inr body \<Longrightarrow>
      (\<exists>g. body = print_json (json_group g) \<and> valid_group g \<and> user_ids (rg_Members g) = M b t) \<and> M b' = M b"
    and "rq_method r = ''POST'' \<Longrightarrow> rq_url r = url @ ''/v1/groups/'' @ t @ ''/membersMod'' \<Longrightarrow>
      rq_body r = print_json (json_mod req) \<Longrightarrow> valid_mod req \<Longrightarrow> Do h r b = (Inr res, b') \<Longrightarrow> StatusCode res = 200 \<Longrightarrow>
      M b' = (M b)(t := M b t \<union> user_ids (mod_Additions req) - user_ids (mod_Deletions req))"
  using assms unfolding rover_service_def by blast+

text \<open>A request without an error: what was sent and what came back.\<close>

lemma rover_sendRequest_ok:
  assumes "rover_sendRequest h url meth body headers b = ((resp, code, None), b')"
  obtains r res where "rq_method r = meth" "rq_url r = url" "rq_body r = (case body of None \<Rightarrow> [] | Some j \<Rightarrow> print_json j)"
    "Do h r b = (Inr res, b')" "StatusCode res = code" "rs_body res = Inr resp"
proof -
  from assms obtain req where ne: "url \<noteq> []" "meth \<noteq> []"
    and req: "NewRequest h meth url (case body of None \<Rightarrow> [] | Some j \<Rightarrow> print_json j) = Inr req"
    and mk: "MakeRequest h (SetHeaders (header_order h) headers req) b = ((resp, code, None), b')"
    by (auto simp: rover_sendRequest_def split: if_splits sum.splits)
  obtain d b1 where d: "Do h (SetHeaders (header_order h) headers req) b = (d, b1)" by (rule prod.exhaust)
  from mk d obtain res where "d = Inr res" "b1 = b'" "rs_body res = Inr resp" "StatusCode res = code"
    by (auto simp: MakeRequest_def request_send_def split: sum.splits option.splits)
  with d req ne that [of "SetHeaders (header_order h) headers req" res] show ?thesis
    by (auto simp: NewRequest_def SetHeaders_def split: option.splits)
qed

lemma add_rover_members:
  "fst ` set (fold add_rover_member ms acc) = fst ` set acc \<union> {m_ID m |m. m \<in> set ms \<and> m_Type m = MemberTypeUser}"
  "wf_gomap acc \<Longrightarrow> wf_gomap (fold add_rover_member ms acc)"
  by (induction ms arbitrary: acc) (auto simp: add_rover_member_def dom_update)

lemma user_ids_user_members: "user_ids (user_members us) = set us" "user_ids NilSlice = {}"
  by (force simp: user_ids_def user_members_def)+

lemma valid_user_members: "\<forall>i \<in> set us. valid_utf8 i \<Longrightarrow> valid_slice (user_members us)"
  by (simp add: user_members_def list_all_iff valid_member_def MemberTypeUser_def valid_names)

lemma valid_user_ids: "valid_slice s \<Longrightarrow> i \<in> user_ids s \<Longrightarrow> valid_utf8 i"
  by (cases s) (auto simp: user_ids_def list_all_iff valid_member_def)

lemma rv_listing:
  assumes "rover_service h (rc_url rC) M" and "rv_FetchTeamMembersByTeamID h rC t b = (Inr ms, b')"
  shows "wf_gomap ms \<and> fst ` set ms = M b t \<and> M b' = M b \<and> (\<forall>i \<in> fst ` set ms. valid_utf8 i)"
proof -
  from assms(2) obtain resp g where
    s: "rover_sendRequest h (rc_url rC @ ''/v1/groups/'' @ t) ''GET'' None rover_headers b = ((resp, 200, None), b')"
    and g: "Unmarshal dec_group resp empty_group = Inr g" "ms = fold add_rover_member (elements (rg_Members g)) []"
    by (auto simp: rv_FetchTeamMembersByTeamID_def Let_def split: prod.splits option.splits if_splits sum.splits)
  from s obtain r res where r: "rq_method r = ''GET''" "rq_url r = rc_url rC @ ''/v1/groups/'' @ t" "Do h r b = (Inr res, b')"
    "StatusCode res = 200" "rs_body res = Inr resp" by (rule rover_sendRequest_ok)
  from rover_serviceD(1) [OF assms(1) r] obtain g' where
    "resp = print_json (json_group g')" "valid_group g'" "user_ids (rg_Members g') = M b t" "M b' = M b" by blast
  moreover from this g(1) have "g = g'" by (simp add: group_decoded)
  moreover from \<open>valid_group g'\<close> have "valid_slice (rg_Members g')" by (simp add: valid_group_def)
  ultimately show ?thesis
    unfolding g(2) using valid_user_ids by (auto simp: add_rover_members user_ids_def)
qed

lemma rv_modify_ok:
  assumes "rover_service h (rc_url rC) M" and "mod_request action us = Inr req" and "valid_mod req"
    and "rv_modify h rC action t us b = (None, b')"
  shows "M b' = (M b)(t := M b t \<union> user_ids (mod_Additions req) - user_ids (mod_Deletions req))"
proof -
  from assms(2,4) obtain resp where
    "rover_sendRequest h (rc_url rC @ ''/v1/groups/'' @ t @ ''/membersMod'') ''POST'' (Some (json_mod req)) rover_headers b
       = ((resp, 200, None), b')"
    by (auto simp: rv_modify_def Let_def split: prod.splits option.splits if_splits)
  then obtain r res where "rq_method r = ''POST''" "rq_url r = rc_url rC @ ''/v1/groups/'' @ t @ ''/membersMod''"
    "rq_body r = (case Some (json_mod req) of None \<Rightarrow> [] | Some j \<Rightarrow> print_json j)" "Do h r b = (Inr res, b')" "StatusCode res = 200"
    by (rule rover_sendRequest_ok)
  then show ?thesis using rover_serviceD(2) [OF assms(1)] assms(3) by simp
qed

section \<open>Main results\<close>

lemma rover_backend:
  assumes "rover_service h (rc_url rC) M"
  shows "team_backend valid_utf8 (rover_client h rC) M"
proof -
  have add: "M b' = (M b)(t := M b t \<union> set us)"
    if "\<forall>i \<in> set us. valid_utf8 i" "rv_AddUserToTeam h rC t us b = (None, b')" for t us b b'
    using rv_modify_ok [OF assms, of "''add''" us "empty_mod\<lparr>mod_Additions := user_members us\<rparr>"] that
    by (simp add: rv_AddUserToTeam_def mod_request_def valid_mod_def empty_mod_def valid_user_members user_ids_user_members)
  have rm: "M b' = (M b)(t := M b t - set us)"
    if "\<forall>i \<in> set us. valid_utf8 i" "rv_RemoveUserFromTeam h rC t us b = (None, b')" for t us b b'
    using rv_modify_ok [OF assms, of "''remove''" us "empty_mod\<lparr>mod_Deletions := user_members us\<rparr>"] that
    by (simp add: rv_RemoveUserFromTeam_def mod_request_def valid_mod_def empty_mod_def valid_user_members user_ids_user_members)
  show ?thesis
  proof (rule team_backendI)
    show "FetchTeamMembersByTeamID (rover_client h rC) t b = (Inr ms, b') \<Longrightarrow>
        wf_gomap ms \<and> fst ` set ms = M b t \<and> M b' = M b \<and> (\<forall>i \<in> fst ` set ms. valid_utf8 i)" for t b ms b'
      unfolding rover_client_def client.simps by (rule rv_listing [OF assms])
  qed (use add rm in \<open>simp_all add: rover_client_def\<close>)
qed


text \<open>A service over the demo backend, at the address \<open>r\<close>.\<close>

definition demo_prefix :: string where
  "demo_prefix = ''r/v1/groups/''"

definition demo_group :: "demo \<Rightarrow> string \<Rightarrow> RoverGroup" where
  "demo_group b t = empty_group\<lparr>rg_Members := user_members (filter valid_utf8 (demo_members b t))\<rparr>"

definition ids_of :: "Member slice \<Rightarrow> string list" where
  "ids_of s = map m_ID (filter (\<lambda>m. m_Type m = MemberTypeUser) (elements s))"

definition demo_modify :: "string \<Rightarrow> MemberModRequest \<Rightarrow> demo \<Rightarrow> demo" where
  "demo_modify t req b =
     AList.update t (filter (\<lambda>i. i \<notin> set (ids_of (mod_Deletions req))) (demo_members b t @ ids_of (mod_Additions req))) b"

definition ok_response :: "string \<Rightarrow> http_response" where
  "ok_response body = \<lparr>StatusCode = 200, rs_header = [], rs_body = Inr body, rs_close = None\<rparr>"

definition rover_demo :: "demo http" where
  "rover_demo =
     \<lparr>NewRequestErr = \<lambda>m u. None,
      Do = \<lambda>r b.
        (if rq_method r = ''GET'' then (Inr (ok_response (print_json (json_group (demo_group b (drop 12 (rq_url r)))))), b)
         else if rq_method r = ''POST'' then
           (case Unmarshal dec_mod (rq_body r) empty_mod of
              Inl e \<Rightarrow> (Inl e, b)
            | Inr req \<Rightarrow> (Inr (ok_response []), demo_modify (take (length (rq_url r) - 23) (drop 12 (rq_url r))) req b))
         else (Inl (GoErr ''unsupported''), b)),
      header_order = rev\<rparr>"

definition demo_valid_members :: "demo \<Rightarrow> string \<Rightarrow> string set" where
  "demo_valid_members b t = set (filter valid_utf8 (demo_members b t))"

lemma set_ids_of: "set (ids_of s) = user_ids s"
  by (auto simp: ids_of_def user_ids_def)

lemma demo_members_updated: "demo_members (AList.update t ms b) = (demo_members b)(t := ms)"
  by (simp add: demo_members_def gomap_simps fun_eq_iff)

lemma valid_demo_group: "valid_group (demo_group b t)"
  using valid_user_members [of "filter valid_utf8 (demo_members b t)"] by (simp add: demo_group_def valid_group_def empty_group_def)

lemma rover_demo_service: "rover_service rover_demo ''r'' demo_valid_members"
  unfolding rover_service_def
proof (intro conjI allI impI)
  fix t r b res b' body
  assume "rq_method r = ''GET''" "rq_url r = ''r'' @ ''/v1/groups/'' @ t" "Do rover_demo r b = (Inr res, b')" "rs_body res = Inr body"
  then have "body = print_json (json_group (demo_group b t))" "b' = b" by (auto simp: rover_demo_def ok_response_def)
  moreover have "user_ids (rg_Members (demo_group b t)) = demo_valid_members b t"
    by (simp add: demo_group_def user_ids_user_members demo_valid_members_def)
  ultimately show "\<exists>g. body = print_json (json_group g) \<and> valid_group g \<and> user_ids (rg_Members g) = demo_valid_members b t"
    "demo_valid_members b' = demo_valid_members b" using valid_demo_group by auto
next
  fix t r b res b' req
  assume r: "rq_method r = ''POST''" "rq_url r = ''r'' @ ''/v1/groups/'' @ t @ ''/membersMod''" "rq_body r = print_json (json_mod req)"
    "valid_mod req" "Do rover_demo r b = (Inr res, b')"
  then have "b' = demo_modify t req b" by (simp add: rover_demo_def mod_round_trip)
  moreover have "valid_utf8 i" if "i \<in> user_ids (mod_Additions req)" for i
    using r(4) that valid_user_ids by (auto simp: valid_mod_def)
  ultimately show "demo_valid_members b' = (demo_valid_members b)
      (t := demo_valid_members b t \<union> user_ids (mod_Additions req) - user_ids (mod_Deletions req))"
    by (auto simp: demo_modify_def demo_valid_members_def demo_members_updated set_ids_of fun_eq_iff)
qed

definition demo_rover :: RoverClient where
  "demo_rover = \<lparr>rc_serviceAccountName = ''sa'', rc_url = ''r''\<rparr>"


text \<open>
  C38: What the Rover client encodes it decodes to the same value: a group, with its lists and its absent
  fields, and a membership change, both with strings of valid UTF-8.
\<close>

theorem rover_json_round_trip:
  assumes "valid_group g" and "valid_mod r"
  shows "Unmarshal dec_group (print_json (json_group g)) empty_group = Inr g \<and>
         Unmarshal dec_mod (print_json (json_mod r)) empty_mod = Inr r"
  using assms by (simp add: group_decoded mod_round_trip)

theorem rover_json_round_trip_witness:
  "Unmarshal dec_group (print_json (json_group (demo_group [(''t'', [''a'', ''b''])] ''t''))) empty_group =
     Inr (demo_group [(''t'', [''a'', ''b''])] ''t'') \<and>
   Unmarshal dec_mod (print_json (json_mod (empty_mod\<lparr>mod_Deletions := user_members [''a'']\<rparr>))) empty_mod =
     Inr (empty_mod\<lparr>mod_Deletions := user_members [''a'']\<rparr>)"
proof (rule rover_json_round_trip)
  show "valid_group (demo_group [(''t'', [''a'', ''b''])] ''t'')" by (rule valid_demo_group)
  have "\<forall>i \<in> set [''a'']. valid_utf8 i" by (simp add: valid_ascii)
  from valid_user_members [OF this] show "valid_mod (empty_mod\<lparr>mod_Deletions := user_members [''a'']\<rparr>)"
    by (simp add: valid_mod_def empty_mod_def)
qed

section \<open>Groups\<close>

lemma PathEscape_safe: "list_all path_safe s \<Longrightarrow> PathEscape s = s"
  by (induction s) (auto simp: PathEscape_def)

lemma length_PathEscape: "length s \<le> length (PathEscape s)"
  by (induction s) (auto simp: PathEscape_def)

lemma PathEscape_id_iff: "PathEscape s = s \<longleftrightarrow> list_all path_safe s"
proof
  show "PathEscape s = s \<Longrightarrow> list_all path_safe s"
  proof (induction s)
    case (Cons c s)
    show ?case
    proof (cases "path_safe c")
      case False
      then have "length (PathEscape (c # s)) = 3 + length (PathEscape s)" by (simp add: PathEscape_def)
      with Cons.prems length_PathEscape [of s] show ?thesis by simp
    qed (use Cons in \<open>simp add: PathEscape_def\<close>)
  qed simp
qed (rule PathEscape_safe)

text \<open>
  Deleting a Rover group succeeds exactly when the service answers 404, 200 or 204 and the answer could
  be read.  The group is addressed by its escaped name, while its members are read and modified at
  the unescaped one: the two are the same resource exactly for names of unreserved characters.
\<close>

theorem rover_delete_group:
  assumes "rover_sendRequest h (rc_url rC @ ''/v1/groups/'' @ PathEscape t) ''DELETE'' None rover_headers b = ((resp, code, err), b')"
  shows "(rv_DeleteTeamByID h rC t b = (None, b') \<longleftrightarrow> code = 404 \<or> err = None \<and> code \<in> {200, 204}) \<and>
         (rc_url rC @ ''/v1/groups/'' @ PathEscape t = rc_url rC @ ''/v1/groups/'' @ t \<longleftrightarrow> list_all path_safe t)"
  using assms by (auto simp: rv_DeleteTeamByID_def PathEscape_id_iff split: option.splits)

definition not_found :: "nat http" where
  "not_found = \<lparr>NewRequestErr = \<lambda>m u. None,
     Do = \<lambda>r n. (Inr \<lparr>StatusCode = 404, rs_header = [], rs_body = Inr ''gone'', rs_close = None\<rparr>, Suc n), header_order = id\<rparr>"

theorem rover_delete_group_witness:
  "rv_DeleteTeamByID not_found demo_rover ''a/b'' 0 = (None, 1) \<and>
   rc_url demo_rover @ ''/v1/groups/'' @ PathEscape ''a/b'' \<noteq> rc_url demo_rover @ ''/v1/groups/'' @ ''a/b''"
proof -
  have "rover_sendRequest not_found (rc_url demo_rover @ ''/v1/groups/'' @ PathEscape ''a/b'') ''DELETE'' None rover_headers 0 = ((''gone'', 404, None), 1)"
    by (simp add: rover_sendRequest_def NewRequest_def MakeRequest_def request_send_def not_found_def demo_rover_def)
  from rover_delete_group [OF this] show ?thesis by (simp add: path_safe_def)
qed

text \<open>
  Creating a Rover group reports success exactly when the request went through with status 201 or
  403, which the service sends for a group that exists already, and then returns the requested name
  as the identifier; every other status is an error.
\<close>

theorem rover_create_group:
  assumes "rover_sendRequest h (rc_url rC @ ''/v1/groups'') ''POST'' (Some (json_group (rover_group_of rC team))) rover_headers b
             = ((resp, code, err), b')"
  shows "(fst (rv_CreateTeam h rC team b) = Inr (rover_team team) \<longleftrightarrow> code = 403 \<or> err = None \<and> code = 201) \<and>
         (is_ok (fst (rv_CreateTeam h rC team b)) \<longrightarrow> fst (rv_CreateTeam h rC team b) = Inr (rover_team team)) \<and>
         t_ID (rover_team team) = t_Name team \<and> snd (rv_CreateTeam h rC team b) = b'"
  using assms by (auto simp: rv_CreateTeam_def rover_team_def split: option.splits)

definition forbidden :: "nat http" where
  "forbidden = \<lparr>NewRequestErr = \<lambda>m u. None,
     Do = \<lambda>r n. (Inr \<lparr>StatusCode = 403, rs_header = [], rs_body = Inr ''exists'', rs_close = None\<rparr>, Suc n), header_order = id\<rparr>"

theorem rover_create_group_witness:
  "fst (rv_CreateTeam forbidden demo_rover (empty_team\<lparr>t_Name := ''g''\<rparr>) 0) = Inr (empty_team\<lparr>t_ID := ''g'', t_Name := ''g''\<rparr>)"
proof -
  let ?team = "empty_team\<lparr>t_Name := ''g''\<rparr>"
  have "rover_sendRequest forbidden (rc_url demo_rover @ ''/v1/groups'') ''POST'' (Some (json_group (rover_group_of demo_rover ?team))) rover_headers 0
      = ((''exists'', 403, None), 1)"
    by (simp add: rover_sendRequest_def NewRequest_def MakeRequest_def request_send_def forbidden_def demo_rover_def del: print_json.simps)
  from rover_create_group [OF this] have "fst (rv_CreateTeam forbidden demo_rover ?team 0) = Inr (rover_team ?team)" by blast
  then show ?thesis by (simp add: rover_team_def empty_team_def)
qed

section \<open>Configuration\<close>

lemma rover_config_strings:
  assumes "all_strings data"
  shows "rover_config_of E it data =
           Inr \<lparr>rcfg_URL = get_string data ''url'', rcfg_PrivateKeyPath = get_string data ''private_key_path'',
                rcfg_CertPath = get_string data ''cert_path'', rcfg_ServiceAccountName = get_string data ''service_account_name''\<rparr>"
  unfolding rover_config_of_def rover_config_fields_def
  by (simp add: set_string_field [OF assms] json_name_def del: set_fields.simps(1))

lemma tls_config_set:
  "PrivateKeyPath pool \<noteq> [] \<Longrightarrow> CertPath pool \<noteq> [] \<Longrightarrow> tls_config T pool = Inr tls \<longleftrightarrow>
     (\<exists>cert certPool. LoadX509KeyPair T (CertPath pool) (PrivateKeyPath pool) = Inr cert \<and> SystemCertPool T = Inr certPool \<and>
        tls = Some (certPool, [cert]))"
  by (auto simp: tls_config_def split: sum.splits)

text \<open>
  A Rover client is built from string settings exactly when address, key, certificate and service account
  are given and the key pair and the system certificates can be loaded; it then always presents
  that certificate.
\<close>

theorem rover_client_certificate:
  assumes "all_strings data"
  shows "(rover_NewClient E it T data pool hystrixCfg = Inr (rC, opts) \<longrightarrow>
           rc_url rC = get_string data ''url'' \<and> rc_serviceAccountName rC = get_string data ''service_account_name'' \<and>
           (\<exists>cert certPool. LoadX509KeyPair T (get_string data ''cert_path'') (get_string data ''private_key_path'') = Inr cert \<and>
              TLSClientConfig (o_transport opts) = Some (certPool, [cert])) \<and> o_RetryCount opts = 3) \<and>
         (is_ok (rover_NewClient E it T data pool hystrixCfg) \<longleftrightarrow>
           get_string data ''url'' \<noteq> [] \<and> get_string data ''service_account_name'' \<noteq> [] \<and>
           get_string data ''cert_path'' \<noteq> [] \<and> get_string data ''private_key_path'' \<noteq> [] \<and>
           is_ok (LoadX509KeyPair T (get_string data ''cert_path'') (get_string data ''private_key_path'')) \<and> is_ok (SystemCertPool T))"
  using rover_config_strings [OF assms, of E it]
  by (auto simp: rover_NewClient_def InitializeClient_def tls_config_def split: sum.splits if_splits)

definition demo_tls :: "(string \<times> string, nat) tls_env" where
  "demo_tls = \<lparr>LoadX509KeyPair = \<lambda>c k. Inr (c, k), SystemCertPool = Inr 0\<rparr>"

definition demo_rover_data :: "goval gomap" where
  "demo_rover_data =
     [(''url'', VString ''r''), (''cert_path'', VString ''crt''), (''private_key_path'', VString ''pem''),
      (''service_account_name'', VString ''sa'')]"

definition demo_pool :: ConnectionPoolConfig where
  "demo_pool = \<lparr>Timeout = 10000, KeepAliveTimeout = 600000, MaxIdleConnections = 10, PrivateKeyPath = [], CertPath = []\<rparr>"

definition demo_hystrix :: HystrixResiliencyConfig where
  "demo_hystrix = \<lparr>MaxConcurrentRequests = 100, RequestVolumeThreshold = 20, CircuitBreakerSleepWindow = 5000,
     ErrorPercentThreshold = 50, CircuitBreakerTimeout = 10000\<rparr>"

theorem rover_client_certificate_witness:
  "is_ok (rover_NewClient plain_env rev demo_tls demo_rover_data demo_pool demo_hystrix)"
proof -
  have "all_strings demo_rover_data" by (simp add: all_strings_def demo_rover_data_def)
  from rover_client_certificate [OF this, of plain_env rev demo_tls demo_pool demo_hystrix] show ?thesis
    by (simp add: demo_rover_data_def get_string_def demo_tls_def)
qed

end
