(* ===== verification/LinkHeader.thy ===== *)
theory LinkHeader
  imports GoRegexp
begin

text \<open>
  The parser of \<^verbatim>\<open>Link\<close> headers of the Snowflake client (\<^verbatim>\<open>parseLinkHeader\<close> in
  \<^verbatim>\<open>pkg/clients/snowflake/client.go\<close>) with its two regular expressions, and the proof that it finds the
  target of the first link with the wanted relation in every header that lists links one after the other.
\<close>

section \<open>Definitions\<close>

abbreviation dquote :: char where
  "dquote \<equiv> CHR 0x22"

definition not_gt :: regexp where
  "not_gt = Class True [(CHR ''>'', CHR ''>'')]"

definition not_comma :: regexp where
  "not_comma = Class True [(CHR '','', CHR '','')]"

definition not_quote :: regexp where
  "not_quote = Class True [(dquote, dquote)]"

text \<open>The class \<open>\s\<close>.\<close>

definition white :: regexp where
  "white = Class False [(CHR 0x09, CHR 0x0A), (CHR 0x0C, CHR 0x0D), (CHR '' '', CHR '' '')]"

text \<open>The parts both patterns share: the target before the relation, and the relation with the parameters after it.\<close>

definition link_target :: "regexp \<Rightarrow> regexp" where
  "link_target r =
     Cat (Lit (CHR ''<'')) (Cat (Capture 1 (Plus not_gt)) (Cat (Lit (CHR ''>'')) (Cat (Star white) (Cat (Lit (CHR '';'')) (Cat (Star white) r)))))"

definition link_relation :: regexp where
  "link_relation =
     lit_string (''rel='' @ [dquote]) (Cat (Capture 2 (Plus not_quote))
       (Cat (Lit dquote) (Star (Cat (Star white) (Cat (Lit (CHR '';'')) (Star not_comma))))))"

definition linkPattern :: regexp where
  "linkPattern = link_target (Cat (Star (Cat (Star not_comma) (Cat (Lit (CHR '';'')) (Star white)))) link_relation)"

definition reversePattern :: regexp where
  "reversePattern = link_target link_relation"

fun first_with_rel :: "string \<Rightarrow> string list list \<Rightarrow> string option" where
  "first_with_rel rel [] = None"
| "first_with_rel rel (m # ms) = (if length m = 3 \<and> m ! 2 = rel then Some (m ! 1) else first_with_rel rel ms)"

definition parseLinkHeader :: "string \<Rightarrow> string \<Rightarrow> string" where
  "parseLinkHeader linkHeader rel =
     (case first_with_rel rel (FindAllStringSubmatch linkPattern linkHeader) of
        Some url \<Rightarrow> url
      | None \<Rightarrow>
          (case first_with_rel rel (FindAllStringSubmatch reversePattern linkHeader) of
             Some url \<Rightarrow> url
           | None \<Rightarrow> []))"

section \<open>Headers that list links\<close>

fun print_link :: "string \<times> string \<Rightarrow> string" where
  "print_link (url, rel) = ''<'' @ url @ ''>; rel='' @ [dquote] @ rel @ [dquote]"

fun print_links :: "(string \<times> string) list \<Rightarrow> string" where
  "print_links [] = []"
| "print_links [l] = print_link l"
| "print_links (l # ls) = print_link l @ '', '' @ print_links ls"

definition good_link :: "string \<times> string \<Rightarrow> bool" where
  "good_link l \<longleftrightarrow> fst l \<noteq> [] \<and> snd l \<noteq> [] \<and> CHR ''>'' \<notin> set (fst l) \<and>
     dquote \<notin> set (snd l) \<and> CHR '','' \<notin> set (snd l) \<and> CHR '';'' \<notin> set (snd l)"

section \<open>The best match\<close>

definition best :: "string \<Rightarrow> regexp \<Rightarrow> nat \<Rightarrow> caps \<Rightarrow> nat \<times> caps \<Rightarrow> bool" where
  "best s r i c p \<longleftrightarrow> (\<exists>rest. re_match s r i c = p # rest)"

lemma best_Cat: "best s r1 i c (j, d) \<Longrightarrow> best s r2 j d q \<Longrightarrow> best s (Cat r1 r2) i c q"
  by (auto simp: best_def)

lemma best_Capture: "best s r i c (j, d) \<Longrightarrow> best s (Capture n r) i c (j, (n, i, j) # d)"
  by (auto simp: best_def)

lemma drop_Cons_lt: "drop i s = x # t \<Longrightarrow> i < length s \<and> s ! i = x"
  by (metis drop_eq_Nil2 list.distinct(1) nth_via_drop not_le)

lemma best_Lit: "drop i s = x # t \<Longrightarrow> best s (Lit x) i c (Suc i, c)"
  using drop_Cons_lt [of i s x t] by (simp add: best_def)

lemma best_star_none: "re_match s r i c = [] \<Longrightarrow> best s (Star r) i c (i, c)"
  by (simp add: best_def re_star)

lemma run_drop:
  assumes "drop i s = u @ t" and "list_all (in_class neg rs) u" and "t = [] \<or> \<not> in_class neg rs (hd t)"
  shows "run neg rs s i = length u"
proof -
  have "takeWhile (in_class neg rs) (u @ t) = u" using assms(2,3) by (cases t) (auto simp: list_all_iff takeWhile_append)
  with assms(1) show ?thesis by (simp add: run_def)
qed

lemma best_star_class:
  assumes "drop i s = u @ t" and "list_all (in_class neg rs) u" and "t = [] \<or> \<not> in_class neg rs (hd t)"
  shows "best s (Star (Class neg rs)) i c (i + length u, c)"
  using star_class_first [of s neg rs i c] run_drop [OF assms] by (simp add: best_def)

lemma best_plus_class:
  assumes "drop i s = u @ t" and "list_all (in_class neg rs) u" and "t = [] \<or> \<not> in_class neg rs (hd t)" and "u \<noteq> []"
  shows "best s (Plus (Class neg rs)) i c (i + length u, c)"
proof -
  from assms(4) obtain x u' where u: "u = x # u'" by (cases u) auto
  with assms(1) drop_Cons_lt [of i s x "u' @ t"] have "i < length s" "s ! i = x" by auto
  with u assms(2) plus_class_first [of i s neg rs c] run_drop [OF assms(1-3)] show ?thesis by (simp add: best_def)
qed

lemma best_lit_string: "drop i s = t @ u \<Longrightarrow> t \<noteq> [] \<Longrightarrow> best s r (i + length t) c q \<Longrightarrow> best s (lit_string t r) i c q"
  by (cases "i \<le> length s") (auto simp: best_def lit_string_match)

text \<open>Every end of a star over a class lies within the run.\<close>

lemma star_class_ends:
  "(j, d) \<in> set (re_match s (Star (Class neg rs)) i c) \<Longrightarrow> \<exists>m \<le> run neg rs s i. j = i + m"
proof (induction "length s - i" arbitrary: i)
  case 0
  then show ?case by (auto simp: re_star [of s _ i])
next
  case (Suc n)
  show ?case
  proof (cases "j = i")
    case False
    with Suc.prems have i: "i < length s" "in_class neg rs (s ! i)" and j: "(j, d) \<in> set (re_match s (Star (Class neg rs)) (Suc i) c)"
      by (auto simp: re_star [of s _ i] split: if_splits)
    from Suc.hyps(2) have "n = length s - Suc i" by simp
    from Suc.hyps(1) [OF this j] obtain m where "m \<le> run neg rs s (Suc i)" "j = Suc i + m" by blast
    then show ?thesis using i run_step [of neg rs s i] by (intro exI [of _ "Suc m"]) simp
  qed auto
qed

lemma no_semicolon:
  assumes "\<And>m t. m \<le> run neg rs s i \<Longrightarrow> drop (i + m) s \<noteq> CHR '';'' # t"
  shows "re_match s (Cat (Star (Class neg rs)) (Cat (Lit (CHR '';'')) r)) i c = []"
proof -
  have "re_match s (Cat (Lit (CHR '';'')) r) j d = []" if "(j, d) \<in> set (re_match s (Star (Class neg rs)) i c)" for j d
  proof (rule ccontr)
    assume "re_match s (Cat (Lit (CHR '';'')) r) j d \<noteq> []"
    then have "j < length s" "s ! j = CHR '';''" by (auto split: if_splits)
    then have "drop j s = CHR '';'' # drop (Suc j) s" by (metis Cons_nth_drop_Suc)
    with star_class_ends [OF that] assms show False by auto
  qed
  then show ?thesis by auto
qed

section \<open>One link\<close>

definition ends_link :: "string \<Rightarrow> bool" where
  "ends_link post \<longleftrightarrow> post = [] \<or> hd post = CHR '',''"

definition rel_part :: "string \<Rightarrow> string" where
  "rel_part rel = ''rel='' @ [dquote] @ rel @ [dquote]"

lemma class_simps [simp]:
  "in_class True [(a, a)] x \<longleftrightarrow> x \<noteq> a"
  "in_class False [(CHR 0x09, CHR 0x0A), (CHR 0x0C, CHR 0x0D), (CHR '' '', CHR '' '')] (CHR '' '')"
  "\<not> in_class False [(CHR 0x09, CHR 0x0A), (CHR 0x0C, CHR 0x0D), (CHR '' '', CHR '' '')] (CHR '';'')"
  "\<not> in_class False [(CHR 0x09, CHR 0x0A), (CHR 0x0C, CHR 0x0D), (CHR '' '', CHR '' '')] (CHR '','')"
  "\<not> in_class False [(CHR 0x09, CHR 0x0A), (CHR 0x0C, CHR 0x0D), (CHR '' '', CHR '' '')] (CHR ''r'')"
  by (auto simp: in_class.simps)

lemma no_parameters_after:
  assumes "drop i s = post" and "ends_link post"
  shows "best s (Star (Cat (Star white) (Cat (Lit (CHR '';'')) (Star not_comma)))) i c (i, c)"
proof (rule best_star_none)
  let ?w = "[(CHR 0x09, CHR 0x0A), (CHR 0x0C, CHR 0x0D), (CHR '' '', CHR '' '')]"
  have "run False ?w s i = 0" using run_drop [of i s "[]" post False ?w] assms by (auto simp: ends_link_def)
  then show "re_match s (Cat (Star white) (Cat (Lit (CHR '';'')) (Star not_comma))) i c = []"
    unfolding white_def using assms by (intro no_semicolon) (auto simp: ends_link_def)
qed

lemma drop_add: "drop i s = u @ t \<Longrightarrow> drop (i + length u) s = t"
  by (metis add.commute append_eq_conv_conj drop_drop)

lemma best_relation:
  assumes "drop k s = rel_part rel @ post" and "rel \<noteq> []" and "dquote \<notin> set rel" and "ends_link post"
  shows "best s link_relation k c (k + length (rel_part rel), (2, k + 5, k + 5 + length rel) # c)"
proof -
  have k: "drop (k + 5) s = rel @ [dquote] @ post" using drop_add [of k s "''rel='' @ [dquote]"] assms(1) by (simp add: rel_part_def numeral_eq_Suc)
  have q: "drop (k + 5 + length rel) s = dquote # post" using drop_add [OF k] by simp
  have e: "drop (Suc (k + 5 + length rel)) s = post" using drop_add [of "k + 5 + length rel" s "[dquote]" post] q by simp
  have "best s (Plus not_quote) (k + 5) c (k + 5 + length rel, c)"
    unfolding not_quote_def using k assms(2,3) by (intro best_plus_class) (auto simp: list_all_iff)
  from best_Capture [OF this, of 2] best_Cat [OF best_Lit [OF q] no_parameters_after [OF e assms(4)]]
  have "best s (Cat (Capture 2 (Plus not_quote)) (Cat (Lit dquote) (Star (Cat (Star white) (Cat (Lit (CHR '';'')) (Star not_comma))))))
      (k + 5) c (Suc (k + 5 + length rel), (2, k + 5, k + 5 + length rel) # c)"
    by (rule best_Cat)
  then have "best s link_relation k c (Suc (k + 5 + length rel), (2, k + 5, k + 5 + length rel) # c)"
    unfolding link_relation_def using assms(1) by (intro best_lit_string) (auto simp: rel_part_def eval_nat_numeral)
  moreover have "k + length (rel_part rel) = Suc (k + 5 + length rel)" by (simp add: rel_part_def)
  ultimately show ?thesis by (simp only:)
qed

lemma no_parameters_before:
  assumes "drop k s = rel_part rel @ post" and "CHR '';'' \<notin> set rel" and "CHR '','' \<notin> set rel" and "ends_link post"
  shows "best s (Star (Cat (Star not_comma) (Cat (Lit (CHR '';'')) (Star white)))) k c (k, c)"
proof (rule best_star_none)
  have run: "run True [(CHR '','', CHR '','')] s k = length (rel_part rel)"
    using assms by (intro run_drop) (auto simp: rel_part_def list_all_iff ends_link_def)
  have "drop (k + m) s \<noteq> CHR '';'' # t" if "m \<le> length (rel_part rel)" for m t
  proof
    assume "drop (k + m) s = CHR '';'' # t"
    with assms(1) that have eq: "drop m (rel_part rel) @ post = CHR '';'' # t" by (metis add.commute append_self_conv2 diff_is_0_eq drop0 drop_append drop_drop)
    show False
    proof (cases "drop m (rel_part rel)")
      case Nil
      with eq assms(4) show False by (auto simp: ends_link_def)
    next
      case (Cons x xs)
      with eq have "x = CHR '';''" by simp
      with Cons have "CHR '';'' \<in> set (rel_part rel)" by (metis in_set_dropD list.set_intros(1))
      with assms(2) show False by (auto simp: rel_part_def)
    qed
  qed
  with run show "re_match s (Cat (Star not_comma) (Cat (Lit (CHR '';'')) (Star white))) k c = []"
    unfolding not_comma_def by (intro no_semicolon) auto
qed

text \<open>A continuation that reads the relation of a link.\<close>

definition reads_relation :: "regexp \<Rightarrow> bool" where
  "reads_relation r \<longleftrightarrow>
     (\<forall>s k rel post c. drop k s = rel_part rel @ post \<longrightarrow> rel \<noteq> [] \<longrightarrow> dquote \<notin> set rel \<longrightarrow> CHR '';'' \<notin> set rel \<longrightarrow>
        CHR '','' \<notin> set rel \<longrightarrow> ends_link post \<longrightarrow>
        best s r k c (k + length (rel_part rel), (2, k + 5, k + 5 + length rel) # c))"

lemma reads_relation_link: "reads_relation (Cat (Star (Cat (Star not_comma) (Cat (Lit (CHR '';'')) (Star white)))) link_relation)"
  unfolding reads_relation_def using best_Cat [OF no_parameters_before best_relation] by blast

lemma reads_relation_reverse: "reads_relation link_relation"
  unfolding reads_relation_def using best_relation by blast

lemma print_link_parts: "print_link (url, rel) = ''<'' @ url @ ''>; '' @ rel_part rel"
  by (simp add: rel_part_def)

lemma best_link:
  assumes "reads_relation r" and "good_link (url, rel)" and "drop i s = print_link (url, rel) @ post" and "ends_link post"
  shows "best s (link_target r) i []
    (i + length (print_link (url, rel)), [(2, i + length url + 9, i + length url + 9 + length rel), (1, Suc i, Suc i + length url)])"
proof -
  let ?a = "Suc i" and ?b = "Suc i + length url"
  have d0: "drop i s = CHR ''<'' # url @ ''>; '' @ rel_part rel @ post" using assms(3) by (simp add: print_link_parts del: print_link.simps)
  have d1: "drop ?a s = url @ ''>; '' @ rel_part rel @ post" using drop_add [of i s "''<''"] d0 by simp
  have d2: "drop ?b s = CHR ''>'' # ''; '' @ rel_part rel @ post" using drop_add [OF d1] by simp
  have d3: "drop (Suc ?b) s = CHR '';'' # '' '' @ rel_part rel @ post" using drop_add [of ?b s "''>''"] d2 by simp
  have d4: "drop (Suc (Suc ?b)) s = '' '' @ rel_part rel @ post" using drop_add [of "Suc ?b" s "'';''"] d3 by simp
  have d5: "drop (Suc (Suc ?b) + 1) s = rel_part rel @ post" using drop_add [OF d4] by simp
  have 1: "best s (Plus not_gt) ?a [] (?b, [])"
    unfolding not_gt_def using d1 assms(2) by (intro best_plus_class) (auto simp: good_link_def list_all_iff)
  have 2: "best s (Star white) (Suc ?b) c (Suc ?b + length ([] :: string), c)" for c
    unfolding white_def using d3 by (intro best_star_class [where t = "CHR '';'' # '' '' @ rel_part rel @ post"]) simp_all
  have 3: "best s (Star white) (Suc (Suc ?b)) c (Suc (Suc ?b) + length '' '', c)" for c
    unfolding white_def by (rule best_star_class [OF d4]) (simp_all add: rel_part_def)
  have 4: "best s r (Suc (Suc ?b) + 1) c
      (Suc (Suc ?b) + 1 + length (rel_part rel), (2, Suc (Suc ?b) + 1 + 5, Suc (Suc ?b) + 1 + 5 + length rel) # c)" for c
    using assms(1,2,4) d5 by (simp only: reads_relation_def good_link_def fst_conv snd_conv) blast
  have "best s (link_target r) i []
    (Suc (Suc ?b) + 1 + length (rel_part rel), [(2, Suc (Suc ?b) + 1 + 5, Suc (Suc ?b) + 1 + 5 + length rel), (1, ?a, ?b)])"
    unfolding link_target_def
    using best_Lit [OF d0] best_Capture [OF 1, of 1] best_Lit [OF d2] 2 best_Lit [OF d3] 3 4
    by (intro best_Cat) auto
  moreover have "Suc (Suc ?b) + 1 + length (rel_part rel) = i + length (print_link (url, rel))" "Suc (Suc ?b) + 1 + 5 = i + length url + 9"
    by (simp_all add: rel_part_def)
  ultimately show ?thesis by (simp only:)
qed

section \<open>All links\<close>

fun row :: "string \<times> string \<Rightarrow> string list" where
  "row (url, rel) = [print_link (url, rel), url, rel]"

lemma no_link: "drop i s = [] \<or> hd (drop i s) \<noteq> CHR ''<'' \<Longrightarrow> re_match s (link_target r) i [] = []"
  by (auto simp: link_target_def hd_drop_conv_nth)

lemma first_match_best: "best s r i [] (j, c) \<Longrightarrow> first_match s r (i # is) = Some (i, j, c)"
  by (auto simp: best_def)

lemma find_step:
  "first_match s r [pos..<Suc (length s)] = Some (i, j, c) \<Longrightarrow> pos < j \<Longrightarrow> pos \<le> length s \<Longrightarrow>
   find_all r s pos prev = submatches s r i j c # find_all r s j (Some j)"
  by (simp add: find_all.simps [of r s pos] del: upt.simps)

lemma link_submatches:
  assumes "drop i s = print_link (url, rel) @ post" and "groups r = 2"
  shows "submatches s r i (i + length (print_link (url, rel)))
     [(2, i + length url + 9, i + length url + 9 + length rel), (1, Suc i, Suc i + length url)] = row (url, rel)"
proof -
  have u: "drop (Suc i) s = url @ ''>; '' @ rel_part rel @ post"
    using drop_add [of i s "''<''"] assms(1) by (simp add: rel_part_def)
  have "drop (i + length (''<'' @ url @ ''>; rel='' @ [dquote])) s = rel @ [dquote] @ post"
    using assms(1) by (intro drop_add) simp
  then have "drop (i + length url + 9) s = rel @ [dquote] @ post" by (simp add: add.commute add.left_commute numeral_eq_Suc)
  with u assms show ?thesis by (simp add: submatches_def span_def upt_rec numeral_eq_Suc)
qed

lemma groups_link:
  "groups (link_target link_relation) = 2"
  "groups (link_target (Cat (Star (Cat (Star not_comma) (Cat (Lit (CHR '';'')) (Star white)))) link_relation)) = 2"
  by (simp_all add: link_target_def link_relation_def not_gt_def white_def not_comma_def not_quote_def del: lit_string.simps)

text \<open>A separator is nothing before the first link and \<open>, \<close> before the others.\<close>

lemma find_links:
  assumes "reads_relation r" and "groups (link_target r) = 2"
  shows "list_all good_link ls \<Longrightarrow> pos \<le> length s \<Longrightarrow> drop pos s = sep @ print_links ls \<Longrightarrow> sep = [] \<or> sep = '', '' \<and> ls \<noteq> [] \<Longrightarrow>
    find_all (link_target r) s pos prev = map row ls"
proof (induction ls arbitrary: pos sep prev)
  case Nil
  then have "pos = length s" by simp
  then show ?case by (simp add: find_all.simps [of _ s "length s"] no_link)
next
  case (Cons l ls)
  obtain url rel where l: "l = (url, rel)" by (rule prod.exhaust)
  let ?i = "pos + length sep" and ?post = "if ls = [] then [] else '', '' @ print_links ls"
  have d: "drop ?i s = print_link l @ ?post" using drop_add [OF Cons.prems(3)] by (cases ls) auto
  have "ends_link ?post" by (simp add: ends_link_def)
  with best_link [OF assms(1), of url rel ?i s ?post] Cons.prems(1) d l have b: "best s (link_target r) ?i []
      (?i + length (print_link l), [(2, ?i + length url + 9, ?i + length url + 9 + length rel), (1, Suc ?i, Suc ?i + length url)])" (is "best _ _ _ _ (?j, ?c)")
    by auto
  have lt: "?i < length s" using d l by (metis append_is_Nil_conv drop_eq_Nil2 list.distinct(1) not_le print_link.simps append_Cons)
  have first: "first_match s (link_target r) [pos..<Suc (length s)] = Some (?i, ?j, ?c)"
  proof (cases "sep = []")
    case True
    then have "[pos..<Suc (length s)] = ?i # [Suc pos..<Suc (length s)]" using lt by (simp add: upt_conv_Cons)
    with first_match_best [OF b] show ?thesis by simp
  next
    case False
    with Cons.prems(4) have sep: "sep = '', ''" by simp
    then have u: "[pos..<Suc (length s)] = pos # Suc pos # ?i # [Suc ?i..<Suc (length s)]" using lt by (simp add: upt_conv_Cons)
    have "re_match s (link_target r) pos [] = []" "re_match s (link_target r) (Suc pos) [] = []"
      using Cons.prems(3) sep drop_add [of pos s "'',''"] by (auto intro!: no_link)
    with first_match_best [OF b, of "[Suc ?i..<Suc (length s)]"] show ?thesis unfolding u by simp
  qed
  have "pos < ?j" by (simp add: l)
  note find_step [OF first this Cons.prems(2), of prev]
  moreover have "submatches s (link_target r) ?i ?j ?c = row l" using link_submatches [OF _ assms(2)] d l by simp
  moreover have "find_all (link_target r) s ?j (Some ?j) = map row ls"
  proof (rule Cons.IH)
    show "drop ?j s = (if ls = [] then [] else '', '') @ print_links ls" using drop_add [OF d] by auto
    then show "?j \<le> length s" using d lt by (metis (no_types, lifting) add_le_cancel_left le_add1 length_append length_drop nat_le_iff_add le_add_diff_inverse less_imp_le)
  qed (use Cons.prems(1) in auto)
  ultimately show ?case by (simp only: list.map)
qed

section \<open>Main result\<close>

lemma all_links:
  assumes "list_all good_link ls"
  shows "FindAllStringSubmatch linkPattern (print_links ls) = map row ls"
    and "FindAllStringSubmatch reversePattern (print_links ls) = map row ls"
  unfolding FindAllStringSubmatch_def linkPattern_def reversePattern_def
  using assms
  by (auto intro!: find_links [where sep = "[]"] simp: reads_relation_link reads_relation_reverse groups_link)

lemma first_with_rel_rows: "first_with_rel rel (map row ls) = map_of (map prod.swap ls) rel"
  by (induction ls) (auto simp: numeral_eq_Suc)

lemma links_parsed:
  assumes "list_all good_link ls"
  shows "parseLinkHeader (print_links ls) rel = (case map_of (map prod.swap ls) rel of None \<Rightarrow> [] | Some url \<Rightarrow> url)"
  unfolding parseLinkHeader_def all_links [OF assms] first_with_rel_rows by (simp split: option.split)

text \<open>
  C37: In a header that lists links in the form \<^verbatim>\<open><url>; rel="name"\<close>, separated by commas, the parser finds the
  target of the first link with the wanted relation, and nothing when there is none; targets may
  contain commas and semicolons.
\<close>

theorem parse_printed_links:
  assumes "list_all good_link ls"
  shows "parseLinkHeader (print_links ls) rel = (case map_of (map prod.swap ls) rel of None \<Rightarrow> [] | Some url \<Rightarrow> url)"
  using assms by (rule links_parsed)

theorem parse_printed_links_witness:
  "parseLinkHeader (print_links [(''/results/1?page=0'', ''first''), (''/results/1?page=2;x,y'', ''next'')]) ''next'' = ''/results/1?page=2;x,y''"
proof -
  have "list_all good_link [(''/results/1?page=0'', ''first''), (''/results/1?page=2;x,y'', ''next'')]"
    by (simp add: good_link_def)
  from parse_printed_links [OF this] show ?thesis by simp
qed

end
