(* ===== verification/Workers.thy ===== *)
theory Workers
  imports Structs "HOL-Library.Multiset"
begin

text \<open>
  The worker pool of the Fivetran client: \<^verbatim>\<open>AddUserToTeam\<close> and \<^verbatim>\<open>RemoveUserFromTeam\<close>
  (\<^verbatim>\<open>pkg/clients/fivetran/team_membership.go\<close>) start one goroutine per user, at most
  \<^verbatim>\<open>maxConcurrentUsers\<close> at a time by a semaphore channel, collect the errors in a buffered channel
  and wait for all goroutines.  The interleavings are the runs of the step relation \<open>wstep\<close>; \<open>act\<close> is
  the request made for one user.  The theorems say that no run gets stuck, that every run ends, and
  that its result is that of making the requests one after the other in some order.
\<close>

definition maxConcurrentUsers :: nat where
  "maxConcurrentUsers = 10"

section \<open>States and steps\<close>

text \<open>
  The phases of a goroutine: before its request, before it sends its error, before the deferred
  release of the semaphore, before the deferred \<^verbatim>\<open>wg.Done\<close>.
\<close>

datatype phase = Calling string | Sending gerror | Releasing | Finishing

text \<open>
  \<open>todo\<close>: the user identifiers the main loop has not reached; \<open>gos\<close>: the goroutines that are alive;
  \<open>sem\<close>, \<open>errch\<close>, \<open>wg\<close>: the two channels and the wait group; \<open>calls\<close>: the requests made so far, a history
  that no step reads.
\<close>

record 'b wstate =
  todo :: "string list"
  gos :: "phase multiset"
  sem :: nat
  errch :: "gerror list"
  wg :: nat
  bstate :: 'b
  calls :: "string list"

type_synonym 'b act = "string \<Rightarrow> 'b \<Rightarrow> gerror option \<times> 'b"

definition wrap :: "string \<Rightarrow> gerror \<Rightarrow> gerror" where
  "wrap uid err = GoErr (uid @ '': '' @ Error err)"

definition after_call :: "string \<Rightarrow> gerror option \<Rightarrow> phase" where
  "after_call uid r = (case r of None \<Rightarrow> Releasing | Some err \<Rightarrow> Sending (wrap uid err))"

definition start :: "string list \<Rightarrow> 'b \<Rightarrow> 'b wstate" where
  "start ids b = \<lparr>todo = ids, gos = {#}, sem = 0, errch = [], wg = 0, bstate = b, calls = []\<rparr>"

inductive wstep :: "'b act \<Rightarrow> nat \<Rightarrow> 'b wstate \<Rightarrow> 'b wstate \<Rightarrow> bool" for act cap where
  spawn: "todo s = uid # rest \<Longrightarrow> sem s < maxConcurrentUsers \<Longrightarrow>
    wstep act cap s (s\<lparr>todo := rest, gos := add_mset (Calling uid) (gos s), sem := Suc (sem s), wg := Suc (wg s)\<rparr>)"
| call: "gos s = add_mset (Calling uid) G \<Longrightarrow> act uid (bstate s) = (r, b') \<Longrightarrow>
    wstep act cap s (s\<lparr>gos := add_mset (after_call uid r) G, bstate := b', calls := calls s @ [uid]\<rparr>)"
| send: "gos s = add_mset (Sending err) G \<Longrightarrow> length (errch s) < cap \<Longrightarrow>
    wstep act cap s (s\<lparr>gos := add_mset Releasing G, errch := errch s @ [err]\<rparr>)"
| release: "gos s = add_mset Releasing G \<Longrightarrow> 0 < sem s \<Longrightarrow>
    wstep act cap s (s\<lparr>gos := add_mset Finishing G, sem := sem s - 1\<rparr>)"
| finish: "gos s = add_mset Finishing G \<Longrightarrow>
    wstep act cap s (s\<lparr>gos := G, wg := wg s - 1\<rparr>)"

inductive_cases wstepE: "wstep act cap s s'"

text \<open>\<^verbatim>\<open>wg.Wait()\<close> has returned.\<close>

definition done_waiting :: "'b wstate \<Rightarrow> bool" where
  "done_waiting s \<longleftrightarrow> todo s = [] \<and> wg s = 0"

fun space_sep :: "gerror list \<Rightarrow> string" where
  "space_sep [] = []"
| "space_sep [e] = Error e"
| "space_sep (e # es) = Error e @ '' '' @ space_sep es"

text \<open>The end of both functions: closing the error channel and reading it.\<close>

definition pool_result :: "gerror list \<Rightarrow> gerror option" where
  "pool_result allErrors =
     (if 0 < length allErrors then Some (GoErr (''multiple errors occurred: ['' @ space_sep allErrors @ '']'')) else None)"

section \<open>The sequential reference\<close>

text \<open>Making the requests one after the other; the errors in the order of the requests.\<close>

fun seq_calls :: "'b act \<Rightarrow> string list \<Rightarrow> 'b \<Rightarrow> gerror list \<times> 'b" where
  "seq_calls act [] b = ([], b)"
| "seq_calls act (uid # uids) b =
     (let (r, b1) = act uid b; (es, b2) = seq_calls act uids b1
      in ((case r of None \<Rightarrow> es | Some err \<Rightarrow> wrap uid err # es), b2))"

lemma seq_calls_snoc:
  "seq_calls act (uids @ [uid]) b =
     (let (es, b1) = seq_calls act uids b; (r, b2) = act uid b1
      in (es @ (case r of None \<Rightarrow> [] | Some err \<Rightarrow> [wrap uid err]), b2))"
  by (induction uids arbitrary: b) (auto split: prod.splits option.splits)

lemma length_seq_calls: "length (fst (seq_calls act uids b)) \<le> length uids"
  by (induction uids arbitrary: b) (auto simp: Let_def split_def le_SucI split: option.splits)

section \<open>Invariant\<close>

fun uid_of :: "phase \<Rightarrow> string multiset" where
  "uid_of (Calling uid) = {#uid#}" | "uid_of _ = {#}"

fun err_of :: "phase \<Rightarrow> gerror multiset" where
  "err_of (Sending err) = {#err#}" | "err_of _ = {#}"

fun holds :: "phase \<Rightarrow> nat" where
  "holds Finishing = 0" | "holds _ = 1"

fun weight :: "phase \<Rightarrow> nat" where
  "weight (Calling _) = 4" | "weight (Sending _) = 3" | "weight Releasing = 2" | "weight Finishing = 1"

definition winv :: "'b act \<Rightarrow> string list \<Rightarrow> 'b \<Rightarrow> 'b wstate \<Rightarrow> bool" where
  "winv act ids b s \<longleftrightarrow>
     sem s = sum_mset (image_mset holds (gos s)) \<and> sem s \<le> maxConcurrentUsers \<and> wg s = size (gos s) \<and>
     mset ids = mset (calls s) + mset (todo s) + sum_mset (image_mset uid_of (gos s)) \<and>
     bstate s = snd (seq_calls act (calls s) b) \<and>
     mset (fst (seq_calls act (calls s) b)) = mset (errch s) + sum_mset (image_mset err_of (gos s))"

definition wmeasure :: "'b wstate \<Rightarrow> nat" where
  "wmeasure s = 5 * length (todo s) + sum_mset (image_mset weight (gos s))"

lemma winv_start: "winv act ids b (start ids b)"
  by (simp add: winv_def start_def)

lemma winv_step:
  assumes "wstep act cap s s'" and "winv act ids b s"
  shows "winv act ids b s'"
  using assms
proof cases
  case (call uid G r b')
  have "seq_calls act (calls s @ [uid]) b =
      (fst (seq_calls act (calls s) b) @ (case r of None \<Rightarrow> [] | Some err \<Rightarrow> [wrap uid err]), b')"
    using call assms(2) by (simp add: seq_calls_snoc winv_def Let_def split_def)
  with call assms(2) show ?thesis
    by (auto simp: winv_def after_call_def split: option.splits)
qed (auto simp: winv_def)

lemma wmeasure_step: "wstep act cap s s' \<Longrightarrow> wmeasure s' < wmeasure s"
  by (cases rule: wstep.cases) (auto simp: wmeasure_def after_call_def split: option.splits)

lemma winv_reachable: "(wstep act cap)\<^sup>*\<^sup>* (start ids b) s \<Longrightarrow> winv act ids b s"
  by (induction rule: rtranclp_induct) (auto intro: winv_start winv_step)

lemma winv_errch:
  assumes "winv act ids b s"
  shows "length (errch s) + size (sum_mset (image_mset err_of (gos s))) \<le> length ids"
proof -
  from assms have "size (mset ids) = size (mset (calls s) + mset (todo s) + sum_mset (image_mset uid_of (gos s)))"
    by (simp add: winv_def)
  then have "length (calls s) \<le> length ids" by simp
  moreover from assms have "size (mset (fst (seq_calls act (calls s) b))) = size (mset (errch s) + sum_mset (image_mset err_of (gos s)))"
    by (simp add: winv_def)
  ultimately show ?thesis using length_seq_calls [of act "calls s" b] by simp
qed

lemma progress:
  assumes "winv act ids b s" and "\<not> done_waiting s"
  shows "\<exists>s'. wstep act (length ids) s s'"
proof (cases "gos s")
  case empty
  with assms have "todo s \<noteq> []" "sem s < maxConcurrentUsers"
    by (auto simp: winv_def done_waiting_def maxConcurrentUsers_def)
  then show ?thesis using spawn by (metis neq_Nil_conv)
next
  case (add p G)
  show ?thesis
  proof (cases p)
    case (Calling uid)
    with add show ?thesis using call by (metis prod.exhaust)
  next
    case (Sending err)
    with add winv_errch [OF assms(1)] have "length (errch s) < length ids" by simp
    with add Sending show ?thesis using send by blast
  next
    case Releasing
    with add assms(1) have "0 < sem s" by (simp add: winv_def)
    with add Releasing show ?thesis using release by blast
  next
    case Finishing
    with add show ?thesis using finish by blast
  qed
qed

lemma outcome:
  assumes "winv act ids b s" and "done_waiting s"
  shows "mset (calls s) = mset ids \<and> bstate s = snd (seq_calls act (calls s) b) \<and>
         mset (errch s) = mset (fst (seq_calls act (calls s) b))"
proof -
  from assms have "gos s = {#}" "todo s = []" by (auto simp: winv_def done_waiting_def)
  with assms(1) show ?thesis by (simp add: winv_def)
qed

section \<open>Main results\<close>

text \<open>
  C22: The worker pool never gets stuck and respects its limits: in every reachable state at most ten
  goroutines hold the semaphore, the error channel has room for every pending error, and some step
  is possible as long as not all goroutines are done; a run makes at most five steps per user, so it
  always ends.
\<close>

theorem pool_progress:
  assumes "(wstep act (length ids) ^^ n) (start ids b) s"
  shows "sem s \<le> maxConcurrentUsers \<and> length (errch s) \<le> length ids \<and>
         (done_waiting s \<or> (\<exists>s'. wstep act (length ids) s s')) \<and> n \<le> 5 * length ids"
proof -
  have reach: "(wstep act (length ids))\<^sup>*\<^sup>* (start ids b) s" using assms by (rule relpowp_imp_rtranclp)
  note inv = winv_reachable [OF reach]
  have "n + wmeasure s \<le> wmeasure (start ids b)"
    using assms
  proof (induction n arbitrary: s)
    case (Suc n)
    then obtain t where "(wstep act (length ids) ^^ n) (start ids b) t" "wstep act (length ids) t s" by auto
    with Suc.IH wmeasure_step show ?case by fastforce
  qed simp
  then have "n \<le> 5 * length ids" by (simp add: wmeasure_def start_def)
  with inv progress [OF inv] winv_errch [OF inv] show ?thesis by (auto simp: winv_def)
qed

text \<open>One user whose request fails: the whole run.\<close>

definition failing_act :: "nat act" where
  "failing_act uid b = (Some (GoErr ''denied''), Suc b)"

abbreviation pool_state :: "string list \<Rightarrow> phase multiset \<Rightarrow> nat \<Rightarrow> gerror list \<Rightarrow> nat \<Rightarrow> nat \<Rightarrow> string list \<Rightarrow> nat wstate" where
  "pool_state t G n es w b cs \<equiv> \<lparr>todo = t, gos = G, sem = n, errch = es, wg = w, bstate = b, calls = cs\<rparr>"

lemma failing_run: "(wstep failing_act 1 ^^ 5) (start [''u''] 0) (pool_state [] {#} 0 [GoErr ''u: denied''] 0 1 [''u''])"
proof -
  let ?e = "GoErr ''u: denied''"
  have 1: "wstep failing_act 1 (start [''u''] 0) (pool_state [] {#Calling ''u''#} 1 [] 1 0 [])"
    using spawn [of "start [''u''] 0" "''u''" "[]" failing_act 1] by (simp add: start_def maxConcurrentUsers_def)
  have 2: "wstep failing_act 1 (pool_state [] {#Calling ''u''#} 1 [] 1 0 []) (pool_state [] {#Sending ?e#} 1 [] 1 1 [''u''])"
    using call [of "pool_state [] {#Calling ''u''#} 1 [] 1 0 []" "''u''" "{#}" failing_act "Some (GoErr ''denied'')" 1 1] by (simp add: failing_act_def after_call_def wrap_def)
  have 3: "wstep failing_act 1 (pool_state [] {#Sending ?e#} 1 [] 1 1 [''u'']) (pool_state [] {#Releasing#} 1 [?e] 1 1 [''u''])"
    using send [of "pool_state [] {#Sending ?e#} 1 [] 1 1 [''u'']" ?e "{#}" 1 failing_act] by simp
  have 4: "wstep failing_act 1 (pool_state [] {#Releasing#} 1 [?e] 1 1 [''u'']) (pool_state [] {#Finishing#} 0 [?e] 1 1 [''u''])"
    using release [of "pool_state [] {#Releasing#} 1 [?e] 1 1 [''u'']" "{#}" failing_act 1] by simp
  have 5: "wstep failing_act 1 (pool_state [] {#Finishing#} 0 [?e] 1 1 [''u'']) (pool_state [] {#} 0 [?e] 0 1 [''u''])"
    using finish [of "pool_state [] {#Finishing#} 0 [?e] 1 1 [''u'']" "{#}" failing_act 1] by simp
  from 1 2 3 4 5 show ?thesis by (auto simp: eval_nat_numeral relcompp_apply)
qed

theorem pool_progress_witness: "5 \<le> 5 * length [''u''] \<and> length [GoErr ''u: denied''] \<le> length [''u'']"
proof -
  have "(wstep failing_act (length [''u'']) ^^ 5) (start [''u''] 0) (pool_state [] {#} 0 [GoErr ''u: denied''] 0 1 [''u''])"
    using failing_run by simp
  from pool_progress [OF this] show ?thesis by simp
qed

text \<open>
  C21: Whatever the interleaving, when the pool has finished every user was requested exactly once, and the
  state of the backend and the errors are those of making the requests one after the other in some
  order of the users; in particular an error is returned exactly when some request failed.
\<close>

theorem pool_linearizes:
  assumes "(wstep act (length ids))\<^sup>*\<^sup>* (start ids b) s" and "done_waiting s"
  shows "\<exists>order. mset order = mset ids \<and> bstate s = snd (seq_calls act order b) \<and>
           mset (errch s) = mset (fst (seq_calls act order b)) \<and>
           (pool_result (errch s) = None \<longleftrightarrow> fst (seq_calls act order b) = [])"
proof -
  note out = outcome [OF winv_reachable [OF assms(1)] assms(2)]
  then have "errch s = [] \<longleftrightarrow> fst (seq_calls act (calls s) b) = []" by (metis mset_zero_iff)
  with out show ?thesis by (intro exI [of _ "calls s"]) (auto simp: pool_result_def)
qed

theorem pool_linearizes_witness:
  "\<exists>order. mset order = mset [''u''] \<and> (1 :: nat) = snd (seq_calls failing_act order 0) \<and>
     mset [GoErr ''u: denied''] = mset (fst (seq_calls failing_act order 0))"
proof -
  have "(wstep failing_act (length [''u'']))\<^sup>*\<^sup>* (start [''u''] 0) (pool_state [] {#} 0 [GoErr ''u: denied''] 0 1 [''u''])"
    using relpowp_imp_rtranclp [OF failing_run] by simp
  moreover have "done_waiting (pool_state [] {#} 0 [GoErr ''u: denied''] 0 1 [''u''])" by (simp add: done_waiting_def)
  ultimately show ?thesis using pool_linearizes by fastforce
qed

end
