(* ===== verification/Fivetran.thy ===== *)
theory Fivetran
  imports Workers Reconcile
begin

text \<open>
  The Fivetran client (\<^verbatim>\<open>pkg/clients/fivetran\<close>).  The SDK is the parameter \<open>ft_api\<close>: one operation per
  request, on the state \<open>'b\<close> of the service.  A listing request takes the cursor of the page, \<open>None\<close> for
  the first one, and returns the items and the next cursor, empty on the last page.  The two cursor
  loops are \<open>fetch_pages\<close> with fuel; running out of it is \<open>does_not_return\<close>, which no handler
  catches, and a theorem shows it is not reached when the service has finitely many pages.  The
  order in which the goroutines of a membership change make their requests is the parameter \<open>sched\<close>,
  the order in which their errors arrive \<open>esched\<close> (see the theory of the worker pool).
\<close>

section \<open>The service\<close>

record ft_user =
  fu_ID :: string
  fu_Email :: string
  fu_GivenName :: string
  fu_FamilyName :: string
  fu_Role :: string

type_synonym 'i page = "'i list \<times> string"

record 'b ft_api =
  NewTeamsList :: "'b \<Rightarrow> Team page result \<times> 'b"
  NewTeamsCreate :: "string \<Rightarrow> string \<Rightarrow> string \<Rightarrow> 'b \<Rightarrow> Team result \<times> 'b"
  NewTeamsModify :: "string \<Rightarrow> string \<Rightarrow> string \<Rightarrow> string \<Rightarrow> 'b \<Rightarrow> Team result \<times> 'b"
  NewTeamsDetails :: "string \<Rightarrow> 'b \<Rightarrow> Team result \<times> 'b"
  NewTeamsDelete :: "string \<Rightarrow> 'b \<Rightarrow> gerror option \<times> 'b"
  NewTeamUserMembershipsList :: "string \<Rightarrow> string option \<Rightarrow> 'b \<Rightarrow> (string \<times> string) page result \<times> 'b"
  NewTeamUserMembershipCreate :: "string \<Rightarrow> string \<Rightarrow> string \<Rightarrow> 'b \<Rightarrow> gerror option \<times> 'b"
  NewTeamUserMembershipDelete :: "string \<Rightarrow> string \<Rightarrow> 'b \<Rightarrow> gerror option \<times> 'b"
  NewUsersList :: "string option \<Rightarrow> 'b \<Rightarrow> ft_user page result \<times> 'b"
  NewUserInvite :: "string \<Rightarrow> string \<Rightarrow> string \<Rightarrow> 'b \<Rightarrow> ft_user result \<times> 'b"
  NewUserDetails :: "string \<Rightarrow> 'b \<Rightarrow> ft_user result \<times> 'b"
  NewUserModify :: "string \<Rightarrow> string \<Rightarrow> string \<Rightarrow> 'b \<Rightarrow> ft_user result \<times> 'b"
  NewUserDelete :: "string \<Rightarrow> 'b \<Rightarrow> gerror option \<times> 'b"

section \<open>Cursor loops\<close>

definition does_not_return :: gerror where
  "does_not_return = GoPanic ''does not return''"

type_synonym ('i, 'b) pager = "string option \<Rightarrow> 'b \<Rightarrow> 'i page result \<times> 'b"

fun fetch_pages :: "nat \<Rightarrow> ('i, 'b) pager \<Rightarrow> ('i \<Rightarrow> 'a \<Rightarrow> 'a) \<Rightarrow> string \<Rightarrow> 'a \<Rightarrow> 'b \<Rightarrow> 'a result \<times> 'b" where
  "fetch_pages fuel f add [] acc b = (Inr acc, b)"
| "fetch_pages 0 f add cursor acc b = (Inl does_not_return, b)"
| "fetch_pages (Suc fuel) f add cursor acc b =
     (case f (Some cursor) b of
        (Inl err, b') \<Rightarrow> (Inl err, b')
      | (Inr (its, next_cursor), b') \<Rightarrow> fetch_pages fuel f add next_cursor (fold add its acc) b')"

definition fetch_all :: "nat \<Rightarrow> ('i, 'b) pager \<Rightarrow> ('i \<Rightarrow> 'a \<Rightarrow> 'a) \<Rightarrow> 'a \<Rightarrow> 'b \<Rightarrow> 'a result \<times> 'b" where
  "fetch_all fuel f add acc b =
     (case f None b of
        (Inl err, b') \<Rightarrow> (Inl err, b')
      | (Inr (its, cursor), b') \<Rightarrow> fetch_pages fuel f add cursor (fold add its acc) b')"

section \<open>The client\<close>

definition userDetailsFromResponse :: "ft_user \<Rightarrow> User" where
  "userDetailsFromResponse u =
     \<lparr>u_ID = fu_ID u, u_UserName = [], u_Email = fu_Email u, u_FirstName = fu_GivenName u, u_LastName = fu_FamilyName u,
      u_DisplayName = fu_GivenName u @ '' '' @ fu_FamilyName u, u_Role = fu_Role u\<rparr>"

definition add_user :: "ft_user \<Rightarrow> User gomap \<times> User gomap \<Rightarrow> User gomap \<times> User gomap" where
  "add_user u = (\<lambda>(byEmail, byID).
     (AList.update (fu_Email u) (userDetailsFromResponse u) byEmail, AList.update (fu_ID u) (userDetailsFromResponse u) byID))"

definition ft_FetchAllUsers :: "nat \<Rightarrow> 'b ft_api \<Rightarrow> 'b \<Rightarrow> (User gomap \<times> User gomap) result \<times> 'b" where
  "ft_FetchAllUsers fuel api b = fetch_all fuel (NewUsersList api) add_user ([], []) b"

definition ft_CreateUser :: "'b ft_api \<Rightarrow> User \<Rightarrow> 'b \<Rightarrow> User result \<times> 'b" where
  "ft_CreateUser api u b =
     (let (r, b') = NewUserInvite api (u_Email u) (u_LastName u) (u_FirstName u) b
      in (map_sum id userDetailsFromResponse r, b'))"

definition ft_FetchUserDetails :: "'b ft_api \<Rightarrow> string \<Rightarrow> 'b \<Rightarrow> User result \<times> 'b" where
  "ft_FetchUserDetails api userID b =
     (let (r, b') = NewUserDetails api userID b in (map_sum id userDetailsFromResponse r, b'))"

definition ft_UpdateUser :: "'b ft_api \<Rightarrow> User \<Rightarrow> 'b \<Rightarrow> User result \<times> 'b" where
  "ft_UpdateUser api u b =
     (let (r, b') = NewUserModify api (u_ID u) (u_LastName u) (u_FirstName u) b
      in (map_sum id userDetailsFromResponse r, b'))"

definition ft_DeleteUser :: "'b ft_api \<Rightarrow> string \<Rightarrow> 'b \<Rightarrow> gerror option \<times> 'b" where
  "ft_DeleteUser api userID b = NewUserDelete api userID b"

text \<open>Only the first page of the teams is read.\<close>

definition ft_FetchAllTeams :: "'b ft_api \<Rightarrow> 'b \<Rightarrow> Team gomap result \<times> 'b" where
  "ft_FetchAllTeams api b =
     (case NewTeamsList api b of
        (Inl err, b') \<Rightarrow> (Inl err, b')
      | (Inr (its, _), b') \<Rightarrow> (Inr (fold (\<lambda>t. AList.update (t_Name t) t) its []), b'))"

definition role_or_default :: "string \<Rightarrow> string" where
  "role_or_default role = (if role = [] then AccountReviewerRole else role)"

definition ft_CreateTeam :: "'b ft_api \<Rightarrow> Team \<Rightarrow> 'b \<Rightarrow> Team result \<times> 'b" where
  "ft_CreateTeam api team b = NewTeamsCreate api (t_Name team) (role_or_default (t_Role team)) (t_Description team) b"

record UpdateTeam =
  ExistingTeamID :: string
  NewTeamName :: string
  NewRole :: string
  NewDescription :: string

definition ft_UpdateTeam :: "'b ft_api \<Rightarrow> UpdateTeam \<Rightarrow> 'b \<Rightarrow> Team result \<times> 'b" where
  "ft_UpdateTeam api g b =
     NewTeamsModify api (ExistingTeamID g) (role_or_default (NewRole g)) (NewTeamName g) (NewDescription g) b"

definition ft_FetchTeamDetails :: "'b ft_api \<Rightarrow> string \<Rightarrow> 'b \<Rightarrow> Team result \<times> 'b" where
  "ft_FetchTeamDetails api teamID b = NewTeamsDetails api teamID b"

definition ft_DeleteTeamByID :: "'b ft_api \<Rightarrow> string \<Rightarrow> 'b \<Rightarrow> gerror option \<times> 'b" where
  "ft_DeleteTeamByID api teamID b = NewTeamsDelete api teamID b"

definition add_member :: "string \<times> string \<Rightarrow> User gomap \<Rightarrow> User gomap" where
  "add_member = (\<lambda>(uid, role). AList.update uid (empty_user\<lparr>u_ID := uid, u_Role := role\<rparr>))"

definition ft_FetchTeamMembersByTeamID :: "nat \<Rightarrow> 'b ft_api \<Rightarrow> string \<Rightarrow> 'b \<Rightarrow> User gomap result \<times> 'b" where
  "ft_FetchTeamMembersByTeamID fuel api teamID b = fetch_all fuel (NewTeamUserMembershipsList api teamID) add_member [] b"

type_synonym sched = "string list \<Rightarrow> string list"
type_synonym esched = "gerror list \<Rightarrow> gerror list"

definition run_pool :: "sched \<Rightarrow> esched \<Rightarrow> 'b act \<Rightarrow> string list \<Rightarrow> 'b \<Rightarrow> gerror option \<times> 'b" where
  "run_pool sched esched act userIDs b =
     (let (errs, b') = seq_calls act (sched userIDs) b in (pool_result (esched errs), b'))"

definition ft_AddUserToTeam :: "sched \<Rightarrow> esched \<Rightarrow> 'b ft_api \<Rightarrow> string \<Rightarrow> string list \<Rightarrow> 'b \<Rightarrow> gerror option \<times> 'b" where
  "ft_AddUserToTeam sched esched api teamID userIDs b =
     run_pool sched esched (\<lambda>uid. NewTeamUserMembershipCreate api teamID uid ''Team Member'') userIDs b"

definition ft_RemoveUserFromTeam :: "sched \<Rightarrow> esched \<Rightarrow> 'b ft_api \<Rightarrow> string \<Rightarrow> string list \<Rightarrow> 'b \<Rightarrow> gerror option \<times> 'b" where
  "ft_RemoveUserFromTeam sched esched api teamID userIDs b =
     run_pool sched esched (\<lambda>uid. NewTeamUserMembershipDelete api teamID uid) userIDs b"

definition fivetran_client :: "nat \<Rightarrow> sched \<Rightarrow> esched \<Rightarrow> 'b ft_api \<Rightarrow> 'b client" where
  "fivetran_client fuel sched esched api =
     \<lparr>FetchAllUsers = ft_FetchAllUsers fuel api, FetchUserDetails = ft_FetchUserDetails api,
      CreateUser = ft_CreateUser api, DeleteUser = ft_DeleteUser api,
      FetchAllTeams = ft_FetchAllTeams api, FetchTeamDetails = ft_FetchTeamDetails api,
      CreateTeam = ft_CreateTeam api, DeleteTeamByID = ft_DeleteTeamByID api,
      FetchTeamMembersByTeamID = ft_FetchTeamMembersByTeamID fuel api,
      AddUserToTeam = ft_AddUserToTeam sched esched api, RemoveUserFromTeam = ft_RemoveUserFromTeam sched esched api\<rparr>"

section \<open>Listing all pages\<close>

text \<open>A finite chain of pages from a cursor on: the items on them, the final state and their number.\<close>

inductive page_chain :: "('i, 'b) pager \<Rightarrow> string \<Rightarrow> 'b \<Rightarrow> 'i list \<Rightarrow> 'b \<Rightarrow> nat \<Rightarrow> bool" for f where
  last_page: "page_chain f [] b [] b 0"
| more_pages: "cursor \<noteq> [] \<Longrightarrow> f (Some cursor) b = (Inr (its, nxt), b1) \<Longrightarrow> page_chain f nxt b1 rest b2 n \<Longrightarrow>
    page_chain f cursor b (its @ rest) b2 (Suc n)"

lemma fetch_pages_chain:
  "page_chain f cursor b its b' n \<Longrightarrow> n \<le> fuel \<Longrightarrow> fetch_pages fuel f add cursor acc b = (Inr (fold add its acc), b')"
proof (induction arbitrary: fuel acc rule: page_chain.induct)
  case (more_pages cursor b its nxt b1 rest b2 n)
  then obtain k where "fuel = Suc k" "n \<le> k" by (cases fuel) auto
  with more_pages show ?case by (cases cursor) auto
qed (cases fuel; simp)

lemma fetch_all_chain:
  assumes "f None b = (Inr (its, cursor), b1)" and "page_chain f cursor b1 rest b2 n" and "n \<le> fuel"
  shows "fetch_all fuel f add acc b = (Inr (fold add (its @ rest) acc), b2)"
  using assms by (simp add: fetch_all_def fetch_pages_chain)

lemma add_member_step:
  "fst ` set (add_member i acc) = insert (fst i) (fst ` set acc)" "wf_gomap acc \<Longrightarrow> wf_gomap (add_member i acc)"
  by (cases i; simp add: add_member_def dom_update)+

lemma members_of_pages:
  "fst ` set (fold add_member its acc) = fst ` set acc \<union> fst ` set its" "wf_gomap acc \<Longrightarrow> wf_gomap (fold add_member its acc)"
  by (induction its arbitrary: acc) (simp_all add: add_member_step)

section \<open>Changing the membership\<close>

lemma seq_calls_ok:
  assumes "\<And>uid b b'. act uid b = (None, b') \<Longrightarrow> M b' = g uid (M b)"
  shows "seq_calls act uids b = ([], b') \<Longrightarrow> M b' = fold g uids (M b)"
proof (induction uids arbitrary: b)
  case (Cons uid uids)
  then obtain b1 where "act uid b = (None, b1)" "seq_calls act uids b1 = ([], b')"
    by (auto split: prod.splits option.splits)
  with Cons.IH assms show ?case by fastforce
qed simp

lemma pool_result_None [simp]: "pool_result es = None \<longleftrightarrow> es = []"
  by (simp add: pool_result_def)

lemma run_pool_ok:
  assumes "\<And>xs. mset (esched xs) = mset xs"
    and "\<And>uid b b'. act uid b = (None, b') \<Longrightarrow> M b' = g uid (M b)"
    and "run_pool sched esched act uids b = (None, b')"
  shows "M b' = fold g (sched uids) (M b)"
proof -
  from assms(3) obtain errs where e: "seq_calls act (sched uids) b = (errs, b')" "esched errs = []"
    by (auto simp: run_pool_def split: prod.splits)
  from e(2) assms(1) [of errs] have "errs = []" by simp
  with e(1) assms(2) seq_calls_ok [where M = M and g = g] show ?thesis by blast
qed

lemma fold_insert_team: "fold (\<lambda>uid m. m(t := insert uid (m t))) uids m = m(t := m t \<union> set uids)"
  by (induction uids arbitrary: m) auto

lemma fold_remove_team: "fold (\<lambda>uid m. m(t := m t - {uid})) uids m = m(t := m t - set uids)"
  by (induction uids arbitrary: m) (auto simp: fun_eq_iff)

text \<open>
  What is relied on of the service: a listing has finitely many pages, at most \<open>fuel\<close> after the first, which
  together show the members; a membership request that succeeds adds or removes that one user.
\<close>

definition ft_memberships :: "nat \<Rightarrow> 'b ft_api \<Rightarrow> ('b \<Rightarrow> string \<Rightarrow> string set) \<Rightarrow> bool" where
  "ft_memberships fuel api M \<longleftrightarrow>
     (\<forall>t b its cursor b1. NewTeamUserMembershipsList api t None b = (Inr (its, cursor), b1) \<longrightarrow>
        (\<exists>rest b2 n. page_chain (NewTeamUserMembershipsList api t) cursor b1 rest b2 n \<and> n \<le> fuel \<and>
           M b t = fst ` set (its @ rest) \<and> M b2 = M b)) \<and>
     (\<forall>t uid role b b'. NewTeamUserMembershipCreate api t uid role b = (None, b') \<longrightarrow> M b' = (M b)(t := insert uid (M b t))) \<and>
     (\<forall>t uid b b'. NewTeamUserMembershipDelete api t uid b = (None, b') \<longrightarrow> M b' = (M b)(t := M b t - {uid}))"

lemma ft_listing:
  assumes "ft_memberships fuel api M" and "ft_FetchTeamMembersByTeamID fuel api t b = (r, b')"
  shows "(\<exists>e. r = Inl e \<and> fst (NewTeamUserMembershipsList api t None b) = Inl e) \<or>
         (\<exists>ms. r = Inr ms \<and> wf_gomap ms \<and> fst ` set ms = M b t \<and> M b' = M b)"
proof (cases "fst (NewTeamUserMembershipsList api t None b)")
  case (Inl e)
  with assms(2) show ?thesis by (cases "NewTeamUserMembershipsList api t None b") (auto simp: ft_FetchTeamMembersByTeamID_def fetch_all_def)
next
  case (Inr p)
  then obtain its cursor b1 where first: "NewTeamUserMembershipsList api t None b = (Inr (its, cursor), b1)"
    by (metis prod.collapse)
  with assms(1) obtain rest b2 n where c: "page_chain (NewTeamUserMembershipsList api t) cursor b1 rest b2 n" "n \<le> fuel"
    "M b t = fst ` set (its @ rest)" "M b2 = M b" unfolding ft_memberships_def by blast
  from assms(2) fetch_all_chain [OF first c(1,2), of add_member "[]"]
  have "r = Inr (fold add_member (its @ rest) [])" "b' = b2" by (simp_all add: ft_FetchTeamMembersByTeamID_def)
  with c(3,4) members_of_pages [where its = "its @ rest" and acc = "[]"] show ?thesis by (metis image_empty list.set(1) sup_bot_left wf_gomap_Nil)
qed

section \<open>Main results\<close>

lemma fivetran_backend:
  assumes "ft_memberships fuel api M" and "\<And>xs. mset (sched xs) = mset xs" and "\<And>xs. mset (esched xs) = mset xs"
  shows "team_backend (\<lambda>_. True) (fivetran_client fuel sched esched api) M"
proof -
  have set: "set (sched xs) = set xs" for xs using assms(2) [of xs] mset_eq_setD by blast
  note pool = run_pool_ok [where M = M, OF assms(3)]
  have add: "M b' = (M b)(t := M b t \<union> set us)" if "ft_AddUserToTeam sched esched api t us b = (None, b')" for t us b b'
    using pool [OF _ that [unfolded ft_AddUserToTeam_def], of "\<lambda>uid m. m(t := insert uid (m t))"] assms(1)
    by (simp add: fold_insert_team set ft_memberships_def)
  have rm: "M b' = (M b)(t := M b t - set us)" if "ft_RemoveUserFromTeam sched esched api t us b = (None, b')" for t us b b'
    using pool [OF _ that [unfolded ft_RemoveUserFromTeam_def], of "\<lambda>uid m. m(t := m t - {uid})"] assms(1)
    by (simp add: fold_remove_team set ft_memberships_def)
  have ls: "wf_gomap ms \<and> fst ` set ms = M b t \<and> M b' = M b" if "ft_FetchTeamMembersByTeamID fuel api t b = (Inr ms, b')" for t b ms b'
    using ft_listing [OF assms(1) that] by auto
  show ?thesis
    unfolding team_backend_def fivetran_client_def using add rm ls by simp
qed

text \<open>
  C23: The Fivetran client keeps what the reconciler relies on of a backend: with finitely many pages its
  listing returns and shows exactly the members of the team, and a membership change that reports
  success has added or removed exactly the given users, for every order in which the goroutines
  make their requests and report their errors.
\<close>

theorem fivetran_team_backend:
  assumes "ft_memberships fuel api M" and "\<And>xs. mset (sched xs) = mset xs" and "\<And>xs. mset (esched xs) = mset xs"
  shows "team_backend (\<lambda>_. True) (fivetran_client fuel sched esched api) M"
  using assms by (rule fivetran_backend)

text \<open>A service over the demo backend that lists the members in two pages.\<close>

definition ft_demo :: "demo ft_api" where
  "ft_demo =
     \<lparr>NewTeamsList = \<lambda>b. (Inr ([empty_team\<lparr>t_ID := ''t1'', t_Name := ''a''\<rparr>], ''more''), b),
      NewTeamsCreate = \<lambda>n r d b. (Inr (empty_team\<lparr>t_ID := ''t'', t_Name := n\<rparr>), b),
      NewTeamsModify = \<lambda>i r n d b. (Inr empty_team, b),
      NewTeamsDetails = \<lambda>i b. (Inr empty_team, b),
      NewTeamsDelete = \<lambda>i b. (None, AList.delete i b),
      NewTeamUserMembershipsList = \<lambda>t c b.
        (Inr (case c of
           None \<Rightarrow> (map (\<lambda>m. (m, ''Team Member'')) (take 1 (demo_members b t)), ''page-2'')
         | Some _ \<Rightarrow> (map (\<lambda>m. (m, ''Team Member'')) (drop 1 (demo_members b t)), [])), b),
      NewTeamUserMembershipCreate = \<lambda>t u r b. (None, AList.update t (demo_members b t @ [u]) b),
      NewTeamUserMembershipDelete = \<lambda>t u b. (None, AList.update t (removeAll u (demo_members b t)) b),
      NewUsersList = \<lambda>c b. (Inr (case c of
           None \<Rightarrow> ([\<lparr>fu_ID = ''1'', fu_Email = ''a@x'', fu_GivenName = ''A'', fu_FamilyName = ''X'', fu_Role = []\<rparr>], ''page-2'')
         | Some _ \<Rightarrow> ([\<lparr>fu_ID = ''2'', fu_Email = ''b@x'', fu_GivenName = ''B'', fu_FamilyName = ''Y'', fu_Role = []\<rparr>], [])), b),
      NewUserInvite = \<lambda>e f g b. (Inr \<lparr>fu_ID = ''3'', fu_Email = e, fu_GivenName = g, fu_FamilyName = f, fu_Role = []\<rparr>, b),
      NewUserDetails = \<lambda>i b. (Inl (NotFound i), b),
      NewUserModify = \<lambda>i f g b. (Inl (NotFound i), b),
      NewUserDelete = \<lambda>i b. (None, b)\<rparr>"

lemma two_pages:
  assumes "cursor \<noteq> []" and "f (Some cursor) b = (Inr (its, []), b1)"
  shows "page_chain f cursor b its b1 1"
  using page_chain.more_pages [of cursor f b its "[]" b1 "[]" b1 0] assms page_chain.last_page [of f b1] by simp

lemma demo_members_update: "demo_members (AList.update t ms b) = (demo_members b)(t := ms)"
  by (simp add: demo_members_def gomap_simps fun_eq_iff)

lemma ft_demo_listing:
  assumes "NewTeamUserMembershipsList ft_demo t None b = (Inr (its, cursor), b1)"
  shows "\<exists>rest b2 n. page_chain (NewTeamUserMembershipsList ft_demo t) cursor b1 rest b2 n \<and> n \<le> 1 \<and>
           set (demo_members b t) = fst ` set (its @ rest) \<and> b2 = b"
proof -
  let ?rest = "map (\<lambda>m. (m, ''Team Member'')) (drop 1 (demo_members b t))"
  from assms have f: "its = map (\<lambda>m. (m, ''Team Member'')) (take 1 (demo_members b t))" "cursor = ''page-2''" "b1 = b"
    by (auto simp: ft_demo_def)
  have "page_chain (NewTeamUserMembershipsList ft_demo t) ''page-2'' b ?rest b 1"
    by (rule two_pages) (simp_all add: ft_demo_def)
  moreover have "set (demo_members b t) = fst ` set (its @ ?rest)"
    unfolding f(1) by (simp only: map_append [symmetric] append_take_drop_id) (simp add: image_image)
  ultimately show ?thesis using f by blast
qed

lemma ft_demo_memberships: "ft_memberships 1 ft_demo (\<lambda>b t. set (demo_members b t))"
  unfolding ft_memberships_def
proof (intro conjI allI impI)
  fix t b its cursor b1
  assume "NewTeamUserMembershipsList ft_demo t None b = (Inr (its, cursor), b1)"
  from ft_demo_listing [OF this] show "\<exists>rest b2 n. page_chain (NewTeamUserMembershipsList ft_demo t) cursor b1 rest b2 n \<and> n \<le> 1 \<and>
      set (demo_members b t) = fst ` set (its @ rest) \<and> (\<lambda>t. set (demo_members b2 t)) = (\<lambda>t. set (demo_members b t))" by blast
qed (auto simp: ft_demo_def demo_members_update fun_eq_iff)

theorem fivetran_team_backend_witness:
  "team_backend (\<lambda>_. True) (fivetran_client 1 rev rev ft_demo) (\<lambda>b t. set (demo_members b t))"
  by (rule fivetran_team_backend [OF ft_demo_memberships]) simp_all

lemma set_update_gomap: "set (AList.update k v m) \<subseteq> insert (k, v) (set m)"
  by (induction m) auto

text \<open>The two maps while users are added: keys and the fields they repeat.\<close>

definition user_maps :: "ft_user list \<Rightarrow> User gomap \<times> User gomap \<Rightarrow> bool" where
  "user_maps us = (\<lambda>(byEmail, byID). wf_gomap byEmail \<and> wf_gomap byID \<and>
     fst ` set byEmail = fu_Email ` set us \<and> fst ` set byID = fu_ID ` set us \<and>
     (\<forall>(e, u) \<in> set byEmail. u_Email u = e) \<and> (\<forall>(i, u) \<in> set byID. u_ID u = i))"

lemma user_maps_step: "user_maps us m \<Longrightarrow> user_maps (us @ [u]) (add_user u m)"
proof -
  assume m: "user_maps us m"
  obtain m1 m2 where [simp]: "m = (m1, m2)" by (rule prod.exhaust)
  let ?v = "userDetailsFromResponse u"
  have "u_Email ?v = fu_Email u" "u_ID ?v = fu_ID u" by (simp_all add: userDetailsFromResponse_def)
  with m set_update_gomap [of "fu_Email u" ?v m1] set_update_gomap [of "fu_ID u" ?v m2]
  have "\<forall>(e, w) \<in> set (AList.update (fu_Email u) ?v m1). u_Email w = e" "\<forall>(i, w) \<in> set (AList.update (fu_ID u) ?v m2). u_ID w = i"
    by (auto simp: user_maps_def)
  with m show ?thesis by (simp add: user_maps_def add_user_def dom_update)
qed

lemma user_maps_fold: "user_maps us m \<Longrightarrow> user_maps (us @ vs) (fold add_user vs m)"
proof (induction vs arbitrary: us m)
  case (Cons v vs)
  from Cons.IH [OF user_maps_step [OF Cons.prems]] show ?case by simp
qed simp

text \<open>
  C24: With finitely many pages, \<^verbatim>\<open>FetchAllUsers\<close> returns every user of every page in two maps, the first
  keyed by e-mail address and the second by identifier.
\<close>

theorem fetch_all_users_complete:
  assumes "NewUsersList api None b = (Inr (its, cursor), b1)" and "page_chain (NewUsersList api) cursor b1 rest b2 n" and "n \<le> fuel"
  shows "\<exists>byEmail byID. ft_FetchAllUsers fuel api b = (Inr (byEmail, byID), b2) \<and>
           fst ` set byEmail = fu_Email ` set (its @ rest) \<and> fst ` set byID = fu_ID ` set (its @ rest) \<and>
           (\<forall>(e, u) \<in> set byEmail. u_Email u = e) \<and> (\<forall>(i, u) \<in> set byID. u_ID u = i)"
proof -
  obtain byEmail byID where m: "fold add_user (its @ rest) ([], []) = (byEmail, byID)" by (rule prod.exhaust)
  have "user_maps [] ([], [])" by (simp add: user_maps_def)
  from user_maps_fold [OF this, of "its @ rest"] have "user_maps (its @ rest) (byEmail, byID)" by (simp only: m append_Nil)
  moreover have "ft_FetchAllUsers fuel api b = (Inr (byEmail, byID), b2)"
    using fetch_all_chain [OF assms, of add_user "([], [])"] m by (simp add: ft_FetchAllUsers_def)
  ultimately show ?thesis by (auto simp: user_maps_def)
qed

theorem fetch_all_users_complete_witness:
  "\<exists>byEmail byID. ft_FetchAllUsers 1 ft_demo [] = (Inr (byEmail, byID), []) \<and> fst ` set byEmail = {''a@x'', ''b@x''}"
proof -
  let ?u1 = "\<lparr>fu_ID = ''1'', fu_Email = ''a@x'', fu_GivenName = ''A'', fu_FamilyName = ''X'', fu_Role = []\<rparr>"
  let ?u2 = "\<lparr>fu_ID = ''2'', fu_Email = ''b@x'', fu_GivenName = ''B'', fu_FamilyName = ''Y'', fu_Role = []\<rparr>"
  have "NewUsersList ft_demo None [] = (Inr ([?u1], ''page-2''), [])" by (simp add: ft_demo_def)
  moreover have "page_chain (NewUsersList ft_demo) ''page-2'' [] [?u2] [] 1" by (rule two_pages) (simp_all add: ft_demo_def)
  ultimately show ?thesis using fetch_all_users_complete [of ft_demo "[]" "[?u1]" "''page-2''" "[]" "[?u2]" "[]" 1 1] by auto
qed

text \<open>
  \<^verbatim>\<open>FetchAllTeams\<close> makes one request: it returns the teams of the first page under their names and
  ignores the cursor, so the teams of further pages are missing.
\<close>

theorem fetch_all_teams_first_page:
  assumes "NewTeamsList api b = (Inr (its, cursor), b1)"
  shows "\<exists>teams. ft_FetchAllTeams api b = (Inr teams, b1) \<and> wf_gomap teams \<and> fst ` set teams = t_Name ` set its"
proof -
  have "wf_gomap m \<Longrightarrow> wf_gomap (fold (\<lambda>t. AList.update (t_Name t) t) its m) \<and>
      fst ` set (fold (\<lambda>t. AList.update (t_Name t) t) its m) = fst ` set m \<union> t_Name ` set its" for m
    by (induction its arbitrary: m) (simp_all add: dom_update)
  from this [of "[]"] assms show ?thesis by (simp add: ft_FetchAllTeams_def)
qed

theorem fetch_all_teams_first_page_witness:
  "\<exists>teams. ft_FetchAllTeams ft_demo [] = (Inr teams, []) \<and> fst ` set teams = {''a''}"
  using fetch_all_teams_first_page [of ft_demo "[]" "[empty_team\<lparr>t_ID := ''t1'', t_Name := ''a''\<rparr>]" "''more''" "[]"]
  by (auto simp: ft_demo_def)


lemma empty_pool_done: "done_waiting (start [] b)"
  by (simp add: done_waiting_def start_def)

lemma one_user_run:
  assumes "act uid b = (None, b')"
  shows "(wstep act 1)\<^sup>*\<^sup>* (start [uid] b) \<lparr>todo = [], gos = {#}, sem = 0, errch = [], wg = 0, bstate = b', calls = [uid]\<rparr>"
proof -
  let ?s = "\<lambda>G n w c cs. \<lparr>todo = [], gos = G, sem = n, errch = [], wg = w, bstate = c, calls = cs\<rparr>"
  have "wstep act 1 (start [uid] b) (?s {#Calling uid#} 1 1 b [])"
    using spawn [of "start [uid] b" uid "[]" act 1] by (simp add: start_def maxConcurrentUsers_def)
  moreover have "wstep act 1 (?s {#Calling uid#} 1 1 b []) (?s {#Releasing#} 1 1 b' [uid])"
    using call [of "?s {#Calling uid#} 1 1 b []" uid "{#}" act None b' 1] assms by (simp add: after_call_def)
  moreover have "wstep act 1 (?s {#Releasing#} 1 1 b' [uid]) (?s {#Finishing#} 0 1 b' [uid])"
    using release [of "?s {#Releasing#} 1 1 b' [uid]" "{#}" act 1] by simp
  moreover have "wstep act 1 (?s {#Finishing#} 0 1 b' [uid]) (?s {#} 0 0 b' [uid])"
    using finish [of "?s {#Finishing#} 0 1 b' [uid]" "{#}" act 1] by simp
  ultimately show ?thesis by (meson converse_rtranclp_into_rtranclp rtranclp.rtrancl_refl)
qed


end
