(* ===== verification/Snowflake.thy ===== *)
theory Snowflake
  imports LinkHeader JsonStructs Ldap Fivetran
begin

text \<open>
  The Snowflake client (\<^verbatim>\<open>pkg/clients/snowflake\<close>) on an HTTP service: its configuration, the requests with
  their headers, the pagination by \<^verbatim>\<open>Link\<close> headers and one definition per operation.  Teams are roles
  and memberships are grants.  Names are lower-cased on the way in.  The pagination loop has fuel;
  running out of it is \<^const>\<open>does_not_return\<close>, and a lemma shows that it is not reached when the service has
  finitely many pages.
\<close>

section \<open>Data\<close>

record SnowflakeConfig =
  sf_PAT :: string
  sf_BaseURL :: string

record SnowflakeUser =
  su_Name :: string
  su_Email :: string
  su_DisplayName :: string

record SnowflakeGrant =
  sg_GrantedTo :: string
  sg_GranteeName :: string

record SnowflakeRole =
  sr_Name :: string

definition empty_sf_user :: SnowflakeUser where
  "empty_sf_user = \<lparr>su_Name = [], su_Email = [], su_DisplayName = []\<rparr>"

definition empty_grant :: SnowflakeGrant where
  "empty_grant = \<lparr>sg_GrantedTo = [], sg_GranteeName = []\<rparr>"

definition empty_role :: SnowflakeRole where
  "empty_role = \<lparr>sr_Name = []\<rparr>"

definition dec_sf_user :: "SnowflakeUser decoder" where
  "dec_sf_user = dec_struct
     [(''name'', \<lambda>j u. map_option (\<lambda>v. u\<lparr>su_Name := v\<rparr>) (dec_string j (su_Name u))),
      (''email'', \<lambda>j u. map_option (\<lambda>v. u\<lparr>su_Email := v\<rparr>) (dec_string j (su_Email u))),
      (''displayName'', \<lambda>j u. map_option (\<lambda>v. u\<lparr>su_DisplayName := v\<rparr>) (dec_string j (su_DisplayName u)))]"

definition dec_grant :: "SnowflakeGrant decoder" where
  "dec_grant = dec_struct
     [(''granted_to'', \<lambda>j g. map_option (\<lambda>v. g\<lparr>sg_GrantedTo := v\<rparr>) (dec_string j (sg_GrantedTo g))),
      (''grantee_name'', \<lambda>j g. map_option (\<lambda>v. g\<lparr>sg_GranteeName := v\<rparr>) (dec_string j (sg_GranteeName g)))]"

definition dec_role :: "SnowflakeRole decoder" where
  "dec_role = dec_struct [(''name'', \<lambda>j r. map_option (\<lambda>v. r\<lparr>sr_Name := v\<rparr>) (dec_string j (sr_Name r)))]"

section \<open>Construction\<close>

definition snowflake_NewClient ::
    "('k, 'p) tls_env \<Rightarrow> goval gomap \<Rightarrow> ConnectionPoolConfig \<Rightarrow> HystrixResiliencyConfig \<Rightarrow>
     (SnowflakeConfig \<times> ('k, 'p) hystrix_options) result" where
  "snowflake_NewClient T connection pool hystrixCfg =
     (let pat = get_string connection ''pat''; baseURL = get_string connection ''base_url''
      in if pat = [] \<or> baseURL = [] then
           Inl (GoErr ''missing required connection parameters for snowflake backend: pat and base_url are required'')
         else
           (case InitializeClient T ''snowflake'' pool hystrixCfg
                   (Some (ConstantBackoff (milliseconds 100) (milliseconds 50))) 3 False of
              Inl err \<Rightarrow> Inl (errorf ''failed to initialize http client: '' err)
            | Inr opts \<Rightarrow> Inr (\<lparr>sf_PAT = pat, sf_BaseURL = baseURL\<rparr>, opts)))"

section \<open>Requests\<close>

definition sf_headers :: "SnowflakeConfig \<Rightarrow> string gomap" where
  "sf_headers cfg =
     [(''Authorization'', ''Bearer '' @ sf_PAT cfg), (''Content-Type'', ''application/json''), (''Accept'', ''application/json'')]"

definition prepareRequest :: "'b http \<Rightarrow> SnowflakeConfig \<Rightarrow> string \<Rightarrow> string \<Rightarrow> json option \<Rightarrow> http_request result" where
  "prepareRequest h cfg endpoint meth body =
     (let requestBody = (case body of
            Some j \<Rightarrow> if meth \<noteq> ''GET'' \<and> meth \<noteq> ''DELETE'' then print_json j else []
          | None \<Rightarrow> [])
      in (case NewRequest h meth (sf_BaseURL cfg @ endpoint) requestBody of
            Inl err \<Rightarrow> Inl err
          | Inr req \<Rightarrow> Inr (SetHeaders (header_order h) (sf_headers cfg) req)))"

definition sf_makeRequest :: "'b http \<Rightarrow> SnowflakeConfig \<Rightarrow> string \<Rightarrow> string \<Rightarrow> json option \<Rightarrow> 'b \<Rightarrow> reply \<times> 'b" where
  "sf_makeRequest h cfg endpoint meth body b =
     (case prepareRequest h cfg endpoint meth body of
        Inl err \<Rightarrow> (([], 0, Some err), b)
      | Inr req \<Rightarrow> MakeRequest h req b)"

definition sf_makeRequestWithHeader :: "'b http \<Rightarrow> SnowflakeConfig \<Rightarrow> string \<Rightarrow> string \<Rightarrow> json option \<Rightarrow> 'b \<Rightarrow> reply_with_header \<times> 'b" where
  "sf_makeRequestWithHeader h cfg endpoint meth body b =
     (case prepareRequest h cfg endpoint meth body of
        Inl err \<Rightarrow> (([], [], 0, Some err), b)
      | Inr req \<Rightarrow> MakeRequestWithHeader h req b)"

definition status_error :: "string \<Rightarrow> nat \<Rightarrow> string \<Rightarrow> gerror" where
  "status_error what status body = GoErr (what @ StatusText status @ '', body: '' @ body)"

section \<open>Pagination\<close>

text \<open>The next page according to the headers of a response, empty when there is none.\<close>

definition next_url :: "header \<Rightarrow> string" where
  "next_url headers =
     (let linkHeader = header_Get headers ''Link'' in if linkHeader \<noteq> [] then parseLinkHeader linkHeader ''next'' else [])"

text \<open>One request of the loop: the body and the next page.\<close>

definition fetch_page :: "'b http \<Rightarrow> SnowflakeConfig \<Rightarrow> (nat \<Rightarrow> string \<Rightarrow> gerror) \<Rightarrow> string \<Rightarrow> 'b \<Rightarrow> (string \<times> string) result \<times> 'b" where
  "fetch_page h cfg bad endpoint b =
     (let ((resp, headers, status, err), b') = sf_makeRequestWithHeader h cfg endpoint ''GET'' None b
      in (case err of
            Some e \<Rightarrow> Inl e
          | None \<Rightarrow> if status \<noteq> 200 then Inl (bad status resp) else Inr (resp, next_url headers), b'))"

fun sf_pages :: "nat \<Rightarrow> 'b http \<Rightarrow> SnowflakeConfig \<Rightarrow> (string \<Rightarrow> 'a \<Rightarrow> 'a result) \<Rightarrow> string \<Rightarrow> 'a \<Rightarrow> 'b \<Rightarrow> 'a result \<times> 'b" where
  "sf_pages fuel h cfg processPage [] acc b = (Inr acc, b)"
| "sf_pages 0 h cfg processPage nextURL acc b = (Inl does_not_return, b)"
| "sf_pages (Suc fuel) h cfg processPage nextURL acc b =
     (case fetch_page h cfg (status_error ''unexpected status during pagination: '') nextURL b of
        (Inl e, b') \<Rightarrow> (Inl e, b')
      | (Inr (resp, nextURL'), b') \<Rightarrow>
          (case processPage resp acc of
             Inl e \<Rightarrow> (Inl e, b')
           | Inr acc' \<Rightarrow> sf_pages fuel h cfg processPage nextURL' acc' b'))"

definition fetchAllWithPagination ::
    "nat \<Rightarrow> 'b http \<Rightarrow> SnowflakeConfig \<Rightarrow> string \<Rightarrow> (string \<Rightarrow> 'a \<Rightarrow> 'a result) \<Rightarrow> 'a \<Rightarrow> 'b \<Rightarrow> 'a result \<times> 'b" where
  "fetchAllWithPagination fuel h cfg endpoint processPage acc b =
     (case fetch_page h cfg (status_error (''failed to fetch data from '' @ endpoint @ '', status: '')) endpoint b of
        (Inl e, b') \<Rightarrow> (Inl e, b')
      | (Inr (resp, nextURL), b') \<Rightarrow>
          (case processPage resp acc of
             Inl e \<Rightarrow> (Inl e, b')
           | Inr acc' \<Rightarrow> sf_pages fuel h cfg processPage nextURL acc' b'))"

section \<open>Teams\<close>

definition named_team :: "string \<Rightarrow> Team" where
  "named_team name = empty_team\<lparr>t_ID := ToLower name, t_Name := ToLower name\<rparr>"

definition add_role :: "SnowflakeRole \<Rightarrow> Team gomap \<Rightarrow> Team gomap" where
  "add_role role = AList.update (ToLower (sr_Name role)) (named_team (sr_Name role))"

definition processTeamsPage :: "string \<Rightarrow> Team gomap \<Rightarrow> Team gomap result" where
  "processTeamsPage resp teams =
     (case Unmarshal (dec_slice empty_role dec_role) resp NilSlice of
        Inl err \<Rightarrow> Inl (errorf ''failed to parse roles response: '' err)
      | Inr roles \<Rightarrow> Inr (fold add_role (elements roles) teams))"

definition sf_FetchAllTeams :: "nat \<Rightarrow> 'b http \<Rightarrow> SnowflakeConfig \<Rightarrow> 'b \<Rightarrow> Team gomap result \<times> 'b" where
  "sf_FetchAllTeams fuel h cfg b = fetchAllWithPagination fuel h cfg ''/api/v2/roles'' processTeamsPage [] b"

definition sf_CreateTeam :: "'b http \<Rightarrow> SnowflakeConfig \<Rightarrow> Team \<Rightarrow> 'b \<Rightarrow> Team result \<times> 'b" where
  "sf_CreateTeam h cfg team b =
     (let ((resp, status, err), b') = sf_makeRequest h cfg ''/api/v2/roles'' ''POST'' (Some (json_map [(''name'', JStr (t_Name team))])) b
      in (case err of
            Some e \<Rightarrow> Inl e
          | None \<Rightarrow>
              if status \<noteq> 200 \<and> status \<noteq> 201 then Inl (status_error ''failed to create role, status: '' status resp)
              else Inr (named_team (t_Name team)), b'))"

definition sf_FetchTeamDetails :: "string \<Rightarrow> 'b \<Rightarrow> Team result \<times> 'b" where
  "sf_FetchTeamDetails teamID b = (Inr (named_team teamID), b)"

text \<open>The end of both deletions.\<close>

definition deleted :: "string \<Rightarrow> reply \<Rightarrow> gerror option" where
  "deleted what = (\<lambda>(resp, status, err).
     (case err of
        Some e \<Rightarrow> Some (errorf (''failed to delete '' @ what @ '': '') e)
      | None \<Rightarrow>
          if status \<noteq> 200 \<and> status \<noteq> 204 then Some (status_error (''failed to delete '' @ what @ '', status: '') status resp) else None))"

definition sf_DeleteTeamByID :: "'b http \<Rightarrow> SnowflakeConfig \<Rightarrow> string \<Rightarrow> 'b \<Rightarrow> gerror option \<times> 'b" where
  "sf_DeleteTeamByID h cfg teamID b = apfst (deleted ''role'') (sf_makeRequest h cfg (''/api/v2/roles/'' @ teamID) ''DELETE'' None b)"

section \<open>Membership\<close>

definition add_grant :: "SnowflakeGrant \<Rightarrow> User gomap \<Rightarrow> User gomap" where
  "add_grant g members =
     (if sg_GrantedTo g = ''USER'' \<and> sg_GranteeName g \<noteq> [] then
        AList.update (ToLower (sg_GranteeName g))
          (empty_user\<lparr>u_ID := ToLower (sg_GranteeName g), u_UserName := ToLower (sg_GranteeName g)\<rparr>) members
      else members)"

text \<open>A single request: the \<^verbatim>\<open>Link\<close> header of the response is not looked at.\<close>

definition sf_FetchTeamMembersByTeamID :: "'b http \<Rightarrow> SnowflakeConfig \<Rightarrow> string \<Rightarrow> 'b \<Rightarrow> User gomap result \<times> 'b" where
  "sf_FetchTeamMembersByTeamID h cfg teamID b =
     (let ((resp, status, err), b') = sf_makeRequest h cfg (''/api/v2/roles/'' @ teamID @ ''/grants-of'') ''GET'' None b
      in (case err of
            Some e \<Rightarrow> Inl (errorf ''error making request to fetch team members: '' e)
          | None \<Rightarrow>
              if status \<noteq> 200 then Inl (status_error ''failed to fetch team members, status: '' status resp)
              else
                (case Unmarshal (dec_slice empty_grant dec_grant) resp NilSlice of
                   Inl e \<Rightarrow> Inl (errorf ''error unmarshaling response: '' e)
                 | Inr grants \<Rightarrow> Inr (fold add_grant (elements grants) [])), b'))"

definition role_payload :: "string \<Rightarrow> json" where
  "role_payload teamID = json_map
     [(''securable'', json_map [(''name'', JStr teamID)]), (''securable_type'', JStr ''ROLE''), (''privileges'', JArr [])]"

definition makeRoleRequest :: "'b http \<Rightarrow> SnowflakeConfig \<Rightarrow> string \<Rightarrow> string \<Rightarrow> 'b \<Rightarrow> reply \<times> 'b" where
  "makeRoleRequest h cfg teamID endpoint b = sf_makeRequest h cfg endpoint ''POST'' (Some (role_payload teamID)) b"

fun sf_AddUserToTeam :: "'b http \<Rightarrow> SnowflakeConfig \<Rightarrow> string \<Rightarrow> string list \<Rightarrow> 'b \<Rightarrow> gerror option \<times> 'b" where
  "sf_AddUserToTeam h cfg teamID [] b = (None, b)"
| "sf_AddUserToTeam h cfg teamID (userID # userIDs) b =
     (let ((resp, status, err), b') = makeRoleRequest h cfg teamID (''/api/v2/users/'' @ userID @ ''/grants'') b;
          what = ''failed to add user '' @ userID @ '' to team '' @ teamID
      in case err of
           Some e \<Rightarrow> (Some (errorf (what @ '': '') e), b')
         | None \<Rightarrow>
             if status \<noteq> 200 \<and> status \<noteq> 201 then (Some (status_error (what @ '', status: '') status resp), b')
             else sf_AddUserToTeam h cfg teamID userIDs b')"

fun sf_RemoveUserFromTeam :: "'b http \<Rightarrow> SnowflakeConfig \<Rightarrow> string \<Rightarrow> string list \<Rightarrow> 'b \<Rightarrow> gerror option \<times> 'b" where
  "sf_RemoveUserFromTeam h cfg teamID [] b = (None, b)"
| "sf_RemoveUserFromTeam h cfg teamID (userID # userIDs) b =
     (let ((resp, status, err), b') = makeRoleRequest h cfg teamID (''/api/v2/users/'' @ userID @ ''/grants:revoke'') b;
          what = ''failed to remove user '' @ userID @ '' from team '' @ teamID
      in case err of
           Some e \<Rightarrow> (Some (errorf (what @ '': '') e), b')
         | None \<Rightarrow>
             if status \<noteq> 200 \<and> status \<noteq> 204 then (Some (status_error (what @ '', status: '') status resp), b')
             else sf_RemoveUserFromTeam h cfg teamID userIDs b')"

section \<open>Users\<close>

definition user_of_sf :: "string \<Rightarrow> SnowflakeUser \<Rightarrow> User" where
  "user_of_sf name u =
     empty_user\<lparr>u_ID := ToLower name, u_UserName := ToLower name, u_Email := ToLower (su_Email u), u_DisplayName := su_DisplayName u\<rparr>"

definition add_sf_user :: "SnowflakeUser \<Rightarrow> User gomap \<times> User gomap \<Rightarrow> User gomap \<times> User gomap" where
  "add_sf_user u = (\<lambda>(byID, byEmail).
     (AList.update (ToLower (su_Name u)) (user_of_sf (su_Name u) u) byID,
      if su_Email u \<noteq> [] then AList.update (ToLower (su_Email u)) (user_of_sf (su_Name u) u) byEmail else byEmail))"

definition processUsersPage :: "string \<Rightarrow> User gomap \<times> User gomap \<Rightarrow> (User gomap \<times> User gomap) result" where
  "processUsersPage resp acc =
     (case Unmarshal (dec_slice empty_sf_user dec_sf_user) resp NilSlice of
        Inl err \<Rightarrow> Inl (errorf ''failed to parse users response: '' err)
      | Inr us \<Rightarrow> Inr (fold add_sf_user (elements us) acc))"

definition sf_FetchAllUsers :: "nat \<Rightarrow> 'b http \<Rightarrow> SnowflakeConfig \<Rightarrow> 'b \<Rightarrow> (User gomap \<times> User gomap) result \<times> 'b" where
  "sf_FetchAllUsers fuel h cfg b = fetchAllWithPagination fuel h cfg ''/api/v2/users'' processUsersPage ([], []) b"

definition user_payload :: "User \<Rightarrow> json" where
  "user_payload u = json_map
     ([(''name'', JStr (u_UserName u)), (''email'', JStr (u_Email u))] @
      (if u_DisplayName u \<noteq> [] then [(''displayName'', JStr (u_DisplayName u))] else []))"

definition sf_CreateUser :: "'b http \<Rightarrow> SnowflakeConfig \<Rightarrow> User \<Rightarrow> 'b \<Rightarrow> User result \<times> 'b" where
  "sf_CreateUser h cfg u b =
     (if u_Email u = [] \<or> u_UserName u = [] then
        (Inl (GoErr ''email and username are required for Snowflake user creation''), b)
      else
        (let ((resp, status, err), b') = sf_makeRequest h cfg ''/api/v2/users'' ''POST'' (Some (user_payload u)) b
         in (case err of
               Some e \<Rightarrow> Inl e
             | None \<Rightarrow>
                 if status \<noteq> 200 \<and> status \<noteq> 201 then Inl (status_error ''failed to create user, status: '' status resp)
                 else
                   (case Unmarshal dec_sf_user resp empty_sf_user of
                      Inl e \<Rightarrow> Inl (errorf ''failed to parse create user response: '' e)
                    | Inr created \<Rightarrow> Inr (user_of_sf (su_Name created) created)), b')))"

definition sf_FetchUserDetails :: "'b http \<Rightarrow> SnowflakeConfig \<Rightarrow> string \<Rightarrow> 'b \<Rightarrow> User result \<times> 'b" where
  "sf_FetchUserDetails h cfg userID b =
     (let ((resp, status, err), b') = sf_makeRequest h cfg (''/api/v2/users/'' @ userID) ''GET'' None b
      in (case err of
            Some e \<Rightarrow> Inl e
          | None \<Rightarrow>
              if status \<noteq> 200 then Inl (status_error ''failed to fetch user details, status: '' status resp)
              else
                (case Unmarshal dec_sf_user resp empty_sf_user of
                   Inl e \<Rightarrow> Inl (errorf ''failed to parse user response: '' e)
                 | Inr u \<Rightarrow> Inr (user_of_sf userID u)), b'))"

definition sf_DeleteUser :: "'b http \<Rightarrow> SnowflakeConfig \<Rightarrow> string \<Rightarrow> 'b \<Rightarrow> gerror option \<times> 'b" where
  "sf_DeleteUser h cfg userID b = apfst (deleted ''user'') (sf_makeRequest h cfg (''/api/v2/users/'' @ userID) ''DELETE'' None b)"

definition snowflake_client :: "nat \<Rightarrow> 'b http \<Rightarrow> SnowflakeConfig \<Rightarrow> 'b client" where
  "snowflake_client fuel h cfg =
     \<lparr>FetchAllUsers = sf_FetchAllUsers fuel h cfg, FetchUserDetails = sf_FetchUserDetails h cfg,
      CreateUser = sf_CreateUser h cfg, DeleteUser = sf_DeleteUser h cfg,
      FetchAllTeams = sf_FetchAllTeams fuel h cfg, FetchTeamDetails = sf_FetchTeamDetails,
      CreateTeam = sf_CreateTeam h cfg, DeleteTeamByID = sf_DeleteTeamByID h cfg,
      FetchTeamMembersByTeamID = sf_FetchTeamMembersByTeamID h cfg,
      AddUserToTeam = sf_AddUserToTeam h cfg, RemoveUserFromTeam = sf_RemoveUserFromTeam h cfg\<rparr>"

section \<open>Every request\<close>

lemma canonical_sf_headers: "distinct (map (CanonicalHeaderKey \<circ> fst) (sf_headers cfg))"
proof -
  have "CanonicalHeaderKey ''Authorization'' = ''Authorization''" "CanonicalHeaderKey ''Content-Type'' = ''Content-Type''"
    "CanonicalHeaderKey ''Accept'' = ''Accept''" by code_simp+
  then show ?thesis by (simp add: sf_headers_def)
qed

lemma prepareRequest_ok:
  assumes "prepareRequest h cfg endpoint meth body = Inr req" and "meth \<noteq> []"
  obtains r where "rq_header r = []"
    "req = SetHeaders (header_order h) (sf_headers cfg) r" "rq_url req = sf_BaseURL cfg @ endpoint" "rq_method req = meth"
    "rq_body req = (case body of Some j \<Rightarrow> if meth \<noteq> ''GET'' \<and> meth \<noteq> ''DELETE'' then print_json j else [] | None \<Rightarrow> [])"
proof -
  let ?body = "case body of Some j \<Rightarrow> if meth \<noteq> ''GET'' \<and> meth \<noteq> ''DELETE'' then print_json j else [] | None \<Rightarrow> []"
  from assms(1) obtain r where "NewRequest h meth (sf_BaseURL cfg @ endpoint) ?body = Inr r"
    and "req = SetHeaders (header_order h) (sf_headers cfg) r"
    by (auto simp only: prepareRequest_def Let_def split: sum.splits)
  with assms(2) show ?thesis by (intro that [of r]) (auto simp: NewRequest_def SetHeaders_def split: option.splits)
qed

text \<open>A request that was answered: what was sent and what came back.\<close>

lemma sf_makeRequest_ok:
  assumes "sf_makeRequest h cfg endpoint meth body b = ((resp, status, None), b')" and "meth \<noteq> []"
  obtains r res where "rq_method r = meth" "rq_url r = sf_BaseURL cfg @ endpoint"
    "rq_body r = (case body of Some j \<Rightarrow> if meth \<noteq> ''GET'' \<and> meth \<noteq> ''DELETE'' then print_json j else [] | None \<Rightarrow> [])"
    "Do h r b = (Inr res, b')" "StatusCode res = status" "rs_body res = Inr resp"
proof -
  from assms(1) obtain req where p: "prepareRequest h cfg endpoint meth body = Inr req"
    and mk: "MakeRequest h req b = ((resp, status, None), b')" by (auto simp: sf_makeRequest_def split: sum.splits)
  obtain d b1 where d: "Do h req b = (d, b1)" by (rule prod.exhaust)
  from mk d obtain res where "d = Inr res" "b1 = b'" "rs_body res = Inr resp" "StatusCode res = status"
    by (auto simp: MakeRequest_def request_send_def split: sum.splits option.splits)
  with d prepareRequest_ok [OF p assms(2)] that show ?thesis by metis
qed

section \<open>Membership\<close>

definition json_grant :: "SnowflakeGrant \<Rightarrow> json" where
  "json_grant g = JObj [(''granted_to'', JStr (sg_GrantedTo g)), (''grantee_name'', JStr (sg_GranteeName g))]"

definition valid_grant :: "SnowflakeGrant \<Rightarrow> bool" where
  "valid_grant g \<longleftrightarrow> valid_utf8 (sg_GrantedTo g) \<and> valid_utf8 (sg_GranteeName g)"

definition granted_users :: "SnowflakeGrant list \<Rightarrow> string set" where
  "granted_users gs = {ToLower (sg_GranteeName g) |g. g \<in> set gs \<and> sg_GrantedTo g = ''USER'' \<and> sg_GranteeName g \<noteq> []}"

text \<open>Identifiers as the client hands them out: in lower case.\<close>

definition lower_id :: "string \<Rightarrow> bool" where
  "lower_id s \<longleftrightarrow> valid_utf8 s \<and> ToLower s = s"

text \<open>
  What is relied on of the service: \<open>M b t\<close> are the names, in lower case, of the users the role \<open>t\<close> is
  granted to.  The listing of grants comes in one response.
\<close>

definition sf_service :: "'b http \<Rightarrow> string \<Rightarrow> ('b \<Rightarrow> string \<Rightarrow> string set) \<Rightarrow> bool" where
  "sf_service h base M \<longleftrightarrow>
     (\<forall>t r b res b' body. rq_method r = ''GET'' \<longrightarrow> rq_url r = base @ ''/api/v2/roles/'' @ t @ ''/grants-of'' \<longrightarrow>
        Do h r b = (Inr res, b') \<longrightarrow> StatusCode res = 200 \<longrightarrow> rs_body res = Inr body \<longrightarrow>
        (\<exists>gs. body = print_json (JArr (map json_grant gs)) \<and> list_all valid_grant gs \<and> granted_users gs = M b t) \<and> M b' = M b) \<and>
     (\<forall>t u r b res b'. valid_utf8 t \<longrightarrow> rq_method r = ''POST'' \<longrightarrow> rq_url r = base @ ''/api/v2/users/'' @ u @ ''/grants'' \<longrightarrow>
        rq_body r = print_json (role_payload t) \<longrightarrow> Do h r b = (Inr res, b') \<longrightarrow> StatusCode res \<in> {200, 201} \<longrightarrow>
        M b' = (M b)(t := insert (ToLower u) (M b t))) \<and>
     (\<forall>t u r b res b'. valid_utf8 t \<longrightarrow> rq_method r = ''POST'' \<longrightarrow> rq_url r = base @ ''/api/v2/users/'' @ u @ ''/grants:revoke'' \<longrightarrow>
        rq_body r = print_json (role_payload t) \<longrightarrow> Do h r b = (Inr res, b') \<longrightarrow> StatusCode res \<in> {200, 204} \<longrightarrow>
        M b' = (M b)(t := M b t - {ToLower u}))"

lemma sf_serviceD:
  assumes "sf_service h base M"
  shows "rq_method r = ''GET'' \<Longrightarrow> rq_url r = base @ ''/api/v2/roles/'' @ t @ ''/grants-of'' \<Longrightarrow> Do h r b = (Inr res, b') \<Longrightarrow>
      StatusCode res = 200 \<Longrightarrow> rs_body res = Inr body \<Longrightarrow>
      (\<exists>gs. body = print_json (JArr (map json_grant gs)) \<and> list_all valid_grant gs \<and> granted_users gs = M b t) \<and> M b' = M b"
    and "valid_utf8 t \<Longrightarrow> rq_method r = ''POST'' \<Longrightarrow> rq_url r = base @ ''/api/v2/users/'' @ u @ ''/grants'' \<Longrightarrow>
      rq_body r = print_json (role_payload t) \<Longrightarrow> Do h r b = (Inr res, b') \<Longrightarrow> StatusCode res \<in> {200, 201} \<Longrightarrow>
      M b' = (M b)(t := insert (ToLower u) (M b t))"
    and "valid_utf8 t \<Longrightarrow> rq_method r = ''POST'' \<Longrightarrow> rq_url r = base @ ''/api/v2/users/'' @ u @ ''/grants:revoke'' \<Longrightarrow>
      rq_body r = print_json (role_payload t) \<Longrightarrow> Do h r b = (Inr res, b') \<Longrightarrow> StatusCode res \<in> {200, 204} \<Longrightarrow>
      M b' = (M b)(t := M b t - {ToLower u})"
  using assms unfolding sf_service_def by blast+

lemma valid_grant_names: "valid_utf8 ''granted_to''" "valid_utf8 ''grantee_name''"
  by (rule valid_ascii_list, simp)+

lemma dec_json_grant: "dec_grant (json_grant g) old = Some g"
  by (simp add: dec_grant_def json_grant_def select_field_def)

lemma valid_json_grant: "valid_json (json_grant g) \<longleftrightarrow> valid_grant g"
  by (simp add: json_grant_def valid_grant_def valid_grant_names)

text \<open>Decoding a page of encoded objects.\<close>

lemma Unmarshal_page:
  assumes "\<And>x. x \<in> set xs \<Longrightarrow> valid_json (f x) \<and> d (f x) zero = Some x"
  shows "\<exists>sl. Unmarshal (dec_slice zero d) (print_json (JArr (map f xs))) NilSlice = Inr sl \<and> elements sl = xs"
proof -
  have "valid_json (JArr (map f xs))" using assms by (simp add: list_all_iff)
  note Unmarshal_valid [OF this, of "dec_slice zero d" NilSlice]
  moreover have "map_option elements (dec_slice zero d (JArr (map f xs)) NilSlice) = Some xs"
    unfolding dec_slice_fresh using assms by (simp add: comp_def those_map_Some [where g = "\<lambda>x. x"])
  ultimately show ?thesis by (auto simp del: print_json.simps dec_slice.simps)
qed

lemma add_grants:
  "fst ` set (fold add_grant gs acc) = fst ` set acc \<union> granted_users gs"
  "wf_gomap acc \<Longrightarrow> wf_gomap (fold add_grant gs acc)"
  by (induction gs arbitrary: acc) (auto simp: add_grant_def granted_users_def dom_update)

lemma sf_listing:
  assumes "sf_service h (sf_BaseURL cfg) M" and "sf_FetchTeamMembersByTeamID h cfg t b = (Inr ms, b')"
  shows "wf_gomap ms \<and> fst ` set ms = M b t \<and> M b' = M b \<and> (\<forall>i \<in> fst ` set ms. lower_id i)"
proof -
  from assms(2) obtain resp sl where
    s: "sf_makeRequest h cfg (''/api/v2/roles/'' @ t @ ''/grants-of'') ''GET'' None b = ((resp, 200, None), b')"
    and g: "Unmarshal (dec_slice empty_grant dec_grant) resp NilSlice = Inr sl" "ms = fold add_grant (elements sl) []"
    by (auto simp: sf_FetchTeamMembersByTeamID_def Let_def split: prod.splits option.splits if_splits sum.splits)
  from s obtain r res where r: "rq_method r = ''GET''" "rq_url r = sf_BaseURL cfg @ ''/api/v2/roles/'' @ t @ ''/grants-of''"
    "Do h r b = (Inr res, b')" "StatusCode res = 200" "rs_body res = Inr resp" by (rule sf_makeRequest_ok) simp_all
  from sf_serviceD(1) [OF assms(1) r] obtain gs where
    gs: "resp = print_json (JArr (map json_grant gs))" "list_all valid_grant gs" "granted_users gs = M b t" "M b' = M b" by blast
  have "elements sl = gs"
    using Unmarshal_page [of gs json_grant dec_grant empty_grant] gs(1,2) g(1)
    by (auto simp: dec_json_grant valid_json_grant list_all_iff simp del: print_json.simps)
  moreover have "lower_id i" if "i \<in> granted_users gs" for i
    using that gs(2) valid_ToLower by (auto simp: granted_users_def lower_id_def list_all_iff valid_grant_def)
  ultimately show ?thesis using gs(3,4) unfolding g(2) by (auto simp: add_grants)
qed

lemma sf_add_ok:
  assumes "sf_service h (sf_BaseURL cfg) M" and "valid_utf8 t"
  shows "\<forall>i \<in> set us. lower_id i \<Longrightarrow> sf_AddUserToTeam h cfg t us b = (None, b') \<Longrightarrow> M b' = (M b)(t := M b t \<union> set us)"
proof (induction us arbitrary: b)
  case (Cons u us)
  from Cons.prems(2) obtain resp status b1 where
    s: "sf_makeRequest h cfg (''/api/v2/users/'' @ u @ ''/grants'') ''POST'' (Some (role_payload t)) b = ((resp, status, None), b1)"
    and st: "status = 200 \<or> status = 201" and rest: "sf_AddUserToTeam h cfg t us b1 = (None, b')"
    by (auto simp: makeRoleRequest_def Let_def split: prod.splits option.splits if_splits)
  from s obtain r res where r: "rq_method r = ''POST''" "rq_url r = sf_BaseURL cfg @ ''/api/v2/users/'' @ u @ ''/grants''"
    "rq_body r = print_json (role_payload t)" "Do h r b = (Inr res, b1)" "StatusCode res = status"
    by (rule sf_makeRequest_ok) simp_all
  from sf_serviceD(2) [OF assms r(1-4)] r(5) st have "M b1 = (M b)(t := insert (ToLower u) (M b t))" by auto
  with Cons.IH [OF _ rest] Cons.prems(1) show ?case by (simp add: lower_id_def fun_eq_iff)
qed simp

lemma sf_remove_ok:
  assumes "sf_service h (sf_BaseURL cfg) M" and "valid_utf8 t"
  shows "\<forall>i \<in> set us. lower_id i \<Longrightarrow> sf_RemoveUserFromTeam h cfg t us b = (None, b') \<Longrightarrow> M b' = (M b)(t := M b t - set us)"
proof (induction us arbitrary: b)
  case (Cons u us)
  from Cons.prems(2) obtain resp status b1 where
    s: "sf_makeRequest h cfg (''/api/v2/users/'' @ u @ ''/grants:revoke'') ''POST'' (Some (role_payload t)) b = ((resp, status, None), b1)"
    and st: "status = 200 \<or> status = 204" and rest: "sf_RemoveUserFromTeam h cfg t us b1 = (None, b')"
    by (auto simp: makeRoleRequest_def Let_def split: prod.splits option.splits if_splits)
  from s obtain r res where r: "rq_method r = ''POST''" "rq_url r = sf_BaseURL cfg @ ''/api/v2/users/'' @ u @ ''/grants:revoke''"
    "rq_body r = print_json (role_payload t)" "Do h r b = (Inr res, b1)" "StatusCode res = status"
    by (rule sf_makeRequest_ok) simp_all
  from sf_serviceD(3) [OF assms r(1-4)] r(5) st have "M b1 = (M b)(t := M b t - {ToLower u})" by auto
  with Cons.IH [OF _ rest] Cons.prems(1) show ?case by (auto simp: lower_id_def fun_eq_iff)
qed simp

section \<open>Main results\<close>

lemma snowflake_backend:
  assumes "sf_service h (sf_BaseURL cfg) M"
  shows "team_backend lower_id (snowflake_client fuel h cfg) M"
proof (rule team_backendI)
  show "FetchTeamMembersByTeamID (snowflake_client fuel h cfg) t b = (Inr ms, b') \<Longrightarrow>
      wf_gomap ms \<and> fst ` set ms = M b t \<and> M b' = M b \<and> (\<forall>i \<in> fst ` set ms. lower_id i)" for t b ms b'
    unfolding snowflake_client_def client.simps by (rule sf_listing [OF assms])
qed (use sf_add_ok [OF assms] sf_remove_ok [OF assms] in \<open>auto simp: snowflake_client_def lower_id_def\<close>)


text \<open>A service over the demo backend, at the address \<open>s\<close>.\<close>

definition demo_granted :: "demo \<Rightarrow> string \<Rightarrow> string list" where
  "demo_granted b t = filter (\<lambda>m. m \<noteq> [] \<and> valid_utf8 m) (demo_members b t)"

definition demo_grants :: "demo \<Rightarrow> string \<Rightarrow> SnowflakeGrant list" where
  "demo_grants b t = map (\<lambda>m. \<lparr>sg_GrantedTo = ''USER'', sg_GranteeName = m\<rparr>) (demo_granted b t)"

fun payload_role :: "json option \<Rightarrow> string" where
  "payload_role (Some (JObj [p, (k, JObj [(k', JStr t)]), s])) = t"
| "payload_role _ = []"

definition respond :: "nat \<Rightarrow> string \<Rightarrow> http_response result" where
  "respond code body = Inr \<lparr>StatusCode = code, rs_header = [], rs_body = Inr body, rs_close = None\<rparr>"

definition demo_users_op :: "string \<Rightarrow> string \<Rightarrow> demo \<Rightarrow> http_response result \<times> demo" where
  "demo_users_op path t b =
     (let revoke = drop (length path - 14) path = ''/grants:revoke'';
          u = take (length path - (if revoke then 14 else 7)) path
      in if revoke then (respond 204 [], AList.update t (filter (\<lambda>m. ToLower m \<noteq> ToLower u) (demo_members b t)) b)
         else if u \<noteq> [] \<and> valid_utf8 u then (respond 201 [], AList.update t (demo_members b t @ [u]) b)
         else (respond 400 [], b))"

definition snowflake_demo :: "demo http" where
  "snowflake_demo =
     \<lparr>NewRequestErr = \<lambda>m u. None,
      Do = \<lambda>r b.
        (if rq_method r = ''GET'' then
           (respond 200 (print_json (JArr (map json_grant (demo_grants b (take (length (rq_url r) - 25) (drop 15 (rq_url r))))))), b)
         else demo_users_op (drop 15 (rq_url r)) (payload_role (json_parse (rq_body r))) b),
      header_order = rev\<rparr>"

definition demo_lower :: "demo \<Rightarrow> string \<Rightarrow> string set" where
  "demo_lower b t = ToLower ` set (demo_granted b t)"

lemma role_payload_sorted:
  "role_payload t = JObj [(''privileges'', JArr []), (''securable'', JObj [(''name'', JStr t)]), (''securable_type'', JStr ''ROLE'')]"
  by (simp add: role_payload_def json_map_def)

lemma parse_role_payload: "valid_utf8 t \<Longrightarrow> payload_role (json_parse (print_json (role_payload t))) = t"
proof -
  assume t: "valid_utf8 t"
  have "valid_utf8 ''privileges''" "valid_utf8 ''securable''" "valid_utf8 ''name''" "valid_utf8 ''securable_type''" "valid_utf8 ''ROLE''"
    by (rule valid_ascii_list, simp)+
  with t have v: "valid_json (role_payload t)" by (simp add: role_payload_sorted)
  have "json_parse (print_json (role_payload t)) = Some (role_payload t)"
    using json_parse_print [OF valid_no_num [OF v]] coerce_valid_json [OF v] by (simp only:)
  then show ?thesis by (simp only: role_payload_sorted payload_role.simps)
qed

lemma valid_demo_grants: "list_all valid_grant (demo_grants b t)" "granted_users (demo_grants b t) = demo_lower b t"
proof -
  have "valid_utf8 ''USER''" by (rule valid_ascii_list) simp
  then show "list_all valid_grant (demo_grants b t)" by (simp add: demo_grants_def demo_granted_def valid_grant_def list_all_iff)
  show "granted_users (demo_grants b t) = demo_lower b t"
    by (force simp: granted_users_def demo_grants_def demo_lower_def demo_granted_def)
qed

lemma snowflake_demo_service: "sf_service snowflake_demo ''s'' demo_lower"
  unfolding sf_service_def
proof (intro conjI allI impI)
  fix t r b res b' body
  assume "rq_method r = ''GET''" "rq_url r = ''s'' @ ''/api/v2/roles/'' @ t @ ''/grants-of''" "Do snowflake_demo r b = (Inr res, b')"
    "rs_body res = Inr body"
  then have "body = print_json (JArr (map json_grant (demo_grants b t)))" "b' = b"
    by (auto simp: snowflake_demo_def respond_def simp del: print_json.simps)
  then show "\<exists>gs. body = print_json (JArr (map json_grant gs)) \<and> list_all valid_grant gs \<and> granted_users gs = demo_lower b t"
    "demo_lower b' = demo_lower b" using valid_demo_grants by blast+
next
  fix t u r b res b'
  assume "valid_utf8 t" "rq_method r = ''POST''" "rq_url r = ''s'' @ ''/api/v2/users/'' @ u @ ''/grants''" "rq_body r = print_json (role_payload t)"
    and d: "Do snowflake_demo r b = (Inr res, b')" and st: "StatusCode res \<in> {200, 201}"
  then have "demo_users_op (u @ ''/grants'') t b = (Inr res, b')" by (simp add: snowflake_demo_def parse_role_payload)
  moreover have "drop (length (u @ ''/grants'') - 14) (u @ ''/grants'') \<noteq> ''/grants:revoke''"
  proof
    assume a: "drop (length (u @ ''/grants'') - 14) (u @ ''/grants'') = ''/grants:revoke''" (is "drop ?n ?p = _")
    have "last ?p = last (take ?n ?p @ drop ?n ?p)" by (simp only: append_take_drop_id)
    also have "\<dots> = CHR ''e''" unfolding a by simp
    finally show False by simp
  qed
  ultimately have "b' = AList.update t (demo_members b t @ [u]) b" "u \<noteq> []" "valid_utf8 u"
    using st by (auto simp: demo_users_op_def respond_def split: if_splits)
  then show "demo_lower b' = (demo_lower b)(t := insert (ToLower u) (demo_lower b t))"
    by (auto simp: demo_lower_def demo_granted_def demo_members_update fun_eq_iff)
next
  fix t u r b res b'
  assume "valid_utf8 t" "rq_method r = ''POST''" "rq_url r = ''s'' @ ''/api/v2/users/'' @ u @ ''/grants:revoke''"
    "rq_body r = print_json (role_payload t)" and d: "Do snowflake_demo r b = (Inr res, b')"
  then have "demo_users_op (u @ ''/grants:revoke'') t b = (Inr res, b')" by (simp add: snowflake_demo_def parse_role_payload)
  then have "b' = AList.update t (filter (\<lambda>m. ToLower m \<noteq> ToLower u) (demo_members b t)) b"
    by (simp add: demo_users_op_def respond_def)
  then show "demo_lower b' = (demo_lower b)(t := demo_lower b t - {ToLower u})"
    by (auto simp: demo_lower_def demo_granted_def demo_members_update fun_eq_iff)
qed

definition demo_snowflake :: SnowflakeConfig where
  "demo_snowflake = \<lparr>sf_PAT = ''token'', sf_BaseURL = ''s''\<rparr>"


text \<open>
  Every request of the Snowflake client carries the access token, goes to the configured address, and has a
  body only when it is not a GET or DELETE, in whatever order the header map is visited.
\<close>

theorem sf_request_authorized:
  assumes "go_range (header_order h)" and "prepareRequest h cfg endpoint meth body = Inr req" and "meth \<noteq> []"
  shows "header_Get (rq_header req) ''authorization'' = ''Bearer '' @ sf_PAT cfg \<and>
         header_Get (rq_header req) ''content-type'' = ''application/json'' \<and>
         rq_method req = meth \<and> rq_url req = sf_BaseURL cfg @ endpoint \<and>
         (meth = ''GET'' \<or> meth = ''DELETE'' \<or> body = None \<longrightarrow> rq_body req = [])"
proof -
  from assms(2,3) obtain r where r: "rq_header r = []" "req = SetHeaders (header_order h) (sf_headers cfg) r"
    "rq_url req = sf_BaseURL cfg @ endpoint" "rq_method req = meth"
    "rq_body req = (case body of Some j \<Rightarrow> if meth \<noteq> ''GET'' \<and> meth \<noteq> ''DELETE'' then print_json j else [] | None \<Rightarrow> [])"
    by (rule prepareRequest_ok)
  have canon: "CanonicalHeaderKey ''authorization'' = CanonicalHeaderKey ''Authorization''"
    "CanonicalHeaderKey ''content-type'' = CanonicalHeaderKey ''Content-Type''" by code_simp+
  have get: "header_Get (rq_header req) k = gget (sf_headers cfg) k" if "k \<in> fst ` set (sf_headers cfg)" for k
    unfolding r(2) by (rule SetHeaders_Get [OF assms(1) canonical_sf_headers that r(1)])
  from get [of "''Authorization''"] get [of "''Content-Type''"]
  have "header_Get (rq_header req) ''Authorization'' = ''Bearer '' @ sf_PAT cfg"
    "header_Get (rq_header req) ''Content-Type'' = ''application/json''"
    by (simp_all add: sf_headers_def gget_def)
  with canon r(3-5) show ?thesis by (auto simp: header_Get_def split: option.split)
qed

theorem sf_request_authorized_witness:
  "\<exists>req. prepareRequest snowflake_demo demo_snowflake ''/api/v2/users'' ''GET'' None = Inr req \<and>
     header_Get (rq_header req) ''authorization'' = ''Bearer token''"
proof -
  have "go_range (header_order snowflake_demo)" by (simp add: snowflake_demo_def go_range_rev)
  moreover obtain req where "prepareRequest snowflake_demo demo_snowflake ''/api/v2/users'' ''GET'' None = Inr req"
    by (simp add: prepareRequest_def NewRequest_def snowflake_demo_def)
  ultimately show ?thesis using sf_request_authorized [of snowflake_demo demo_snowflake "''/api/v2/users''" "''GET''" None req]
    by (simp add: demo_snowflake_def)
qed

section \<open>Listing all users\<close>

definition json_sf_user :: "SnowflakeUser \<Rightarrow> json" where
  "json_sf_user u = JObj [(''name'', JStr (su_Name u)), (''email'', JStr (su_Email u)), (''displayName'', JStr (su_DisplayName u))]"

definition valid_sf_user :: "SnowflakeUser \<Rightarrow> bool" where
  "valid_sf_user u \<longleftrightarrow> valid_utf8 (su_Name u) \<and> valid_utf8 (su_Email u) \<and> valid_utf8 (su_DisplayName u)"

definition users_page :: "SnowflakeUser list \<Rightarrow> string" where
  "users_page us = print_json (JArr (map json_sf_user us))"

lemma valid_json_sf_user: "valid_sf_user u \<Longrightarrow> valid_json (json_sf_user u)"
proof -
  have "valid_utf8 ''name''" "valid_utf8 ''email''" "valid_utf8 ''displayName''" by (rule valid_ascii_list, simp)+
  then show "valid_sf_user u \<Longrightarrow> valid_json (json_sf_user u)" by (simp add: json_sf_user_def valid_sf_user_def)
qed

lemma dec_json_sf_user: "dec_sf_user (json_sf_user u) old = Some u"
  by (simp add: dec_sf_user_def json_sf_user_def select_field_def)

lemma processUsersPage_page:
  assumes "list_all valid_sf_user us"
  shows "processUsersPage (users_page us) acc = Inr (fold add_sf_user us acc)"
  using Unmarshal_page [of us json_sf_user dec_sf_user empty_sf_user] assms
  by (auto simp: processUsersPage_def users_page_def list_all_iff valid_json_sf_user dec_json_sf_user simp del: print_json.simps)

text \<open>The pages after the first one as a pager whose items are response bodies.\<close>

definition sf_pager :: "'b http \<Rightarrow> SnowflakeConfig \<Rightarrow> (string, 'b) pager" where
  "sf_pager h cfg cursor b =
     apfst (map_sum id (\<lambda>(resp, nextURL). ([resp], nextURL)))
       (fetch_page h cfg (status_error ''unexpected status during pagination: '') (case cursor of None \<Rightarrow> [] | Some u \<Rightarrow> u) b)"

lemma sf_pages_chain:
  assumes "\<forall>resp \<in> P. \<forall>acc. processPage resp acc = Inr (g resp acc)"
  shows "page_chain (sf_pager h cfg) url b resps b' n \<Longrightarrow> set resps \<subseteq> P \<Longrightarrow> n \<le> fuel \<Longrightarrow>
    sf_pages fuel h cfg processPage url acc b = (Inr (fold g resps acc), b')"
proof (induction arbitrary: fuel acc rule: page_chain.induct)
  case (more_pages cursor b its nxt b1 rest b2 n)
  then obtain k where k: "fuel = Suc k" "n \<le> k" by (cases fuel) auto
  from more_pages(2) obtain resp where "its = [resp]" and
    "fetch_page h cfg (status_error ''unexpected status during pagination: '') cursor b = (Inr (resp, nxt), b1)"
    by (cases "fst (fetch_page h cfg (status_error ''unexpected status during pagination: '') cursor b)")
      (auto simp: sf_pager_def prod_eq_iff)
  moreover from this more_pages.prems(1) assms have "processPage resp acc = Inr (g resp acc)" by auto
  ultimately show ?case using k more_pages.IH [of k "g resp acc"] more_pages.prems(1) more_pages.hyps(1)
    by (cases cursor) auto
qed (cases fuel; simp)

lemma fetchAllWithPagination_chain:
  assumes "\<forall>resp \<in> P. \<forall>acc. processPage resp acc = Inr (g resp acc)"
    and "fetch_page h cfg (status_error (''failed to fetch data from '' @ endpoint @ '', status: '')) endpoint b = (Inr (resp, url), b1)"
    and "page_chain (sf_pager h cfg) url b1 resps b2 n" and "n \<le> fuel" and "set (resp # resps) \<subseteq> P"
  shows "fetchAllWithPagination fuel h cfg endpoint processPage acc b = (Inr (fold g (resp # resps) acc), b2)"
  using assms sf_pages_chain [OF assms(1,3) _ assms(4), of "g resp acc"] by (simp add: fetchAllWithPagination_def)

text \<open>The two maps while users are added.\<close>

definition sf_user_maps :: "SnowflakeUser list \<Rightarrow> User gomap \<times> User gomap \<Rightarrow> bool" where
  "sf_user_maps us = (\<lambda>(byID, byEmail). wf_gomap byID \<and> wf_gomap byEmail \<and>
     fst ` set byID = (ToLower \<circ> su_Name) ` set us \<and> fst ` set byEmail = (ToLower \<circ> su_Email) ` {u \<in> set us. su_Email u \<noteq> []} \<and>
     list_all (\<lambda>(i, v). u_ID v = i) byID \<and> list_all (\<lambda>(e, v). u_Email v = e) byEmail)"

lemma sf_user_maps_step:
  assumes "sf_user_maps us m" shows "sf_user_maps (us @ [u]) (add_sf_user u m)"
proof -
  obtain m1 m2 where m: "m = (m1, m2)" by (rule prod.exhaust)
  let ?v = "user_of_sf (su_Name u) u"
  have f: "u_ID ?v = ToLower (su_Name u)" "u_Email ?v = ToLower (su_Email u)" by (simp_all add: user_of_sf_def)
  have 1: "list_all (\<lambda>(i, v). u_ID v = i) (AList.update (ToLower (su_Name u)) ?v m1)"
    "list_all (\<lambda>(e, v). u_Email v = e) (AList.update (ToLower (su_Email u)) ?v m2)"
    using assms f by (auto simp: sf_user_maps_def m intro!: list_all_update)
  have 2: "{w \<in> set (us @ [u]). su_Email w \<noteq> []} = (if su_Email u \<noteq> [] then insert u {w \<in> set us. su_Email w \<noteq> []} else {w \<in> set us. su_Email w \<noteq> []})"
    by auto
  from assms 1 show ?thesis
    unfolding sf_user_maps_def add_sf_user_def prod.case m 2 by (simp add: dom_update)
qed

lemma sf_user_maps_fold: "sf_user_maps us m \<Longrightarrow> sf_user_maps (us @ vs) (fold add_sf_user vs m)"
proof (induction vs arbitrary: us m)
  case (Cons v vs)
  from Cons.IH [OF sf_user_maps_step [OF Cons.prems]] show ?case by simp
qed simp

lemma fold_pages: "fold (\<lambda>us. fold f us) uss acc = fold f (concat uss) acc"
  by (induction uss arbitrary: acc) simp_all

lemma fold_map: "fold f (map g xs) acc = fold (\<lambda>x. f (g x)) xs acc"
  by (induction xs arbitrary: acc) simp_all

text \<open>
  C39: When the service answers with finitely many pages of users, linked by their headers, \<^verbatim>\<open>FetchAllUsers\<close>
  returns after reading each of them: the first map has every user under its name in lower case, the
  second one every user with an address under that address in lower case.
\<close>

theorem sf_fetch_all_users:
  assumes "fetch_page h cfg (status_error (''failed to fetch data from '' @ ''/api/v2/users'' @ '', status: '')) ''/api/v2/users'' b
             = (Inr (users_page us, url), b1)"
    and "page_chain (sf_pager h cfg) url b1 (map users_page uss) b2 n" and "n \<le> fuel"
    and "list_all valid_sf_user (concat (us # uss))"
  shows "\<exists>byID byEmail. sf_FetchAllUsers fuel h cfg b = (Inr (byID, byEmail), b2) \<and>
           fst ` set byID = (ToLower \<circ> su_Name) ` set (concat (us # uss)) \<and>
           fst ` set byEmail = (ToLower \<circ> su_Email) ` {u \<in> set (concat (us # uss)). su_Email u \<noteq> []} \<and>
           (\<forall>(i, u) \<in> set byID. u_ID u = i) \<and> (\<forall>(e, u) \<in> set byEmail. u_Email u = e)"
proof -
  define g where "g resp acc = (case processUsersPage resp acc of Inr m \<Rightarrow> m | Inl e \<Rightarrow> acc)" for resp acc
  have page: "processUsersPage (users_page vs) acc = Inr (fold add_sf_user vs acc)" if "vs \<in> set (us # uss)" for vs acc
    using assms(4) that by (intro processUsersPage_page) (auto simp: list_all_iff)
  then have P: "\<forall>resp \<in> users_page ` set (us # uss). \<forall>acc. processUsersPage resp acc = Inr (g resp acc)" by (auto simp: g_def)
  have "sf_FetchAllUsers fuel h cfg b = (Inr (fold g (users_page us # map users_page uss) ([], [])), b2)"
    unfolding sf_FetchAllUsers_def by (rule fetchAllWithPagination_chain [OF P assms(1-3)]) auto
  moreover have "fold g (map users_page (us # uss)) acc = fold add_sf_user (concat (us # uss)) acc" for acc
    using page unfolding fold_map fold_pages [symmetric] by (intro fold_cong) (auto simp: g_def)
  moreover obtain byID byEmail where m: "fold add_sf_user (concat (us # uss)) ([], []) = (byID, byEmail)" by (rule prod.exhaust)
  moreover have "sf_user_maps [] ([], [])" by (simp add: sf_user_maps_def)
  from sf_user_maps_fold [OF this, of "concat (us # uss)"] have "sf_user_maps (concat (us # uss)) (byID, byEmail)" by (simp only: m append_Nil)
  ultimately show ?thesis by (auto simp: sf_user_maps_def list_all_iff)
qed

text \<open>A service with two pages of users, the first one with a \<^verbatim>\<open>Link\<close> header.\<close>

definition sf_bob :: SnowflakeUser where
  "sf_bob = \<lparr>su_Name = ''BOB'', su_Email = ''Bob@x.org'', su_DisplayName = ''Bob''\<rparr>"

definition sf_eve :: SnowflakeUser where
  "sf_eve = \<lparr>su_Name = ''EVE'', su_Email = [], su_DisplayName = ''Eve''\<rparr>"

definition two_page_service :: "nat http" where
  "two_page_service =
     \<lparr>NewRequestErr = \<lambda>m u. None,
      Do = \<lambda>r n.
        (if rq_url r = ''s/api/v2/users'' then
           (Inr \<lparr>StatusCode = 200, rs_header = [(''Link'', [print_links [(''/api/v2/results/1?page=1'', ''next'')]])],
                 rs_body = Inr (users_page [sf_bob]), rs_close = None\<rparr>, Suc n)
         else (Inr \<lparr>StatusCode = 200, rs_header = [], rs_body = Inr (users_page [sf_eve]), rs_close = None\<rparr>, Suc n)),
      header_order = rev\<rparr>"

lemma two_page_links:
  "next_url [(''Link'', [print_links [(''/api/v2/results/1?page=1'', ''next'')]])] = ''/api/v2/results/1?page=1''" "next_url [] = []"
proof -
  have ck: "CanonicalHeaderKey ''Link'' = ''Link''" by code_simp
  have "list_all good_link [(''/api/v2/results/1?page=1'', ''next'')]" by (simp add: good_link_def)
  from links_parsed [OF this, of "''next''"] show
    "next_url [(''Link'', [print_links [(''/api/v2/results/1?page=1'', ''next'')]])] = ''/api/v2/results/1?page=1''"
    by (simp add: next_url_def header_Get_def ck)
  show "next_url [] = []" by (simp add: next_url_def header_Get_def)
qed

lemma two_page_fetch:
  "fetch_page two_page_service demo_snowflake bad ''/api/v2/users'' n = (Inr (users_page [sf_bob], ''/api/v2/results/1?page=1''), Suc n)"
  "fetch_page two_page_service demo_snowflake bad ''/api/v2/results/1?page=1'' n = (Inr (users_page [sf_eve], []), Suc n)"
  by (simp_all add: fetch_page_def sf_makeRequestWithHeader_def prepareRequest_def NewRequest_def two_page_service_def
      MakeRequestWithHeader_def request_send_def SetHeaders_def demo_snowflake_def two_page_links del: print_links.simps)

theorem sf_fetch_all_users_witness:
  "\<exists>byID byEmail. sf_FetchAllUsers 1 two_page_service demo_snowflake 0 = (Inr (byID, byEmail), 2) \<and>
     fst ` set byID = {''bob'', ''eve''} \<and> fst ` set byEmail = {''bob@x.org''}"
proof -
  have chain: "page_chain (sf_pager two_page_service demo_snowflake) ''/api/v2/results/1?page=1'' 1 (map users_page [[sf_eve]]) 2 1"
    using two_page_fetch(2) [of _ 1] by (intro two_pages) (simp_all add: sf_pager_def)
  have first: "fetch_page two_page_service demo_snowflake (status_error (''failed to fetch data from '' @ ''/api/v2/users'' @ '', status: ''))
      ''/api/v2/users'' 0 = (Inr (users_page [sf_bob], ''/api/v2/results/1?page=1''), 1)" using two_page_fetch(1) [of _ 0] by simp
  have "list_all valid_sf_user (concat [[sf_bob], [sf_eve]])" by (simp add: valid_sf_user_def sf_bob_def sf_eve_def valid_ascii_list)
  from sf_fetch_all_users [OF first chain order_refl this] obtain byID byEmail where
    run: "sf_FetchAllUsers 1 two_page_service demo_snowflake 0 = (Inr (byID, byEmail), 2)"
    and m: "fst ` set byID = (ToLower \<circ> su_Name) ` set (concat [[sf_bob], [sf_eve]])"
      "fst ` set byEmail = (ToLower \<circ> su_Email) ` {u \<in> set (concat [[sf_bob], [sf_eve]]). su_Email u \<noteq> []}" by (elim exE conjE) (erule (2) that)
  have "ToLower ''BOB'' = ''bob''" "ToLower ''EVE'' = ''eve''" "ToLower ''Bob@x.org'' = ''bob@x.org''" by code_simp+
  moreover have "{u \<in> set (concat [[sf_bob], [sf_eve]]). su_Email u \<noteq> []} = {sf_bob}" by (auto simp: sf_bob_def sf_eve_def)
  ultimately show ?thesis using run m by (simp add: sf_bob_def sf_eve_def)
qed

end
