(* ===== verification/Config.thy ===== *)
theory Config
  imports Requests Ldap
begin

text \<open>
  The configuration (\<^verbatim>\<open>pkg/config\<close>): loading it from files by the configuration library, replacing
  references to environment variables and files in it, and the map of the backends.  A configuration is the
  tree \<open>cval\<close> that reflection sees: structs with their exported flags, maps, slices, pointers, interfaces.
  Reading and decoding a file is a parameter (\<open>viper\<close>), and so are the environment and the file system
  (\<open>os\<close>).  The package variable that holds the loaded configuration is the state of \<open>GetConfig\<close>.
\<close>

section \<open>Values under reflection\<close>

text \<open>\<open>CNil\<close> is a nil pointer, interface, map or slice; \<open>COther\<close> a value of any other kind.\<close>

datatype cval =
    CString string
  | CNil
  | CPtr cval
  | CStruct "(string \<times> bool \<times> cval) list"
  | CMap "(string \<times> cval) list"
  | CIface cval
  | CSlice "cval list"
  | COther goval

record os =
  Getenv :: "string \<Rightarrow> string"
  ReadFile :: "string \<Rightarrow> string result"

definition EnvPrefix :: string where
  "EnvPrefix = ''env|''"

definition FilePrefix :: string where
  "FilePrefix = ''file|''"

definition substituteString :: "os \<Rightarrow> string \<Rightarrow> string result" where
  "substituteString W s =
     (if length EnvPrefix < length s \<and> take (length EnvPrefix) s = EnvPrefix then Inr (Getenv W (drop (length EnvPrefix) s))
      else if length FilePrefix < length s \<and> take (length FilePrefix) s = FilePrefix then
        (case ReadFile W (drop (length FilePrefix) s) of
           Inl err \<Rightarrow> Inl (GoPanic (''ERROR: '' @ Error err))
         | Inr b \<Rightarrow> Inr (TrimSpace b))
      else Inr s)"

text \<open>
  The recursive walk.  \<open>can\<close> is whether the value was reached through exported fields only; writing to a map
  that was not panics.  The order in which the keys of a map are visited only decides which of several
  unreadable files is reported, so the order of the list stands for it.  A string that is held by an
  interface is replaced when the interface is a value of a map, and not when it is an element of a slice.
\<close>

fun subst :: "os \<Rightarrow> bool \<Rightarrow> cval \<Rightarrow> cval result"
  and subst_fields :: "os \<Rightarrow> bool \<Rightarrow> (string \<times> bool \<times> cval) list \<Rightarrow> (string \<times> bool \<times> cval) list result"
  and subst_entries :: "os \<Rightarrow> (string \<times> cval) list \<Rightarrow> (string \<times> cval) list result"
  and subst_elements :: "os \<Rightarrow> bool \<Rightarrow> cval list \<Rightarrow> cval list result"
  and subst_value :: "os \<Rightarrow> cval \<Rightarrow> cval result"
  where
  "subst W can (CPtr v) = map_sum id CPtr (subst W can v)"
| "subst W can (CStruct fs) = map_sum id CStruct (subst_fields W can fs)"
| "subst W can (CMap m) =
     (if m \<noteq> [] \<and> \<not> can then Inl (GoPanic ''reflect: value obtained using unexported field'')
      else map_sum id CMap (subst_entries W m))"
| "subst W can (CSlice vs) = map_sum id CSlice (subst_elements W can vs)"
| "subst W can (CString s) = (if can then map_sum id CString (substituteString W s) else Inr (CString s))"
| "subst W can v = Inr v"
| "subst_fields W can [] = Inr []"
| "subst_fields W can ((n, exported, v) # fs) =
     (case subst W (can \<and> exported) v of
        Inl e \<Rightarrow> Inl e
      | Inr v' \<Rightarrow> map_sum id ((#) (n, exported, v')) (subst_fields W can fs))"
| "subst_entries W [] = Inr []"
| "subst_entries W ((k, v) # m) =
     (case subst_value W v of
        Inl e \<Rightarrow> Inl e
      | Inr v' \<Rightarrow> map_sum id ((#) (k, v')) (subst_entries W m))"
| "subst_elements W can [] = Inr []"
| "subst_elements W can (v # vs) =
     (case subst W can v of
        Inl e \<Rightarrow> Inl e
      | Inr v' \<Rightarrow> map_sum id ((#) v') (subst_elements W can vs))"
| "subst_value W (CIface v) = map_sum id CIface (subst W True v)"
| "subst_value W v = subst W True v"

definition SubstituteConfigValues :: "os \<Rightarrow> cval \<Rightarrow> cval result" where
  "SubstituteConfigValues W v = subst W True v"

section \<open>Loading\<close>

definition DefaultConfigType :: string where
  "DefaultConfigType = ''yaml''"

definition DefaultConfigDir :: string where
  "DefaultConfigDir = ''./appconfig''"

definition DefaultConfigFileName :: string where
  "DefaultConfigFileName = ''default''"

record Options =
  configType :: string
  configPath :: string
  defaultConfigFileName :: string

text \<open>
  The settings made on the configuration library before a file is read, and the library itself: \<open>ReadInConfig\<close> finds
  and parses the file, \<open>Unmarshal_into\<close> decodes it over the values the target has.  \<open>path.Join\<close> and the place
  of the source file are parameters of the default options.
\<close>

record viper_state =
  v_name :: string
  v_type :: string
  v_paths :: "string list"
  v_auto_env :: bool

record 'f viper =
  ReadInConfig :: "viper_state \<Rightarrow> 'f result"
  Unmarshal_into :: "viper_state \<Rightarrow> 'f \<Rightarrow> cval \<Rightarrow> gerror option \<times> cval"

definition NewDefaultOptions :: "os \<Rightarrow> (string \<Rightarrow> string \<Rightarrow> string) \<Rightarrow> string \<Rightarrow> Options" where
  "NewDefaultOptions W join callerDir =
     (let workDir = Getenv W ''WORKDIR'';
          path = (if workDir \<noteq> [] then join workDir DefaultConfigDir else join callerDir (''../../'' @ DefaultConfigDir))
      in \<lparr>configType = DefaultConfigType, configPath = path, defaultConfigFileName = DefaultConfigFileName\<rparr>)"

definition new_viper :: viper_state where
  "new_viper = \<lparr>v_name = [], v_type = [], v_paths = [], v_auto_env = False\<rparr>"

definition loadByConfigName ::
    "'f viper \<Rightarrow> Options \<Rightarrow> string \<Rightarrow> cval \<times> viper_state \<Rightarrow> gerror option \<times> cval \<times> viper_state" where
  "loadByConfigName V opts name = (\<lambda>(config, vs).
     (let vs' = vs\<lparr>v_name := name, v_type := configType opts, v_paths := List.insert (configPath opts) (v_paths vs), v_auto_env := True\<rparr>
      in (case ReadInConfig V vs' of
            Inl err \<Rightarrow> (Some err, config, vs')
          | Inr f \<Rightarrow> (let (err, config') = Unmarshal_into V vs' f config in (err, config', vs')))))"

text \<open>The target is returned as the call leaves it, with an error too.  A panic of the substitution ends the program.\<close>

definition Load :: "'f viper \<Rightarrow> os \<Rightarrow> Options \<Rightarrow> string \<Rightarrow> cval \<Rightarrow> gerror option \<times> cval" where
  "Load V W opts env config =
     (case loadByConfigName V opts (defaultConfigFileName opts) (config, new_viper) of
        (Some err, config1, vs) \<Rightarrow> (Some err, config1)
      | (None, config1, vs) \<Rightarrow>
          (case loadByConfigName V opts env (config1, vs) of
             (Some err, config2, vs') \<Rightarrow> (Some err, config2)
           | (None, config2, vs') \<Rightarrow>
               (case SubstituteConfigValues W config2 of
                  Inl err \<Rightarrow> (Some err, config2)
                | Inr config3 \<Rightarrow> (None, config3))))"

section \<open>The application's configuration\<close>

record BackendConfig =
  bc_Name :: string
  bc_Type :: string
  bc_Enabled :: bool
  bc_Connection :: "goval gomap"

definition GetStringConnection :: "BackendConfig \<Rightarrow> string \<Rightarrow> string \<Rightarrow> string" where
  "GetStringConnection b name defaultValue = (case map_of (bc_Connection b) name of Some (VString v) \<Rightarrow> v | _ \<Rightarrow> defaultValue)"

text \<open>Reading the tree: a field of a struct, a dynamic value, the list of backends.\<close>

fun field_of :: "cval \<Rightarrow> string \<Rightarrow> cval" where
  "field_of (CStruct fs) n = (case map_of fs n of None \<Rightarrow> CNil | Some (e, v) \<Rightarrow> v)"
| "field_of _ n = CNil"

fun string_of_cval :: "cval \<Rightarrow> string" where
  "string_of_cval (CString s) = s"
| "string_of_cval _ = []"

fun goval_of_cval :: "cval \<Rightarrow> goval" where
  "goval_of_cval (CString s) = VString s"
| "goval_of_cval CNil = VNil"
| "goval_of_cval (CPtr v) = VOther ''ptr'' []"
| "goval_of_cval (CStruct fs) = VOther ''struct'' []"
| "goval_of_cval (CMap m) = VMap (map (\<lambda>(k, v). (k, goval_of_cval v)) m)"
| "goval_of_cval (CIface v) = goval_of_cval v"
| "goval_of_cval (CSlice vs) = VSlice (map goval_of_cval vs)"
| "goval_of_cval (COther v) = v"

fun entries_of_cval :: "cval \<Rightarrow> goval gomap" where
  "entries_of_cval (CMap m) = map (\<lambda>(k, v). (k, goval_of_cval v)) m"
| "entries_of_cval _ = []"

definition backend_of_cval :: "cval \<Rightarrow> BackendConfig" where
  "backend_of_cval v =
     \<lparr>bc_Name = string_of_cval (field_of v ''Name''), bc_Type = string_of_cval (field_of v ''Type''),
      bc_Enabled = (field_of v ''Enabled'' = COther (VBool True)), bc_Connection = entries_of_cval (field_of v ''Connection'')\<rparr>"

fun backends_of_cval :: "cval \<Rightarrow> BackendConfig list" where
  "backends_of_cval (CSlice vs) = map backend_of_cval vs"
| "backends_of_cval _ = []"

record AppConfig =
  ac_values :: cval
  ac_Backends :: "BackendConfig list"
  ac_BackendMap :: "BackendConfig gomap gomap"

definition config_of :: "cval \<Rightarrow> BackendConfig gomap gomap \<Rightarrow> AppConfig" where
  "config_of v m = \<lparr>ac_values = v, ac_Backends = backends_of_cval (field_of v ''Backends''), ac_BackendMap = m\<rparr>"

definition add_backend :: "BackendConfig \<Rightarrow> BackendConfig gomap gomap \<Rightarrow> BackendConfig gomap gomap" where
  "add_backend b m =
     AList.update (bc_Type b) (AList.update (bc_Name b) b (case map_of m (bc_Type b) of None \<Rightarrow> [] | Some n \<Rightarrow> n)) m"

record 'f config_env =
  ce_viper :: "'f viper"
  ce_os :: os
  ce_join :: "string \<Rightarrow> string \<Rightarrow> string"
  ce_dir :: string
  ce_zero :: cval

text \<open>The package variable: nil or the configuration.\<close>

type_synonym config_var = "AppConfig option"

definition LoadConfig :: "'f config_env \<Rightarrow> string \<Rightarrow> config_var \<Rightarrow> AppConfig result \<times> config_var" where
  "LoadConfig E env cv =
     (case Load (ce_viper E) (ce_os E) (NewDefaultOptions (ce_os E) (ce_join E) (ce_dir E)) env (ce_zero E) of
        (Some err, v) \<Rightarrow> (Inl err, Some (config_of v []))
      | (None, v) \<Rightarrow>
          (let cfg = config_of v (fold add_backend (backends_of_cval (field_of v ''Backends'')) [])
           in (Inr cfg, Some cfg)))"

definition getOrDefaultEnv :: "os \<Rightarrow> string" where
  "getOrDefaultEnv W = (let env = Getenv W ''APP_ENV'' in if length env = 0 then ''default'' else env)"

text \<open>When loading fails the variable is set to the nil that \<^verbatim>\<open>LoadConfig\<close> returns; a panic leaves it as \<^verbatim>\<open>LoadConfig\<close> set it.\<close>

definition GetConfig :: "'f config_env \<Rightarrow> config_var \<Rightarrow> AppConfig result \<times> config_var" where
  "GetConfig E cv =
     (case cv of
        Some cfg \<Rightarrow> (Inr cfg, cv)
      | None \<Rightarrow>
          (case LoadConfig E (getOrDefaultEnv (ce_os E)) cv of
             (Inl err, cv') \<Rightarrow> (Inl err, if is_panic err then cv' else None)
           | (Inr cfg, cv') \<Rightarrow> (Inr cfg, Some cfg)))"

section \<open>The substitution as a map over strings\<close>

text \<open>The strings the walk replaces, and the tree with another string at each of these places.\<close>

fun reach :: "cval \<Rightarrow> string list" and reach_value :: "cval \<Rightarrow> string list" where
  "reach (CString s) = [s]"
| "reach (CPtr v) = reach v"
| "reach (CStruct fs) = concat (map (\<lambda>(n, e, v). reach v) fs)"
| "reach (CMap m) = concat (map (\<lambda>(k, v). reach_value v) m)"
| "reach (CSlice vs) = concat (map reach vs)"
| "reach v = []"
| "reach_value (CIface v) = reach v"
| "reach_value v = reach v"

fun relabel :: "(string \<Rightarrow> string) \<Rightarrow> cval \<Rightarrow> cval" and relabel_value :: "(string \<Rightarrow> string) \<Rightarrow> cval \<Rightarrow> cval" where
  "relabel f (CString s) = CString (f s)"
| "relabel f (CPtr v) = CPtr (relabel f v)"
| "relabel f (CStruct fs) = CStruct (map (\<lambda>(n, e, v). (n, e, relabel f v)) fs)"
| "relabel f (CMap m) = CMap (map (\<lambda>(k, v). (k, relabel_value f v)) m)"
| "relabel f (CSlice vs) = CSlice (map (relabel f) vs)"
| "relabel f v = v"
| "relabel_value f (CIface v) = CIface (relabel f v)"
| "relabel_value f v = relabel f v"

fun all_exported :: "cval \<Rightarrow> bool" where
  "all_exported (CPtr v) = all_exported v"
| "all_exported (CStruct fs) = (\<forall>(n, e, v) \<in> set fs. e \<and> all_exported v)"
| "all_exported (CMap m) = (\<forall>(k, v) \<in> set m. all_exported v)"
| "all_exported (CSlice vs) = (\<forall>v \<in> set vs. all_exported v)"
| "all_exported (CIface v) = all_exported v"
| "all_exported _ = True"

text \<open>What a string stands for, and whether all files that strings refer to can be read.\<close>

definition value_of :: "os \<Rightarrow> string \<Rightarrow> string" where
  "value_of W s =
     (if prefix ''env|'' s \<and> s \<noteq> ''env|'' then Getenv W (drop 4 s)
      else if prefix ''file|'' s \<and> s \<noteq> ''file|'' then (case ReadFile W (drop 5 s) of Inr b \<Rightarrow> TrimSpace b | Inl e \<Rightarrow> s)
      else s)"

definition readable :: "os \<Rightarrow> string list \<Rightarrow> bool" where
  "readable W ss \<longleftrightarrow> list_all (\<lambda>s. prefix ''file|'' s \<and> s \<noteq> ''file|'' \<longrightarrow> is_ok (ReadFile W (drop 5 s))) ss"

lemma readable_simps [simp]: "readable W []" "readable W (a @ b) \<longleftrightarrow> readable W a \<and> readable W b"
  by (auto simp: readable_def)

text \<open>The test of the code for a non-empty rest after a prefix.\<close>

lemma has_prefix: "length p < length s \<and> take (length p) s = p \<longleftrightarrow> prefix p s \<and> s \<noteq> p"
proof
  assume "length p < length s \<and> take (length p) s = p"
  then show "prefix p s \<and> s \<noteq> p" by (metis less_irrefl take_is_prefix)
next
  assume "prefix p s \<and> s \<noteq> p"
  then show "length p < length s \<and> take (length p) s = p" by (auto simp: prefix_def)
qed

text \<open>The walk succeeds exactly when every reference can be read, with the relabelled tree.\<close>

definition maps_to :: "'a result \<Rightarrow> bool \<Rightarrow> 'a \<Rightarrow> bool" where
  "maps_to r ok v \<longleftrightarrow> (if ok then r = Inr v else \<exists>msg. r = Inl (GoPanic msg))"

lemma substituteString_maps: "maps_to (substituteString W s) (readable W [s]) (value_of W s)"
proof -
  have lengths: "length EnvPrefix = 4" "length FilePrefix = 5" by (simp_all add: EnvPrefix_def FilePrefix_def)
  have "\<not> (prefix ''env|'' s \<and> prefix ''file|'' s)" by (auto simp: prefix_def)
  moreover have "substituteString W s =
      (if prefix ''env|'' s \<and> s \<noteq> ''env|'' then Inr (Getenv W (drop 4 s))
       else if prefix ''file|'' s \<and> s \<noteq> ''file|'' then
         (case ReadFile W (drop 5 s) of Inl err \<Rightarrow> Inl (GoPanic (''ERROR: '' @ Error err)) | Inr b \<Rightarrow> Inr (TrimSpace b))
       else Inr s)"
    using has_prefix [of EnvPrefix s] has_prefix [of FilePrefix s]
    unfolding substituteString_def lengths by (simp only: EnvPrefix_def FilePrefix_def)
  ultimately show ?thesis by (cases "ReadFile W (drop 5 s)") (auto simp: maps_to_def readable_def value_of_def)
qed

lemma maps_to_map: "maps_to r ok v \<Longrightarrow> maps_to (map_sum id f r) ok (f v)"
  by (auto simp: maps_to_def split: if_splits)

lemma maps_to_Cons:
  "maps_to r ok v \<Longrightarrow> (\<And>x. r = Inr x \<Longrightarrow> maps_to q ok' w) \<Longrightarrow>
   maps_to (case r of Inl e \<Rightarrow> Inl e | Inr x \<Rightarrow> map_sum id (f x) q) (ok \<and> ok') (f v w)"
  by (cases r) (auto simp: maps_to_def split: if_splits)

lemma subst_maps:
  "can \<Longrightarrow> all_exported v \<Longrightarrow> maps_to (subst W can v) (readable W (reach v)) (relabel (value_of W) v)"
  "can \<Longrightarrow> all_exported (CStruct fs) \<Longrightarrow>
     maps_to (subst_fields W can fs) (readable W (reach (CStruct fs))) (map (\<lambda>(n, e, v). (n, e, relabel (value_of W) v)) fs)"
  "all_exported (CMap m) \<Longrightarrow>
     maps_to (subst_entries W m) (readable W (reach (CMap m))) (map (\<lambda>(k, v). (k, relabel_value (value_of W) v)) m)"
  "can \<Longrightarrow> all_exported (CSlice vs) \<Longrightarrow>
     maps_to (subst_elements W can vs) (readable W (reach (CSlice vs))) (map (relabel (value_of W)) vs)"
  "all_exported u \<Longrightarrow> maps_to (subst_value W u) (readable W (reach_value u)) (relabel_value (value_of W) u)"
proof (induction W can v and W can fs and W m and W can vs and W u rule: subst_subst_fields_subst_entries_subst_elements_subst_value.induct)
  case (5 W can s)
  then show ?case using substituteString_maps [of W s] by (simp add: maps_to_map)
qed (auto simp: maps_to_map maps_to_def [of "Inr _"] intro!: maps_to_Cons)

section \<open>The map of the backends\<close>

definition lookup_backend :: "BackendConfig gomap gomap \<Rightarrow> string \<Rightarrow> string \<Rightarrow> BackendConfig option" where
  "lookup_backend m ty name = (case map_of m ty of None \<Rightarrow> None | Some n \<Rightarrow> map_of n name)"

lemma lookup_add: "lookup_backend (add_backend b m) ty name =
    (if ty = bc_Type b \<and> name = bc_Name b then Some b else lookup_backend m ty name)"
  by (auto simp: lookup_backend_def add_backend_def gomap_simps split: option.splits)

lemma lookup_fold: "lookup_backend (fold add_backend bs m) ty name =
    (case find (\<lambda>b. bc_Type b = ty \<and> bc_Name b = name) (rev bs) of Some b \<Rightarrow> Some b | None \<Rightarrow> lookup_backend m ty name)"
proof (induction bs rule: rev_induct)
  case (snoc b bs)
  then show ?case by (simp add: lookup_add)
qed simp

section \<open>Main results\<close>

text \<open>
  C35: The substitution of a configuration with exported fields only succeeds exactly when every file it refers to
  can be read, panicking otherwise, and replaces every string of structs, pointers, slices and map values by the
  variable or file it refers to, leaving strings without a reference and the shape as they are.  Strings that
  an interface holds inside a slice are not reached.
\<close>

theorem substitution_is_map:
  assumes "all_exported v"
  shows "if readable W (reach v) then SubstituteConfigValues W v = Inr (relabel (value_of W) v)
         else \<exists>msg. SubstituteConfigValues W v = Inl (GoPanic msg)"
  using subst_maps(1) [OF TrueI assms, of W] by (simp add: SubstituteConfigValues_def maps_to_def)

definition sample_os :: os where
  "sample_os = \<lparr>Getenv = \<lambda>n. if n = ''TOKEN'' then ''secret'' else [], ReadFile = \<lambda>p. if p = ''/key'' then Inr ''k1 '' else Inl (NotFound p)\<rparr>"

definition sample_tree :: cval where
  "sample_tree = CStruct [(''A'', True, CString ''env|TOKEN''),
     (''B'', True, CMap [(''key'', CIface (CString ''file|/key'')), (''list'', CIface (CSlice [CIface (CString ''env|TOKEN'')]))])]"

theorem substitution_is_map_witness:
  "SubstituteConfigValues sample_os sample_tree =
     Inr (CStruct [(''A'', True, CString ''secret''),
       (''B'', True, CMap [(''key'', CIface (CString ''k1'')), (''list'', CIface (CSlice [CIface (CString ''env|TOKEN'')]))])])"
proof -
  have e: "all_exported sample_tree" by (simp add: sample_tree_def)
  have "readable sample_os (reach sample_tree)" by code_simp
  with substitution_is_map [OF e, of sample_os] have "SubstituteConfigValues sample_os sample_tree = Inr (relabel (value_of sample_os) sample_tree)" by simp
  also have "relabel (value_of sample_os) sample_tree = CStruct [(''A'', True, CString ''secret''),
       (''B'', True, CMap [(''key'', CIface (CString ''k1'')), (''list'', CIface (CSlice [CIface (CString ''env|TOKEN'')]))])]" by code_simp
  finally show ?thesis .
qed

text \<open>
  C36: A configuration that was loaded is kept: later calls return it without reading anything.  Its map of
  backends finds, for a type and a name, the last backend of the configuration with both.  A failed
  load through \<^verbatim>\<open>GetConfig\<close> is repeated by the next call, but after a failed \<^verbatim>\<open>LoadConfig\<close> the next \<^verbatim>\<open>GetConfig\<close>
  returns a configuration without backends in its map and no error.
\<close>

theorem config_loaded_once:
  "(fst (GetConfig E None) = Inr cfg \<longrightarrow>
      GetConfig E' (snd (GetConfig E None)) = (Inr cfg, Some cfg) \<and>
      (\<forall>ty name. lookup_backend (ac_BackendMap cfg) ty name = find (\<lambda>b. bc_Type b = ty \<and> bc_Name b = name) (rev (ac_Backends cfg)))) \<and>
   (fst (GetConfig E None) = Inl err \<and> \<not> is_panic err \<longrightarrow> snd (GetConfig E None) = None) \<and>
   (fst (LoadConfig E env cv) = Inl err \<longrightarrow>
      (\<exists>cfg'. fst (GetConfig E' (snd (LoadConfig E env cv))) = Inr cfg' \<and> ac_BackendMap cfg' = []))"
proof -
  have "lookup_backend (ac_BackendMap cfg) ty name = find (\<lambda>b. bc_Type b = ty \<and> bc_Name b = name) (rev (ac_Backends cfg))"
    if "fst (GetConfig E None) = Inr cfg" for ty name
  proof -
    from that have "ac_BackendMap cfg = fold add_backend (ac_Backends cfg) []"
      by (auto simp: GetConfig_def LoadConfig_def config_of_def Let_def split: prod.splits option.splits sum.splits)
    then show ?thesis by (simp add: lookup_fold lookup_backend_def [of "[]"] split: option.split)
  qed
  then show ?thesis
    by (auto simp: GetConfig_def LoadConfig_def config_of_def Let_def split: prod.splits option.splits sum.splits)
qed

definition sample_backend :: "string \<Rightarrow> bool \<Rightarrow> cval" where
  "sample_backend pat on = CStruct [(''Name'', True, CString ''main''), (''Type'', True, CString ''snowflake''),
     (''Enabled'', True, COther (VBool on)), (''Connection'', True, CMap [(''pat'', CIface (CString pat))])]"

definition sample_config_env :: "unit config_env" where
  "sample_config_env =
     \<lparr>ce_viper = \<lparr>ReadInConfig = \<lambda>vs. Inr (),
        Unmarshal_into = \<lambda>vs f v. (None, CStruct [(''Backends'', True, CSlice [sample_backend ''x'' False, sample_backend ''env|TOKEN'' True])])\<rparr>,
      ce_os = sample_os, ce_join = (\<lambda>a b. a @ ''/'' @ b), ce_dir = ''pkg/config'', ce_zero = CStruct []\<rparr>"

lemma sample_config_loads:
  "\<exists>cfg. fst (GetConfig sample_config_env None) = Inr cfg \<and>
     ac_Backends cfg =
       [\<lparr>bc_Name = ''main'', bc_Type = ''snowflake'', bc_Enabled = False, bc_Connection = [(''pat'', VString ''x'')]\<rparr>,
        \<lparr>bc_Name = ''main'', bc_Type = ''snowflake'', bc_Enabled = True, bc_Connection = [(''pat'', VString ''secret'')]\<rparr>]"
proof -
  have v: "substituteString sample_os ''env|TOKEN'' = Inr ''secret''" "substituteString sample_os ''x'' = Inr ''x''"
    "substituteString sample_os ''main'' = Inr ''main''" "substituteString sample_os ''snowflake'' = Inr ''snowflake''" by code_simp+
  show ?thesis
    by (simp add: GetConfig_def LoadConfig_def Load_def loadByConfigName_def sample_config_env_def SubstituteConfigValues_def
        sample_backend_def v config_of_def backend_of_cval_def Let_def)
qed

theorem config_loaded_once_witness:
  "\<exists>cfg. GetConfig sample_config_env (snd (GetConfig sample_config_env None)) = (Inr cfg, Some cfg) \<and>
     map_option bc_Enabled (lookup_backend (ac_BackendMap cfg) ''snowflake'' ''main'') = Some True"
proof -
  from sample_config_loads obtain cfg where c: "fst (GetConfig sample_config_env None) = Inr cfg"
    and bs: "ac_Backends cfg =
       [\<lparr>bc_Name = ''main'', bc_Type = ''snowflake'', bc_Enabled = False, bc_Connection = [(''pat'', VString ''x'')]\<rparr>,
        \<lparr>bc_Name = ''main'', bc_Type = ''snowflake'', bc_Enabled = True, bc_Connection = [(''pat'', VString ''secret'')]\<rparr>]" by blast
  from config_loaded_once [of sample_config_env cfg sample_config_env] c
  have "GetConfig sample_config_env (snd (GetConfig sample_config_env None)) = (Inr cfg, Some cfg)"
    "lookup_backend (ac_BackendMap cfg) ''snowflake'' ''main'' = find (\<lambda>b. bc_Type b = ''snowflake'' \<and> bc_Name b = ''main'') (rev (ac_Backends cfg))"
    by blast+
  with bs show ?thesis by simp
qed

end
