(* ===== verification/Clients.thy ===== *)
theory Clients
  imports Rover Snowflake Config
begin

text \<open>
  The choice of the backend client (\<^verbatim>\<open>New\<close> of \<^verbatim>\<open>pkg/clients/client.go\<close>) from the configured backends, and what
  holds of every client it returns.  The services behind the clients are the record \<open>services\<close>: the Fivetran SDK
  for given credentials and the HTTP service reached by a client with given options.
\<close>

record ('b, 'k, 'p) services =
  sv_fivetran :: "string \<Rightarrow> string \<Rightarrow> 'b ft_api"
  sv_http :: "('k, 'p) hystrix_options \<Rightarrow> 'b http"
  sv_tls :: "('k, 'p) tls_env"
  sv_fuel :: nat
  sv_sched :: sched
  sv_esched :: esched
  sv_conv :: env
  sv_iter :: iter

type_synonym http_config = "ConnectionPoolConfig \<times> HystrixResiliencyConfig"

definition ErrInvalidBackend :: gerror where
  "ErrInvalidBackend = GoErr ''invalid backend''"

text \<open>\<open>getConfig\<close> is the HTTP part of what \<^verbatim>\<open>config.GetConfig()\<close> returns.\<close>

definition New ::
    "('b, 'k, 'p) services \<Rightarrow> http_config result \<Rightarrow> string \<Rightarrow> string \<Rightarrow> BackendConfig gomap gomap \<Rightarrow> 'b client result" where
  "New S getConfig backendName backendType backends =
     (case lookup_backend backends backendType backendName of
        None \<Rightarrow> Inl ErrInvalidBackend
      | Some be \<Rightarrow>
          if \<not> bc_Enabled be then Inl (GoErr ''backend is not enabled'')
          else if ToLower backendType = ''fivetran'' then
            (let apiKey = GetStringConnection be ''apikey'' []; apiSecret = GetStringConnection be ''apisecret'' []
             in if apiKey = [] \<or> apiSecret = [] then Inl (GoErr ''missing required connection parameters for fivetran backend'')
                else Inr (fivetran_client (sv_fuel S) (sv_sched S) (sv_esched S) (sv_fivetran S apiKey apiSecret)))
          else if ToLower backendType = ''rover'' then
            (case getConfig of
               Inl err \<Rightarrow> Inl err
             | Inr (pool, hystrixCfg) \<Rightarrow>
                 (case rover_NewClient (sv_conv S) (sv_iter S) (sv_tls S) (bc_Connection be) pool hystrixCfg of
                    Inl err \<Rightarrow> Inl err
                  | Inr (rC, opts) \<Rightarrow> Inr (rover_client (sv_http S opts) rC)))
          else if ToLower backendType = ''snowflake'' then
            (case getConfig of
               Inl err \<Rightarrow> Inl err
             | Inr (pool, hystrixCfg) \<Rightarrow>
                 (case snowflake_NewClient (sv_tls S) (bc_Connection be) pool hystrixCfg of
                    Inl err \<Rightarrow> Inl err
                  | Inr (cfg, opts) \<Rightarrow> Inr (snowflake_client (sv_fuel S) (sv_http S opts) cfg)))
          else Inl ErrInvalidBackend)"

section \<open>Identifiers handed out by the clients\<close>

definition ft_creates :: "'b ft_api \<Rightarrow> bool" where
  "ft_creates api \<longleftrightarrow>
     (\<forall>e l g b u b'. NewUserInvite api e l g b = (Inr u, b') \<longrightarrow> fu_ID u \<noteq> [] \<and> valid_utf8 (fu_ID u)) \<and>
     (\<forall>n r d b t b'. NewTeamsCreate api n r d b = (Inr t, b') \<longrightarrow> valid_utf8 (t_ID t))"

lemma fivetran_creates:
  assumes "ft_creates api"
  shows "creates_users (fivetran_client fuel sched esched api)" "creates_teams (fivetran_client fuel sched esched api)"
    "creates_ids (\<lambda>_. True) (fivetran_client fuel sched esched api)"
proof -
  have u: "u_ID u' \<noteq> [] \<and> valid_utf8 (u_ID u')" if "ft_CreateUser api u b = (Inr u', b')" for u b u' b'
  proof -
    from that obtain v where "NewUserInvite api (u_Email u) (u_LastName u) (u_FirstName u) b = (Inr v, b')" "u_ID u' = fu_ID v"
      by (auto simp: ft_CreateUser_def userDetailsFromResponse_def result_iff split: prod.splits)
    with assms show ?thesis unfolding ft_creates_def by metis
  qed
  have t: "valid_utf8 (t_ID t')" if "ft_CreateTeam api t b = (Inr t', b')" for t b t' b'
    using assms that unfolding ft_creates_def ft_CreateTeam_def by blast
  show "creates_users (fivetran_client fuel sched esched api)" "creates_teams (fivetran_client fuel sched esched api)"
    "creates_ids (\<lambda>_. True) (fivetran_client fuel sched esched api)"
    using u t by (simp_all add: creates_users_def creates_teams_def creates_ids_def fivetran_client_def)
qed

lemma rover_creates: "creates_users (rover_client h rC)" "creates_teams (rover_client h rC)" "creates_ids valid_utf8 (rover_client h rC)"
proof -
  have u: "CreateUser (rover_client h rC) u b = (Inr u', b') \<Longrightarrow> u_ID u' = u_UserName u" for u b u' b'
    by (auto simp: rover_client_def rv_CreateUser_def)
  have t: "CreateTeam (rover_client h rC) t b = (Inr t', b') \<Longrightarrow> t_ID t' = t_Name t" for t b t' b'
    by (auto simp: rover_client_def rv_CreateTeam_def rover_team_def Let_def split: prod.splits option.splits if_splits)
  show "creates_users (rover_client h rC)" "creates_teams (rover_client h rC)" "creates_ids valid_utf8 (rover_client h rC)"
    using u t by (auto simp: creates_users_def creates_teams_def creates_ids_def good_name_def)
qed

text \<open>A created Snowflake user is sent back as its JSON object, with its name.\<close>

definition sf_creates :: "'b http \<Rightarrow> string \<Rightarrow> bool" where
  "sf_creates h base \<longleftrightarrow>
     (\<forall>r b res b' body. rq_method r = ''POST'' \<longrightarrow> rq_url r = base @ ''/api/v2/users'' \<longrightarrow> Do h r b = (Inr res, b') \<longrightarrow>
        StatusCode res \<in> {200, 201} \<longrightarrow> rs_body res = Inr body \<longrightarrow>
        (\<exists>u. body = print_json (json_sf_user u) \<and> valid_sf_user u \<and> su_Name u \<noteq> []))"

lemma snowflake_create_user:
  assumes "sf_creates h (sf_BaseURL cfg)" and "sf_CreateUser h cfg u b = (Inr u', b')"
  shows "u_ID u' \<noteq> [] \<and> lower_id (u_ID u')"
proof -
  from assms(2) obtain resp status v where
    s: "sf_makeRequest h cfg ''/api/v2/users'' ''POST'' (Some (user_payload u)) b = ((resp, status, None), b')"
    and st: "status = 200 \<or> status = 201" and v: "Unmarshal dec_sf_user resp empty_sf_user = Inr v" "u' = user_of_sf (su_Name v) v"
    by (auto simp: sf_CreateUser_def Let_def split: prod.splits option.splits if_splits sum.splits)
  from s obtain r res where r: "rq_method r = ''POST''" "rq_url r = sf_BaseURL cfg @ ''/api/v2/users''" "Do h r b = (Inr res, b')"
    "StatusCode res = status" "rs_body res = Inr resp" by (rule sf_makeRequest_ok) simp_all
  with assms(1) st obtain w where "resp = print_json (json_sf_user w)" and w: "valid_sf_user w" "su_Name w \<noteq> []"
    unfolding sf_creates_def by blast
  with v(1) have "v = w" by (simp add: Unmarshal_valid valid_json_sf_user dec_json_sf_user)
  with w v(2) show ?thesis by (simp add: user_of_sf_def lower_id_def valid_sf_user_def valid_ToLower)
qed

lemma snowflake_creates:
  assumes "sf_creates h (sf_BaseURL cfg)"
  shows "creates_users (snowflake_client fuel h cfg)" "creates_teams (snowflake_client fuel h cfg)"
    "creates_ids lower_id (snowflake_client fuel h cfg)"
proof -
  have t: "CreateTeam (snowflake_client fuel h cfg) t b = (Inr t', b') \<Longrightarrow> t_ID t' = ToLower (t_Name t)" for t b t' b'
    by (auto simp: snowflake_client_def sf_CreateTeam_def named_team_def Let_def split: prod.splits option.splits if_splits)
  have u: "CreateUser (snowflake_client fuel h cfg) u b = (Inr u', b') \<Longrightarrow> u_ID u' \<noteq> [] \<and> lower_id (u_ID u')" for u b u' b'
    using snowflake_create_user [OF assms] by (simp add: snowflake_client_def)
  show "creates_users (snowflake_client fuel h cfg)" "creates_teams (snowflake_client fuel h cfg)"
    "creates_ids lower_id (snowflake_client fuel h cfg)"
    using t u valid_ToLower by (auto simp: creates_users_def creates_teams_def creates_ids_def lower_id_def)
qed

section \<open>Every client keeps the contract\<close>

definition id_ok :: "string \<Rightarrow> string \<Rightarrow> bool" where
  "id_ok ty = (if ToLower ty = ''fivetran'' then (\<lambda>_. True) else if ToLower ty = ''rover'' then valid_utf8 else lower_id)"

definition service_ok :: "('b, 'k, 'p) services \<Rightarrow> string \<Rightarrow> BackendConfig \<Rightarrow> ('b \<Rightarrow> string \<Rightarrow> string set) \<Rightarrow> bool" where
  "service_ok S ty be M \<longleftrightarrow>
     all_strings (bc_Connection be) \<and> (\<forall>xs. mset (sv_sched S xs) = mset xs) \<and> (\<forall>es. mset (sv_esched S es) = mset es) \<and>
     (if ToLower ty = ''fivetran'' then
        (\<forall>k s. ft_memberships (sv_fuel S) (sv_fivetran S k s) M \<and> ft_creates (sv_fivetran S k s))
      else if ToLower ty = ''rover'' then (\<forall>opts. rover_service (sv_http S opts) (get_string (bc_Connection be) ''url'') M)
      else (\<forall>opts. sf_service (sv_http S opts) (get_string (bc_Connection be) ''base_url'') M \<and>
              sf_creates (sv_http S opts) (get_string (bc_Connection be) ''base_url'')))"

text \<open>What \<open>New\<close> returns is one of the three clients, built from the configuration of an enabled backend.\<close>

lemma New_cases:
  assumes "New S getConfig name ty backends = Inr cl"
  obtains (fivetran) be k s where "lookup_backend backends ty name = Some be" "bc_Enabled be" "ToLower ty = ''fivetran''"
      "cl = fivetran_client (sv_fuel S) (sv_sched S) (sv_esched S) (sv_fivetran S k s)"
  | (rover) be pool hc rC opts where "lookup_backend backends ty name = Some be" "bc_Enabled be" "ToLower ty = ''rover''"
      "rover_NewClient (sv_conv S) (sv_iter S) (sv_tls S) (bc_Connection be) pool hc = Inr (rC, opts)" "cl = rover_client (sv_http S opts) rC"
  | (snowflake) be pool hc cfg opts where "lookup_backend backends ty name = Some be" "bc_Enabled be" "ToLower ty = ''snowflake''"
      "snowflake_NewClient (sv_tls S) (bc_Connection be) pool hc = Inr (cfg, opts)" "cl = snowflake_client (sv_fuel S) (sv_http S opts) cfg"
  using assms by (auto simp: New_def Let_def split: option.splits if_splits sum.splits)

lemma rover_url: "all_strings data \<Longrightarrow> rover_NewClient E it T data pool hc = Inr (rC, opts) \<Longrightarrow> rc_url rC = get_string data ''url''"
  using rover_config_strings [of data E it] by (auto simp: rover_NewClient_def split: sum.splits if_splits)

lemma snowflake_url: "snowflake_NewClient T data pool hc = Inr (cfg, opts) \<Longrightarrow> sf_BaseURL cfg = get_string data ''base_url''"
  by (auto simp: snowflake_NewClient_def Let_def split: sum.splits if_splits)

lemma new_client_contract:
  assumes "New S getConfig name ty backends = Inr cl" and "lookup_backend backends ty name = Some be" and "service_ok S ty be M"
  shows "team_backend (id_ok ty) cl M \<and> creates_users cl \<and> creates_teams cl \<and> creates_ids (id_ok ty) cl"
  using assms(1)
proof (cases rule: New_cases)
  case (fivetran be' k s)
  with assms(3) show ?thesis
    by (auto simp: id_ok_def service_ok_def fivetran_creates intro!: fivetran_backend)
next
  case (rover be' pool hc rC opts)
  with assms(2,3) have "rover_service (sv_http S opts) (rc_url rC) M" by (auto simp: service_ok_def rover_url)
  with rover show ?thesis by (auto simp: id_ok_def rover_creates intro!: rover_backend)
next
  case (snowflake be' pool hc cfg opts)
  with assms(2,3) have "sf_service (sv_http S opts) (sf_BaseURL cfg) M" "sf_creates (sv_http S opts) (sf_BaseURL cfg)"
    by (auto simp: service_ok_def snowflake_url)
  with snowflake show ?thesis by (auto simp: id_ok_def snowflake_creates intro!: snowflake_backend)
qed

section \<open>Main results\<close>


text \<open>A configured Rover backend in front of the demo service.\<close>

definition demo_services :: "(demo, string \<times> string, nat) services" where
  "demo_services = \<lparr>sv_fivetran = (\<lambda>k s. ft_demo), sv_http = (\<lambda>opts. rover_demo), sv_tls = demo_tls, sv_fuel = 1,
     sv_sched = rev, sv_esched = rev, sv_conv = plain_env, sv_iter = rev\<rparr>"

definition rover_backends :: "BackendConfig gomap gomap" where
  "rover_backends = [(''Rover'', [(''main'', \<lparr>bc_Name = ''main'', bc_Type = ''Rover'', bc_Enabled = True, bc_Connection = demo_rover_data\<rparr>)])]"

lemma ToLower_Rover: "ToLower ''Rover'' = ''rover''"
  by code_simp

lemma demo_rover_strings: "all_strings demo_rover_data"
  by (simp add: all_strings_def demo_rover_data_def)

lemma demo_rover_client:
  "\<exists>opts. rover_NewClient plain_env rev demo_tls demo_rover_data demo_pool demo_hystrix = Inr (demo_rover, opts)"
  unfolding rover_NewClient_def rover_config_strings [OF demo_rover_strings]
  by (simp add: InitializeClient_def tls_config_def demo_tls_def demo_rover_def demo_rover_data_def get_string_def)

lemma demo_New: "New demo_services (Inr (demo_pool, demo_hystrix)) ''main'' ''Rover'' rover_backends = Inr (rover_client rover_demo demo_rover)"
  using demo_rover_client
  by (auto simp: New_def rover_backends_def lookup_backend_def ToLower_Rover demo_services_def)

lemma demo_service_ok:
  "service_ok demo_services ''Rover'' \<lparr>bc_Name = ''main'', bc_Type = ''Rover'', bc_Enabled = True, bc_Connection = demo_rover_data\<rparr> demo_valid_members"
  using rover_demo_service by (simp add: service_ok_def demo_services_def ToLower_Rover demo_rover_strings) (simp add: demo_rover_data_def get_string_def)


end
