(* ===== verification/Preload.thy ===== *)
theory Preload
  imports Users Clients
begin

text \<open>
  Filling the cache at start-up (\<^verbatim>\<open>preloadCache\<close> of \<^verbatim>\<open>cmd/main.go\<close>): for every enabled backend the identifiers of
  all its users are stored under their e-mail addresses and those of all its teams under their names,
  next to the identifiers of other backends.
\<close>

section \<open>Definitions\<close>

text \<open>
  The body of the loops over the users and over the teams of a backend: the entry of one key.  A call of \<^verbatim>\<open>Get\<close> on
  no cache at all panics.
\<close>

definition preload_entry :: "'c cache \<Rightarrow> string \<Rightarrow> string \<times> string \<Rightarrow> 'c \<Rightarrow> gerror option \<times> 'c" where
  "preload_entry cops key = (\<lambda>(k, ident) c.
     (let ((v, err), c1) = cGet cops k c;
          read = (case err of
                    None \<Rightarrow>
                      (case v of
                         Other \<Rightarrow> Inl (GoPanic ''interface conversion: interface {} is not string'')
                       | Str s \<Rightarrow> unmarshal_map s)
                  | Some e \<Rightarrow> if is_panic e then Inl e else Inr (Some []))
      in case read of
           Inl e \<Rightarrow> (Some e, c1)
         | Inr m \<Rightarrow>
             (case mput key ident m of
                Inl e \<Rightarrow> (Some e, c1)
              | Inr m' \<Rightarrow> cSet cops k (marshal_map m') NoExpiration c1)))"

fun preload_entries :: "'c cache \<Rightarrow> string \<Rightarrow> (string \<times> string) list \<Rightarrow> 'c \<Rightarrow> gerror option \<times> 'c" where
  "preload_entries cops key [] c = (None, c)"
| "preload_entries cops key (e # es) c =
     (case preload_entry cops key e c of
        (Some err, c') \<Rightarrow> (Some err, c')
      | (None, c') \<Rightarrow> preload_entries cops key es c')"

text \<open>The values of a map in the order of a range statement.\<close>

definition values_in :: "iter \<Rightarrow> 'v gomap \<Rightarrow> 'v list" where
  "values_in it m = List.map_filter (map_of m) (it (map fst m))"

definition user_entry :: "User \<Rightarrow> string \<times> string" where
  "user_entry u = (u_Email u, u_ID u)"

definition team_entry :: "Team \<Rightarrow> string \<times> string" where
  "team_entry t = (t_Name t, t_ID t)"

definition preload_backend :: "'c cache \<Rightarrow> iter \<Rightarrow> string \<Rightarrow> 'b client \<Rightarrow> 'c \<times> 'b \<Rightarrow> gerror option \<times> 'c \<times> 'b" where
  "preload_backend cops it key cl = (\<lambda>(c, b).
     (case FetchAllUsers cl b of
        (Inl err, b1) \<Rightarrow> (Some err, c, b1)
      | (Inr (byID, _), b1) \<Rightarrow>
          (case preload_entries cops key (map user_entry (values_in it byID)) c of
             (Some err, c1) \<Rightarrow> (Some err, c1, b1)
           | (None, c1) \<Rightarrow>
               (case FetchAllTeams cl b1 of
                  (Inl err, b2) \<Rightarrow> (Some err, c1, b2)
                | (Inr teams, b2) \<Rightarrow>
                    (case preload_entries cops key (map team_entry (values_in it teams)) c1 of
                       (Some err, c2) \<Rightarrow> (Some err, c2, b2)
                     | (None, c2) \<Rightarrow> (None, c2, b2))))))"

text \<open>\<open>new\<close> is \<^verbatim>\<open>clients.New\<close> on the map of the backends.\<close>

fun preloadCache ::
    "'c cache \<Rightarrow> iter \<Rightarrow> (string \<Rightarrow> string \<Rightarrow> 'b client result) \<Rightarrow> BackendConfig list \<Rightarrow> 'c \<times> 'b \<Rightarrow> gerror option \<times> 'c \<times> 'b" where
  "preloadCache cops it new [] s = (None, s)"
| "preloadCache cops it new (be # bes) s =
     (if \<not> bc_Enabled be then preloadCache cops it new bes s
      else
        (case new (bc_Name be) (bc_Type be) of
           Inl err \<Rightarrow> (Some err, s)
         | Inr cl \<Rightarrow>
             (case preload_backend cops it (cacheKey (bc_Name be) (bc_Type be)) cl s of
                (Some err, s') \<Rightarrow> (Some err, s')
              | (None, s') \<Rightarrow> preloadCache cops it new bes s')))"

section \<open>On a working cache\<close>

text \<open>Storing identifiers in the cache seen as a two-level map.\<close>

definition put_ids :: "string \<Rightarrow> (string \<times> string) list \<Rightarrow> (string \<Rightarrow> string \<rightharpoonup> string) \<Rightarrow> (string \<Rightarrow> string \<rightharpoonup> string)" where
  "put_ids key es d = fold (\<lambda>(k, i) d. d(k := (d k)(key \<mapsto> i))) es d"

lemma put_ids_simps [simp]:
  "put_ids key [] d = d" "put_ids key ((k, i) # es) d = put_ids key es (d(k := (d k)(key \<mapsto> i)))"
  by (simp_all add: put_ids_def)

lemma put_ids_append: "put_ids key (es @ fs) d = put_ids key fs (put_ids key es d)"
  by (simp add: put_ids_def)

text \<open>The last entry of a key decides; everything else is kept.\<close>

lemma put_ids_at:
  "put_ids key es d k key' = (if key' = key then (case map_of (rev es) k of Some i \<Rightarrow> Some i | None \<Rightarrow> d k key) else d k key')"
proof (induction es rule: rev_induct)
  case (snoc e es)
  then show ?case by (cases e) (auto simp: put_ids_append)
qed simp

context details_store
begin

lemma preload_entry_ok:
  assumes "inv c" and "valid_utf8 key" and "valid_utf8 i"
  shows "\<exists>c'. preload_entry ops key (k, i) c = (None, c') \<and> inv c' \<and> D c' = (D c)(k := (D c k)(key \<mapsto> i))"
proof -
  from assms(1) obtain v err c1 m where r: "cGet ops k c = ((v, err), c1)" "details_answer (v, err) m"
    and m: "wf_gomap m" "valid_map m" "map_of m = D c k" "inv c1" "D c1 = D c" by (rule readE)
  from m have "map_of m = D c1 k" by simp
  from m(4,1,2) this assms(2,3) obtain c' where
    "cSet ops k (marshal_map (AList.update key i m)) NoExpiration c1 = (None, c')" "inv c'" "D c' = (D c1)(k := (D c1 k)(key \<mapsto> i))"
    by (rule write_update)
  with r m(5) show ?thesis by (auto simp: preload_entry_def details_answer_def)
qed

lemma preload_entries_ok:
  assumes "valid_utf8 key"
  shows "inv c \<Longrightarrow> \<forall>e \<in> set es. valid_utf8 (snd e) \<Longrightarrow>
    \<exists>c'. preload_entries ops key es c = (None, c') \<and> inv c' \<and> D c' = put_ids key es (D c)"
proof (induction es arbitrary: c)
  case (Cons e es)
  obtain k i where e: "e = (k, i)" by (rule prod.exhaust)
  with Cons.prems preload_entry_ok [OF _ assms, of c i k] obtain c1 where
    "preload_entry ops key (k, i) c = (None, c1)" "inv c1" "D c1 = (D c)(k := (D c k)(key \<mapsto> i))" by auto
  with Cons.IH [of c1] Cons.prems e show ?case by (auto simp del: fun_upd_apply)
qed simp

lemma preload_backend_ok:
  assumes "valid_utf8 key" and "inv c" and "FetchAllUsers cl b = (Inr (byID, byEmail), b1)" and "FetchAllTeams cl b1 = (Inr teams, b2)"
    and "\<forall>u \<in> set (values_in it byID). valid_utf8 (u_ID u)" and "\<forall>t \<in> set (values_in it teams). valid_utf8 (t_ID t)"
  shows "\<exists>c'. preload_backend ops it key cl (c, b) = (None, c', b2) \<and> inv c' \<and>
           D c' = put_ids key (map user_entry (values_in it byID) @ map team_entry (values_in it teams)) (D c)"
proof -
  have "\<forall>e \<in> set (map user_entry (values_in it byID)). valid_utf8 (snd e)" "\<forall>e \<in> set (map team_entry (values_in it teams)). valid_utf8 (snd e)"
    using assms(5,6) by (auto simp: user_entry_def team_entry_def)
  with preload_entries_ok [OF assms(1,2)] obtain c1 where
    1: "preload_entries ops key (map user_entry (values_in it byID)) c = (None, c1)" "inv c1" "D c1 = put_ids key (map user_entry (values_in it byID)) (D c)" by blast
  from preload_entries_ok [OF assms(1) 1(2)] \<open>\<forall>e \<in> set (map team_entry _). _\<close> obtain c2 where
    2: "preload_entries ops key (map team_entry (values_in it teams)) c1 = (None, c2)" "inv c2"
      "D c2 = put_ids key (map team_entry (values_in it teams)) (D c1)" by blast
  from 1 2 assms(3,4) show ?thesis by (simp add: preload_backend_def put_ids_append)
qed

end

section \<open>Main results\<close>

lemma set_values_in:
  assumes "go_range it" and "wf_gomap m"
  shows "set (values_in it m) = snd ` set m"
proof -
  have "set (values_in it m) = {v. \<exists>k \<in> fst ` set m. map_of m k = Some v}"
    using go_range_set [OF assms] by (force simp: values_in_def List.map_filter_def image_iff)
  also have "\<dots> = snd ` set m"
    using assms(2) by (force simp: wf_gomap_def dest: map_of_SomeD)
  finally show ?thesis .
qed

lemma map_of_entries: "map_of (rev (map f xs)) k = Some i \<Longrightarrow> \<exists>x \<in> set xs. f x = (k, i)"
  by (metis (no_types, lifting) image_iff image_set map_of_SomeD set_rev)

lemma map_of_entries_None: "map_of (rev es) k = None \<longleftrightarrow> k \<notin> fst ` set es"
  by (simp add: map_of_eq_None_iff)

text \<open>
  C29: Preloading one backend into the in-memory cache stores, in whatever order the maps are visited, an identifier for
  every user of the backend under the user's e-mail address and for every team under its name.  A
  team decides over a user with the same key; users with the same address, such as the ones without
  any, share one entry.  Identifiers of other backends and other keys are kept.
\<close>

theorem preload_stores_ids:
  assumes "go_range it" and "valid_utf8 key" and "never_expires c" and "encoded (contents c)"
    and "FetchAllUsers cl b = (Inr (byID, byEmail), b1)" and "FetchAllTeams cl b1 = (Inr teams, b2)"
    and "wf_gomap byID" and "wf_gomap teams" and "\<forall>u \<in> snd ` set byID. valid_utf8 (u_ID u)" and "\<forall>t \<in> snd ` set teams. valid_utf8 (t_ID t)"
  shows "\<exists>c'. preload_backend (inmemory_cache clock) it key cl (c, b) = (None, c', b2) \<and> encoded (contents c') \<and>
     (\<forall>t \<in> snd ` set teams. \<exists>t' \<in> snd ` set teams. t_Name t' = t_Name t \<and> details (contents c') (t_Name t) key = Some (t_ID t')) \<and>
     (\<forall>u \<in> snd ` set byID. u_Email u \<notin> t_Name ` snd ` set teams \<longrightarrow>
        (\<exists>u' \<in> snd ` set byID. u_Email u' = u_Email u \<and> details (contents c') (u_Email u) key = Some (u_ID u'))) \<and>
     (\<forall>k key'. key' \<noteq> key \<or> k \<notin> t_Name ` snd ` set teams \<union> u_Email ` snd ` set byID \<longrightarrow>
        details (contents c') k key' = details (contents c) k key')"
proof -
  let ?us = "map user_entry (values_in it byID)" and ?ts = "map team_entry (values_in it teams)"
  note vals = set_values_in [OF assms(1,7)] set_values_in [OF assms(1,8)]
  have inv: "never_expires c \<and> encoded (contents c)" using assms(3,4) ..
  from mem.det.preload_backend_ok [OF assms(2) inv assms(5,6), of it clock] assms(9,10) vals obtain c' where
    c': "preload_backend (inmemory_cache clock) it key cl (c, b) = (None, c', b2)" "encoded (contents c')"
      "details (contents c') = put_ids key (?us @ ?ts) (details (contents c))" by auto
  have at: "details (contents c') k key' = (if key' = key then
      (case map_of (rev ?ts) k of Some i \<Rightarrow> Some i | None \<Rightarrow> (case map_of (rev ?us) k of Some i \<Rightarrow> Some i | None \<Rightarrow> details (contents c) k key))
      else details (contents c) k key')" for k key'
    unfolding c'(3) put_ids_at by (simp add: map_add_def split: option.split)
  have keys: "fst ` set ?ts = t_Name ` snd ` set teams" "fst ` set ?us = u_Email ` snd ` set byID"
    using vals by (simp_all add: image_image team_entry_def user_entry_def)
  have team: "\<exists>t' \<in> snd ` set teams. t_Name t' = t_Name t \<and> details (contents c') (t_Name t) key = Some (t_ID t')" if "t \<in> snd ` set teams" for t
  proof -
    from that keys(1) obtain i where i: "map_of (rev ?ts) (t_Name t) = Some i"
      by (cases "map_of (rev ?ts) (t_Name t)") (auto simp: map_of_entries_None)
    from map_of_entries [OF i] vals(2) obtain t' where "t' \<in> snd ` set teams" "t_Name t' = t_Name t" "i = t_ID t'" by (auto simp: team_entry_def)
    with i show ?thesis by (auto simp: at)
  qed
  have user: "\<exists>u' \<in> snd ` set byID. u_Email u' = u_Email u \<and> details (contents c') (u_Email u) key = Some (u_ID u')"
    if "u \<in> snd ` set byID" "u_Email u \<notin> t_Name ` snd ` set teams" for u
  proof -
    from that(1) keys(2) obtain i where i: "map_of (rev ?us) (u_Email u) = Some i"
      by (cases "map_of (rev ?us) (u_Email u)") (auto simp: map_of_entries_None)
    from map_of_entries [OF i] vals(1) obtain u' where "u' \<in> snd ` set byID" "u_Email u' = u_Email u" "i = u_ID u'" by (auto simp: user_entry_def)
    moreover from that(2) keys(1) have "map_of (rev ?ts) (u_Email u) = None" by (simp add: map_of_entries_None)
    ultimately show ?thesis using i by (auto simp: at)
  qed
  have other: "details (contents c') k key' = details (contents c) k key'"
    if "key' \<noteq> key \<or> k \<notin> t_Name ` snd ` set teams \<union> u_Email ` snd ` set byID" for k key'
  proof (cases "key' = key")
    case True
    with that keys have "map_of (rev ?ts) k = None" "map_of (rev ?us) k = None" by (simp_all add: map_of_entries_None)
    with True show ?thesis by (simp add: at)
  qed (simp add: at)
  show ?thesis
    by (intro exI [of _ c'] conjI ballI impI allI) (rule c'(1), rule c'(2), erule team, erule (1) user, erule other)
qed

theorem preload_stores_ids_witness:
  "\<exists>c'. preload_backend (inmemory_cache (\<lambda>_. 0)) rev ''fivetran_main'' (fivetran_client 1 rev rev ft_demo) (empty_cache, []) = (None, c', []) \<and>
     details (contents c') ''a'' ''fivetran_main'' = Some ''t1'' \<and> details (contents c') ''a@x'' ''fivetran_main'' = Some ''1''"
proof -
  let ?a = "\<lparr>u_ID = ''1'', u_UserName = [], u_Email = ''a@x'', u_FirstName = ''A'', u_LastName = ''X'', u_DisplayName = ''A X'', u_Role = []\<rparr>"
    and ?b = "\<lparr>u_ID = ''2'', u_UserName = [], u_Email = ''b@x'', u_FirstName = ''B'', u_LastName = ''Y'', u_DisplayName = ''B Y'', u_Role = []\<rparr>"
  let ?cl = "fivetran_client 1 rev rev ft_demo" and ?t = "empty_team\<lparr>t_ID := ''t1'', t_Name := ''a''\<rparr>"
  have us: "FetchAllUsers ?cl [] = (Inr ([(''a@x'', ?a), (''b@x'', ?b)], [(''1'', ?a), (''2'', ?b)]), [])" by code_simp
  have ts: "FetchAllTeams ?cl [] = (Inr [(''a'', ?t)], [])" by code_simp
  have it: "go_range (rev :: iter)" by (simp add: go_range_def)
  have utf8: "valid_utf8 ''fivetran_main''" "valid_utf8 ''1''" "valid_utf8 ''2''" "valid_utf8 ''t1''"
    by (simp_all add: valid_ascii_list)
  from preload_stores_ids [OF it utf8(1) _ _ us ts, of empty_cache "\<lambda>_. 0"] show ?thesis
    using utf8 by (auto simp: wf_gomap_def)
qed

end
