(* ===== verification/Base64.thy ===== *)
theory Base64
  imports GoJson
begin

text \<open>
  The standard base64 encoding (\<^verbatim>\<open>base64.StdEncoding\<close> of the Go library), which the basic
  authentication of the HTTP API reads: groups of four digits stand for three bytes, the last group is
  padded, line breaks are skipped, and unused bits of the last digit are not looked at.
\<close>

section \<open>Definitions\<close>

text \<open>The digits are the capital letters, the small letters, the decimal digits, plus and slash.\<close>

definition b64_digit :: "nat \<Rightarrow> char" where
  "b64_digit n =
     (if n < 26 then chr (n + 65) else if n < 52 then chr (n + 71) else if n < 62 then chr (n - 4)
      else if n = 62 then CHR ''+'' else CHR ''/'')"

definition b64_val :: "char \<Rightarrow> nat option" where
  "b64_val c =
     (let n = ord c
      in if 65 \<le> n \<and> n \<le> 90 then Some (n - 65)
         else if 97 \<le> n \<and> n \<le> 122 then Some (n - 71)
         else if 48 \<le> n \<and> n \<le> 57 then Some (n + 4)
         else if c = CHR ''+'' then Some 62
         else if c = CHR ''/'' then Some 63
         else None)"

definition byte1 :: "nat \<Rightarrow> nat \<Rightarrow> char" where
  "byte1 x y = chr (x * 4 + y div 16)"

definition byte2 :: "nat \<Rightarrow> nat \<Rightarrow> char" where
  "byte2 y z = chr (y mod 16 * 16 + z div 4)"

definition byte3 :: "nat \<Rightarrow> nat \<Rightarrow> char" where
  "byte3 z w = chr (z mod 4 * 64 + w)"

fun b64_groups :: "string \<Rightarrow> string option" where
  "b64_groups [] = Some []"
| "b64_groups (a # b # c # d # rest) =
     (case (b64_val a, b64_val b) of
        (Some x, Some y) \<Rightarrow>
          (case b64_val c of
             None \<Rightarrow> if c = CHR ''='' \<and> d = CHR ''='' \<and> rest = [] then Some [byte1 x y] else None
           | Some z \<Rightarrow>
               (case b64_val d of
                  None \<Rightarrow> if d = CHR ''='' \<and> rest = [] then Some [byte1 x y, byte2 y z] else None
                | Some w \<Rightarrow> map_option (\<lambda>bs. byte1 x y # byte2 y z # byte3 z w # bs) (b64_groups rest)))
      | _ \<Rightarrow> None)"
| "b64_groups _ = None"

definition line_break :: "char \<Rightarrow> bool" where
  "line_break c \<longleftrightarrow> ord c = 10 \<or> ord c = 13"

definition DecodeString :: "string \<Rightarrow> string option" where
  "DecodeString s = b64_groups (filter (\<lambda>c. \<not> line_break c) s)"

fun EncodeToString :: "string \<Rightarrow> string" where
  "EncodeToString [] = []"
| "EncodeToString [a] = [b64_digit (ord a div 4), b64_digit (ord a mod 4 * 16), CHR ''='', CHR ''='']"
| "EncodeToString [a, b] =
     [b64_digit (ord a div 4), b64_digit (ord a mod 4 * 16 + ord b div 16), b64_digit (ord b mod 16 * 4), CHR ''='']"
| "EncodeToString (a # b # c # s) =
     b64_digit (ord a div 4) # b64_digit (ord a mod 4 * 16 + ord b div 16) # b64_digit (ord b mod 16 * 4 + ord c div 64) #
     b64_digit (ord c mod 64) # EncodeToString s"

section \<open>Decoding what was encoded\<close>

lemma ord_chr: "n < 256 \<Longrightarrow> ord (chr n) = n"
  by simp

lemma digit_ord:
  "n < 26 \<Longrightarrow> ord (b64_digit n) = n + 65" "26 \<le> n \<Longrightarrow> n < 52 \<Longrightarrow> ord (b64_digit n) = n + 71"
  "k < 10 \<Longrightarrow> ord (b64_digit (k + 52)) = k + 48" "b64_digit 62 = CHR ''+''" "b64_digit 63 = CHR ''/''"
  by (simp_all add: b64_digit_def)

lemma digit_ranges:
  assumes "n < (64 :: nat)"
  obtains "n < 26" | "26 \<le> n" "n < 52" | k where "n = k + 52" "k < 10" | "n = 62" | "n = 63"
proof -
  consider "n < 26" | "26 \<le> n" "n < 52" | "52 \<le> n" "n < 62" | "n = 62" | "n = 63" using assms by linarith
  then show thesis
  proof cases
    case 3
    then have "n = (n - 52) + 52" "n - 52 < 10" by simp_all
    then show thesis by (rule that(3))
  qed (rule that; assumption)+
qed

lemma digit_val [simp]: "n < 64 \<Longrightarrow> b64_val (b64_digit n) = Some n"
  by (erule digit_ranges) (simp_all add: b64_val_def Let_def digit_ord)

lemma digit_no_break [simp]: "n < 64 \<Longrightarrow> \<not> line_break (b64_digit n)"
  by (erule digit_ranges) (simp_all add: line_break_def digit_ord)

lemma pad_val [simp]: "b64_val (CHR ''='') = None" "\<not> line_break (CHR ''='')"
  by (simp_all add: b64_val_def line_break_def)

lemma ord_bound: "ord c < 256"
  by simp

lemma sixtets [simp]:
  "ord a div 4 < 64" "ord a mod 4 * 16 < 64" "ord a mod 4 * 16 + ord b div 16 < 64" "ord b mod 16 * 4 < 64"
  "ord b mod 16 * 4 + ord c div 64 < 64"
  using ord_bound [of a] ord_bound [of b] ord_bound [of c] by linarith+

lemma high_bits [simp]: "ord c div 16 div 16 = 0" "ord c div 16 mod 16 = ord c div 16" "ord c div 64 div 4 = 0" "ord c div 64 mod 4 = ord c div 64"
proof -
  have "ord c div 16 < 16" "ord c div 64 < 4" using ord_bound [of c] by linarith+
  then show "ord c div 16 div 16 = 0" "ord c div 16 mod 16 = ord c div 16" "ord c div 64 div 4 = 0" "ord c div 64 mod 4 = ord c div 64"
    by simp_all
qed

lemma byte1_read: "byte1 (ord a div 4) (ord a mod 4 * 16 + ord b div 16) = a"
proof -
  have "(ord a mod 4 * 16 + ord b div 16) div 16 = ord a mod 4" by simp
  then show ?thesis by (simp add: byte1_def mult.commute)
qed

lemma byte1_last: "byte1 (ord a div 4) (ord a mod 4 * 16) = a"
  by (simp add: byte1_def mult.commute)

lemma byte2_read: "byte2 (m * 16 + ord b div 16) (ord b mod 16 * 4 + ord c div 64) = b"
proof -
  have "(ord b mod 16 * 4 + ord c div 64) div 4 = ord b mod 16" "(m * 16 + ord b div 16) mod 16 = ord b div 16"
    by simp_all
  then show ?thesis by (simp add: byte2_def mult.commute)
qed

lemma byte2_last: "byte2 (m * 16 + ord b div 16) (ord b mod 16 * 4) = b"
proof -
  have "(m * 16 + ord b div 16) mod 16 = ord b div 16" by simp
  then show ?thesis by (simp add: byte2_def mult.commute)
qed

lemma byte3_read: "byte3 (n * 4 + ord c div 64) (ord c mod 64) = c"
proof -
  have "(n * 4 + ord c div 64) mod 4 = ord c div 64" by simp
  then show ?thesis by (simp add: byte3_def mult.commute)
qed

lemmas bytes_read = byte1_read byte1_last byte2_read byte2_last byte3_read

lemma no_breaks: "list_all (\<lambda>c. \<not> line_break c) (EncodeToString s)"
  by (induction s rule: EncodeToString.induct) simp_all

lemma groups_encoded: "b64_groups (EncodeToString s) = Some s"
  by (induction s rule: EncodeToString.induct) (simp_all add: bytes_read)

lemma decode_encode: "DecodeString (EncodeToString s) = Some s"
proof -
  have "filter (\<lambda>c. \<not> line_break c) (EncodeToString s) = EncodeToString s"
    using no_breaks [of s] by (simp add: filter_id_conv list_all_iff)
  then show ?thesis by (simp add: DecodeString_def groups_encoded)
qed

end
