(* ===== verification/HttpApi.thy ===== *)
theory HttpApi
  imports Base64 JsonStructs Config GroupTypes
begin

text \<open>
  The HTTP API (\<^verbatim>\<open>internal/httpapi\<close>): the CORS and basic authentication middleware, the handlers and the
  routes.  Of the gin framework it uses a context that collects the response, chains of handlers that
  an abort cuts off, the lookup of a route by method and path, and the default answer for unknown
  ones.  Every middleware here calls \<^verbatim>\<open>c.Next()\<close> as its last action, so that it has the effect of returning and
  letting the chain go on.  The request logger and the recovery from panics, which none of the handlers raises, are left out.
\<close>

section \<open>Configuration\<close>

record BasicUser =
  bu_Username :: string
  bu_Password :: string

record AuthConfig =
  au_Enabled :: bool
  au_BasicUsers :: "BasicUser list"

record CORSConfig =
  AllowedOrigins :: "string list"

record APIServerConfig =
  api_Address :: string
  api_Auth :: AuthConfig
  api_CORS :: CORSConfig

section \<open>What is used of gin\<close>

record api_request =
  ar_method :: string
  ar_path :: string
  ar_header :: header

record gin_context =
  gc_request :: api_request
  gc_header :: header
  gc_status :: nat
  gc_body :: string
  gc_written :: bool
  gc_aborted :: bool
  gc_keys :: "string gomap"

type_synonym handler = "gin_context \<Rightarrow> gin_context"

definition new_context :: "api_request \<Rightarrow> gin_context" where
  "new_context req =
     \<lparr>gc_request = req, gc_header = [], gc_status = 200, gc_body = [], gc_written = False, gc_aborted = False, gc_keys = []\<rparr>"

definition gin_Header :: "string \<Rightarrow> string \<Rightarrow> handler" where
  "gin_Header key v c =
     (if v = [] then c\<lparr>gc_header := AList.delete (CanonicalHeaderKey key) (gc_header c)\<rparr>
      else c\<lparr>gc_header := AList.update (CanonicalHeaderKey key) [v] (gc_header c)\<rparr>)"

definition gin_Status :: "nat \<Rightarrow> handler" where
  "gin_Status code c = (if gc_written c then c else c\<lparr>gc_status := code\<rparr>)"

definition AbortWithStatus :: "nat \<Rightarrow> handler" where
  "AbortWithStatus code c = (gin_Status code c)\<lparr>gc_written := True, gc_aborted := True\<rparr>"

definition gin_Set :: "string \<Rightarrow> string \<Rightarrow> handler" where
  "gin_Set key v c = c\<lparr>gc_keys := AList.update key v (gc_keys c)\<rparr>"

definition json_content_type :: string where
  "json_content_type = ''application/json; charset=utf-8''"

definition gin_JSON :: "nat \<Rightarrow> json \<Rightarrow> handler" where
  "gin_JSON code obj c =
     (let c1 = gin_Status code c;
          c2 = (if map_of (gc_header c1) ''Content-Type'' \<in> {None, Some []} then c1\<lparr>gc_header := AList.update ''Content-Type'' [json_content_type] (gc_header c1)\<rparr> else c1)
      in c2\<lparr>gc_body := gc_body c2 @ print_json obj, gc_written := True\<rparr>)"

fun gin_Next :: "handler list \<Rightarrow> handler" where
  "gin_Next [] c = c"
| "gin_Next (h # hs) c = (let c' = h c in if gc_aborted c' then c' else gin_Next hs c')"

definition serveError :: "nat \<Rightarrow> string \<Rightarrow> handler list \<Rightarrow> handler" where
  "serveError code msg hs c =
     (let c' = gin_Next hs (c\<lparr>gc_status := code\<rparr>)
      in if gc_written c' then c'
         else if gc_status c' = code then
           c'\<lparr>gc_header := AList.update ''Content-Type'' [''text/plain''] (gc_header c'), gc_body := gc_body c' @ msg, gc_written := True\<rparr>
         else c'\<lparr>gc_written := True\<rparr>)"

section \<open>Basic authentication\<close>

text \<open>\<^verbatim>\<open>Request.BasicAuth\<close> of the Go library: user name and password, or None where it reports that there are none.\<close>

definition parseBasicAuth :: "string \<Rightarrow> (string \<times> string) option" where
  "parseBasicAuth auth =
     (if length auth < 6 \<or> ToLower (take 6 auth) \<noteq> ''basic '' then None
      else case DecodeString (drop 6 auth) of
             None \<Rightarrow> None
           | Some cs \<Rightarrow>
               if CHR '':'' \<in> set cs
               then Some (takeWhile (\<lambda>c. c \<noteq> CHR '':'') cs, tl (dropWhile (\<lambda>c. c \<noteq> CHR '':'') cs)) else None)"

definition request_BasicAuth :: "api_request \<Rightarrow> (string \<times> string) option" where
  "request_BasicAuth req =
     (let auth = header_Get (ar_header req) ''Authorization'' in if auth = [] then None else parseBasicAuth auth)"

text \<open>The header a client sends (RFC 7617).\<close>

definition basic_credentials :: "string \<Rightarrow> string \<Rightarrow> string" where
  "basic_credentials username password = ''Basic '' @ EncodeToString (username @ '':'' @ password)"

fun find_user :: "string \<Rightarrow> string \<Rightarrow> BasicUser list \<Rightarrow> bool" where
  "find_user username password [] = False"
| "find_user username password (u # us) =
     (if username = bu_Username u \<and> password = bu_Password u then True else find_user username password us)"

definition BasicAuth :: "APIServerConfig \<Rightarrow> handler" where
  "BasicAuth cfg c =
     (if \<not> au_Enabled (api_Auth cfg) then c
      else
        let (username, password, ok) = (case request_BasicAuth (gc_request c) of None \<Rightarrow> ([], [], False) | Some (u, p) \<Rightarrow> (u, p, True))
        in if \<not> ok \<or> username = [] \<or> password = [] then
             AbortWithStatus 401 (gin_Header ''WWW-Authenticate'' (''Basic realm='' @ [chr 34] @ ''Usernaut'' @ [chr 34]) c)
           else
             let authorized = find_user username password (au_BasicUsers (api_Auth cfg))
             in if \<not> authorized then AbortWithStatus 401 c else gin_Set ''clientId'' username c)"

section \<open>CORS\<close>

definition CORS :: "APIServerConfig \<Rightarrow> handler" where
  "CORS cfg c =
     (let origin = header_Get (ar_header (gc_request c)) ''Origin'';
          c1 = (if origin \<in> set (AllowedOrigins (api_CORS cfg)) then gin_Header ''Access-Control-Allow-Origin'' origin c else c)
      in if ar_method (gc_request c1) = ''OPTIONS'' then AbortWithStatus 204 c1 else c1)"

section \<open>Handlers and routes\<close>

definition json_backend :: "Backend \<Rightarrow> json" where
  "json_backend b = JObj [(''name'', JStr (be_Name b)), (''type'', JStr (be_Type b))]"

fun enabled_backends :: "BackendConfig list \<Rightarrow> Backend list \<Rightarrow> Backend list" where
  "enabled_backends [] response = response"
| "enabled_backends (b # bs) response =
     enabled_backends bs (if bc_Enabled b then response @ [\<lparr>be_Name = bc_Name b, be_Type = bc_Type b\<rparr>] else response)"

definition GetBackends :: "BackendConfig list \<Rightarrow> handler" where
  "GetBackends backends c = gin_JSON 200 (JArr (map json_backend (enabled_backends backends []))) c"

definition get_status :: handler where
  "get_status c = gin_JSON 200 (JObj [(''service'', JStr ''usernaut-api''), (''status'', JStr ''running'')]) c"

text \<open>The chain of a route: the middleware of the engine, that of the group, the handler.\<close>

definition setupRoutes :: "APIServerConfig \<Rightarrow> BackendConfig list \<Rightarrow> (string \<times> string \<times> handler list) list" where
  "setupRoutes cfg backends =
     [(''GET'', ''/api/v1/status'', [CORS cfg, get_status]),
      (''GET'', ''/api/v1/backends'', [CORS cfg, BasicAuth cfg, GetBackends backends])]"

text \<open>An answer, or gin's redirect of a path with a superfluous slash to the path of a route.\<close>

datatype answer = Answer nat header string | MovedPermanently string

definition answer_of :: "gin_context \<Rightarrow> answer" where
  "answer_of c = Answer (gc_status c) (gc_header c) (gc_body c)"

text \<open>
  The lookup in gin's tree with the default settings of the engine (redirects for a trailing slash only): all
  routes of the API are fixed paths of the method GET.
\<close>

definition ServeHTTP :: "APIServerConfig \<Rightarrow> BackendConfig list \<Rightarrow> api_request \<Rightarrow> answer" where
  "ServeHTTP cfg backends req =
     (let routes = setupRoutes cfg backends; c = new_context req
      in case find (\<lambda>(meth, p, hs). meth = ar_method req \<and> p = ar_path req) routes of
           Some (meth, p, hs) \<Rightarrow> answer_of (gin_Next hs c)
         | None \<Rightarrow>
             (case find (\<lambda>(meth, p, hs). meth = ar_method req \<and> p @ ''/'' = ar_path req) routes of
                Some (meth, p, hs) \<Rightarrow> MovedPermanently p
              | None \<Rightarrow> answer_of (serveError 404 ''404 page not found'' [CORS cfg] c)))"

section \<open>Lemmas\<close>

lemma find_user_iff: "find_user username password us \<longleftrightarrow> (\<exists>u \<in> set us. bu_Username u = username \<and> bu_Password u = password)"
  by (induction us) auto

lemma enabled_backends_eq:
  "enabled_backends bs acc = acc @ map (\<lambda>b. \<lparr>be_Name = bc_Name b, be_Type = bc_Type b\<rparr>) (filter bc_Enabled bs)"
  by (induction bs arbitrary: acc) auto

lemma listed_backends:
  "map json_backend (enabled_backends bes []) = [JObj [(''name'', JStr (bc_Name b)), (''type'', JStr (bc_Type b))]. b \<leftarrow> bes, bc_Enabled b]"
  unfolding enabled_backends_eq by (induction bes) (auto simp: json_backend_def)

text \<open>The credentials a request needs, as a specification.\<close>

definition authorized :: "AuthConfig \<Rightarrow> api_request \<Rightarrow> bool" where
  "authorized auth req \<longleftrightarrow>
     (case request_BasicAuth req of
        None \<Rightarrow> False
      | Some (u, p) \<Rightarrow> u \<noteq> [] \<and> p \<noteq> [] \<and> list_ex (\<lambda>b. bu_Username b = u \<and> bu_Password b = p) (au_BasicUsers auth))"

definition without_auth :: "APIServerConfig \<Rightarrow> APIServerConfig" where
  "without_auth cfg = cfg\<lparr>api_Auth := (api_Auth cfg)\<lparr>au_Enabled := False\<rparr>\<rparr>"

text \<open>What the middleware leaves of a context.\<close>

lemma CORS_keeps:
  "gc_request (CORS cfg c) = gc_request c" "gc_body (CORS cfg c) = gc_body c"
  "gc_aborted (CORS cfg c) \<longleftrightarrow> ar_method (gc_request c) = ''OPTIONS'' \<or> gc_aborted c"
  "gc_written (CORS cfg c) \<longleftrightarrow> ar_method (gc_request c) = ''OPTIONS'' \<or> gc_written c"
  "gc_status (CORS cfg c) = (if ar_method (gc_request c) = ''OPTIONS'' \<and> \<not> gc_written c then 204 else gc_status c)"
  by (simp_all add: CORS_def gin_Header_def AbortWithStatus_def gin_Status_def Let_def)

lemma CORS_without_auth [simp]: "CORS (without_auth cfg) = CORS cfg"
  by (simp add: CORS_def without_auth_def fun_eq_iff)

lemma BasicAuth_without_auth [simp]: "BasicAuth (without_auth cfg) c = c"
  by (simp add: BasicAuth_def without_auth_def)

lemma BasicAuth_cases:
  assumes "au_Enabled (api_Auth cfg)"
  shows "authorized (api_Auth cfg) (gc_request c) \<Longrightarrow> \<exists>u. BasicAuth cfg c = gin_Set ''clientId'' u c"
    and "\<not> authorized (api_Auth cfg) (gc_request c) \<Longrightarrow> gc_aborted (BasicAuth cfg c)"
    and "\<not> authorized (api_Auth cfg) (gc_request c) \<Longrightarrow> \<not> gc_written c \<Longrightarrow> gc_status (BasicAuth cfg c) = 401"
  using assms
  by (auto simp: BasicAuth_def authorized_def find_user_iff list_ex_iff AbortWithStatus_def gin_Status_def gin_Header_def Let_def
      split: option.splits prod.splits)

lemma answer_gin_JSON_keys: "answer_of (gin_JSON code obj (gin_Set k v c)) = answer_of (gin_JSON code obj c)"
  by (simp add: answer_of_def gin_JSON_def gin_Status_def gin_Set_def Let_def)

lemma new_context_simps [simp]:
  "gc_request (new_context req) = req" "\<not> gc_aborted (new_context req)" "\<not> gc_written (new_context req)" "gc_header (new_context req) = []"
  "gc_body (new_context req) = []"
  by (simp_all add: new_context_def)

text \<open>The routes one by one.\<close>

lemma ServeHTTP_routes:
  "ar_method req = ''GET'' \<Longrightarrow> ar_path req = ''/api/v1/status'' \<Longrightarrow>
     ServeHTTP cfg bes req = answer_of (gin_Next [CORS cfg, get_status] (new_context req))"
  "ar_method req = ''GET'' \<Longrightarrow> ar_path req = ''/api/v1/backends'' \<Longrightarrow>
     ServeHTTP cfg bes req = answer_of (gin_Next [CORS cfg, BasicAuth cfg, GetBackends bes] (new_context req))"
  by (simp_all add: ServeHTTP_def setupRoutes_def Let_def)

lemma ServeHTTP_other:
  assumes "\<not> (ar_method req = ''GET'' \<and> ar_path req = ''/api/v1/backends'')"
  shows "ServeHTTP cfg bes req = ServeHTTP cfg bes' req \<and> ServeHTTP (without_auth cfg) bes req = ServeHTTP cfg bes req"
  using assms by (auto simp: ServeHTTP_def setupRoutes_def Let_def)

lemma BasicAuth_body: "gc_body (BasicAuth cfg c) = gc_body c"
  by (simp add: BasicAuth_def AbortWithStatus_def gin_Status_def gin_Header_def gin_Set_def Let_def split: option.split prod.split)

lemma lower_basic: "ToLower ''Basic '' = ''basic ''"
  by code_simp

lemma credentials_read:
  assumes "CHR '':'' \<notin> set username"
  shows "parseBasicAuth (basic_credentials username password) = Some (username, password)"
proof -
  let ?cs = "username @ '':'' @ password"
  have cut: "takeWhile (\<lambda>c. c \<noteq> CHR '':'') ?cs = username" "dropWhile (\<lambda>c. c \<noteq> CHR '':'') ?cs = CHR '':'' # password"
    using assms by (auto simp: takeWhile_append dropWhile_append)
  have "take 6 (basic_credentials username password) = ''Basic ''" "drop 6 (basic_credentials username password) = EncodeToString ?cs"
    by (simp_all add: basic_credentials_def)
  moreover have "6 \<le> length (basic_credentials username password)" by (simp add: basic_credentials_def)
  ultimately show ?thesis
    unfolding parseBasicAuth_def by (simp only: decode_encode lower_basic cut option.case) simp
qed

section \<open>Main results\<close>

text \<open>
  C31: With authentication switched on, a request with the name and password of a configured user, neither of them
  empty, is answered as with authentication off.  Every other request gets an answer that does not
  depend on the configured backends at all, which for the list of backends is an empty 401.
\<close>

theorem api_access:
  assumes "au_Enabled (api_Auth cfg)"
  shows "ServeHTTP cfg bes req = (if authorized (api_Auth cfg) req then ServeHTTP (without_auth cfg) bes req else ServeHTTP cfg [] req) \<and>
    (\<not> authorized (api_Auth cfg) req \<and> ar_method req = ''GET'' \<and> ar_path req = ''/api/v1/backends'' \<longrightarrow>
       (\<exists>h. ServeHTTP cfg bes req = Answer 401 h []))"
proof (cases "ar_method req = ''GET'' \<and> ar_path req = ''/api/v1/backends''")
  case True
  let ?c = "CORS cfg (new_context req)"
  have c: "gc_request ?c = req" "\<not> gc_aborted ?c" "\<not> gc_written ?c" "gc_body ?c = []" using True by (simp_all add: CORS_keeps)
  note routes = ServeHTTP_routes(2) [OF True [THEN conjunct1] True [THEN conjunct2]]
  show ?thesis
  proof (cases "authorized (api_Auth cfg) req")
    case True
    with BasicAuth_cases(1) [OF assms, of ?c] c obtain u where "BasicAuth cfg ?c = gin_Set ''clientId'' u ?c" by auto
    with True c show ?thesis by (simp add: routes Let_def GetBackends_def answer_gin_JSON_keys) (simp add: gin_Set_def c)
  next
    case False
    with BasicAuth_cases(2,3) [OF assms, of ?c] c have "gc_aborted (BasicAuth cfg ?c)" "gc_status (BasicAuth cfg ?c) = 401" by simp_all
    with False c show ?thesis by (simp add: routes Let_def answer_of_def BasicAuth_body)
  qed
next
  case False
  from ServeHTTP_other [OF this, of cfg] False show ?thesis by auto
qed

text \<open>One configured user, one enabled and one disabled backend.\<close>

definition sample_api :: APIServerConfig where
  "sample_api = \<lparr>api_Address = '':8080'', api_Auth = \<lparr>au_Enabled = True, au_BasicUsers = [\<lparr>bu_Username = ''app1'', bu_Password = ''pw''\<rparr>]\<rparr>,
     api_CORS = \<lparr>AllowedOrigins = [''http://ui'']\<rparr>\<rparr>"

definition sample_api_backends :: "BackendConfig list" where
  "sample_api_backends =
     [\<lparr>bc_Name = ''main'', bc_Type = ''rover'', bc_Enabled = True, bc_Connection = [(''key'', VString ''secret'')]\<rparr>,
      \<lparr>bc_Name = ''old'', bc_Type = ''fivetran'', bc_Enabled = False, bc_Connection = []\<rparr>]"

definition get_backends :: "header \<Rightarrow> api_request" where
  "get_backends h = \<lparr>ar_method = ''GET'', ar_path = ''/api/v1/backends'', ar_header = h\<rparr>"

lemma canonical_authorization: "CanonicalHeaderKey ''Authorization'' = ''Authorization''" "CanonicalHeaderKey ''Origin'' = ''Origin''"
  by code_simp+

lemma sample_credentials: "request_BasicAuth (get_backends [(''Authorization'', [basic_credentials ''app1'' p])]) = Some (''app1'', p)"
proof -
  have "basic_credentials ''app1'' p \<noteq> []" by (simp add: basic_credentials_def)
  then show ?thesis
    by (simp add: request_BasicAuth_def get_backends_def header_Get_def canonical_authorization credentials_read)
qed

theorem api_access_witness:
  "(\<exists>h. ServeHTTP sample_api sample_api_backends (get_backends [(''Authorization'', [basic_credentials ''app1'' ''no''])]) = Answer 401 h []) \<and>
   ServeHTTP sample_api sample_api_backends (get_backends [(''Authorization'', [basic_credentials ''app1'' ''pw''])]) =
   ServeHTTP (without_auth sample_api) sample_api_backends (get_backends [(''Authorization'', [basic_credentials ''app1'' ''pw''])])"
proof -
  have on: "au_Enabled (api_Auth sample_api)" by (simp add: sample_api_def)
  have no: "\<not> authorized (api_Auth sample_api) (get_backends [(''Authorization'', [basic_credentials ''app1'' ''no''])])"
    and yes: "authorized (api_Auth sample_api) (get_backends [(''Authorization'', [basic_credentials ''app1'' ''pw''])])"
    by (simp_all add: authorized_def sample_credentials) (simp_all add: sample_api_def)
  have get: "ar_method (get_backends h) = ''GET''" "ar_path (get_backends h) = ''/api/v1/backends''" for h by (simp_all add: get_backends_def)
  from api_access [OF on, THEN conjunct2, rule_format, OF conjI [OF no conjI [OF get]]] api_access [OF on, THEN conjunct1, of sample_api_backends "get_backends [(''Authorization'', [basic_credentials ''app1'' ''pw''])]"] yes
  show ?thesis by simp
qed

lemma scheme_credentials_read:
  assumes "CHR '':'' \<notin> set username" and "ToLower scheme = ''basic''"
    and "ar_header req = [(''Authorization'', [scheme @ '' '' @ EncodeToString (username @ '':'' @ password)])]"
  shows "request_BasicAuth req = Some (username, password)"
proof -
  let ?auth = "scheme @ '' '' @ EncodeToString (username @ '':'' @ password)"
  have "length (ToLower scheme) = 5" using assms(2) by simp
  then have len: "length scheme = 5" by (simp add: ToLower_def)
  then have "drop 6 ?auth = drop 6 (basic_credentials username password)" "take 6 ?auth = scheme @ '' ''"
    by (simp_all add: basic_credentials_def)
  moreover have "ToLower (scheme @ '' '') = ''basic ''" "ToLower (take 6 (basic_credentials username password)) = ''basic ''"
    using assms(2) lower_basic by (simp_all add: ToLower_def basic_credentials_def lower_char_def)
  moreover have "\<not> length ?auth < 6" "\<not> length (basic_credentials username password) < 6" using len by (simp_all add: basic_credentials_def)
  ultimately have "parseBasicAuth ?auth = parseBasicAuth (basic_credentials username password)"
    unfolding parseBasicAuth_def by (simp only: simp_thms if_False)
  then show ?thesis using credentials_read [OF assms(1), of password]
    by (simp add: request_BasicAuth_def header_Get_def canonical_authorization assms(3))
qed

text \<open>
  C34: A client that sends the name and password of a user in the form of RFC 7617 is let through under exactly that
  name when such a user is configured, and refused otherwise, for every user name without a colon
  and every password; the scheme may be written in any case.
\<close>

theorem basic_auth_round_trip:
  assumes "au_Enabled (api_Auth cfg)" and "CHR '':'' \<notin> set username" and "username \<noteq> []" and "password \<noteq> []" and "ToLower scheme = ''basic''"
    and "ar_header (gc_request c) = [(''Authorization'', [scheme @ '' '' @ EncodeToString (username @ '':'' @ password)])]"
  shows "BasicAuth cfg c =
           (if \<lparr>bu_Username = username, bu_Password = password\<rparr> \<in> set (au_BasicUsers (api_Auth cfg)) then gin_Set ''clientId'' username c
            else AbortWithStatus 401 c)"
proof -
  have "find_user username password us \<longleftrightarrow> \<lparr>bu_Username = username, bu_Password = password\<rparr> \<in> set us" for us
  proof (induction us)
    case (Cons u us)
    then show ?case by (cases u) auto
  qed simp
  with scheme_credentials_read [OF assms(2,5,6)] assms(1,3,4) show ?thesis by (simp add: BasicAuth_def)
qed

theorem basic_auth_round_trip_witness:
  "BasicAuth sample_api (new_context (get_backends [(''Authorization'', [''BASIC'' @ '' '' @ EncodeToString (''app1'' @ '':'' @ ''pw'')])])) =
   gin_Set ''clientId'' ''app1'' (new_context (get_backends [(''Authorization'', [''BASIC'' @ '' '' @ EncodeToString (''app1'' @ '':'' @ ''pw'')])]))"
proof -
  let ?c = "new_context (get_backends [(''Authorization'', [''BASIC'' @ '' '' @ EncodeToString (''app1'' @ '':'' @ ''pw'')])])"
  have scheme: "ToLower ''BASIC'' = ''basic''" by code_simp
  have on: "au_Enabled (api_Auth sample_api)" by (simp add: sample_api_def)
  have h: "ar_header (gc_request ?c) = [(''Authorization'', [''BASIC'' @ '' '' @ EncodeToString (''app1'' @ '':'' @ ''pw'')])]"
    by (simp only: get_backends_def new_context_simps api_request.simps)
  have "\<lparr>bu_Username = ''app1'', bu_Password = ''pw''\<rparr> \<in> set (au_BasicUsers (api_Auth sample_api))" by (simp add: sample_api_def)
  with basic_auth_round_trip [OF on _ _ _ scheme h] show ?thesis by (simp only: if_True list.set) simp
qed

lemma canonical_origin: "CanonicalHeaderKey ''Access-Control-Allow-Origin'' = ''Access-Control-Allow-Origin''"
  "CanonicalHeaderKey ''WWW-Authenticate'' = ''Www-Authenticate''"
  by code_simp+

lemma BasicAuth_allow_origin:
  "map_of (gc_header (BasicAuth cfg c)) ''Access-Control-Allow-Origin'' = map_of (gc_header c) ''Access-Control-Allow-Origin''"
  by (simp add: BasicAuth_def AbortWithStatus_def gin_Status_def gin_Header_def gin_Set_def canonical_origin gomap_simps Let_def
      split: option.split prod.split)

lemma gin_JSON_allow_origin:
  "map_of (gc_header (gin_JSON code obj c)) ''Access-Control-Allow-Origin'' = map_of (gc_header c) ''Access-Control-Allow-Origin''"
  by (simp add: gin_JSON_def gin_Status_def gomap_simps Let_def)

lemma CORS_allow_origin:
  "map_of (gc_header (CORS cfg (new_context req))) ''Access-Control-Allow-Origin'' =
     (let origin = header_Get (ar_header req) ''Origin''
      in if origin \<in> set (AllowedOrigins (api_CORS cfg)) \<and> origin \<noteq> [] then Some [origin] else None)"
  by (simp add: CORS_def AbortWithStatus_def gin_Status_def gin_Header_def canonical_origin gomap_simps Let_def)

lemma ServeHTTP_cases:
  obtains (status) "ServeHTTP cfg bes req = answer_of (gin_Next [CORS cfg, get_status] (new_context req))"
  | (backends) "ServeHTTP cfg bes req = answer_of (gin_Next [CORS cfg, BasicAuth cfg, GetBackends bes] (new_context req))"
  | (moved) p where "ServeHTTP cfg bes req = MovedPermanently p"
  | (unknown) "ServeHTTP cfg bes req = answer_of (serveError 404 ''404 page not found'' [CORS cfg] (new_context req))"
proof (cases "ar_method req = ''GET'' \<and> ar_path req \<in> {''/api/v1/status'', ''/api/v1/backends''}")
  case True
  then show thesis using ServeHTTP_routes that(1,2) by auto
next
  case False
  then have "find (\<lambda>(meth, p, hs). meth = ar_method req \<and> p = ar_path req) (setupRoutes cfg bes) = None" by (auto simp: setupRoutes_def)
  then have "ServeHTTP cfg bes req =
      (case find (\<lambda>(meth, p, hs). meth = ar_method req \<and> p @ ''/'' = ar_path req) (setupRoutes cfg bes) of
         Some (meth, p, hs) \<Rightarrow> MovedPermanently p
       | None \<Rightarrow> answer_of (serveError 404 ''404 page not found'' [CORS cfg] (new_context req)))" (is "_ = (case ?f of Some x \<Rightarrow> _ x | None \<Rightarrow> _)")
    by (simp add: ServeHTTP_def Let_def)
  then show thesis using that(3,4) by (cases ?f) auto
qed

lemma allow_origin_chain:
  "map_of (gc_header (gin_Next [CORS cfg, get_status] c)) ''Access-Control-Allow-Origin'' = map_of (gc_header (CORS cfg c)) ''Access-Control-Allow-Origin''"
  "map_of (gc_header (gin_Next [CORS cfg, BasicAuth cfg, GetBackends bes] c)) ''Access-Control-Allow-Origin'' =
     map_of (gc_header (CORS cfg c)) ''Access-Control-Allow-Origin''"
  by (simp_all add: Let_def get_status_def GetBackends_def gin_JSON_allow_origin BasicAuth_allow_origin del: print_json.simps)

lemma allow_origin_error:
  "map_of (gc_header (serveError code msg [CORS cfg] (new_context req))) ''Access-Control-Allow-Origin'' =
     map_of (gc_header (CORS cfg (new_context req))) ''Access-Control-Allow-Origin''"
  by (simp add: serveError_def CORS_allow_origin gomap_simps Let_def)
    (simp add: CORS_def AbortWithStatus_def gin_Status_def gin_Header_def canonical_origin gomap_simps Let_def)

lemma ServeHTTP_allow_origin:
  assumes "ServeHTTP cfg bes req = Answer st h body"
  shows "map_of h ''Access-Control-Allow-Origin'' = map_of (gc_header (CORS cfg (new_context req))) ''Access-Control-Allow-Origin''"
  by (rule ServeHTTP_cases [of cfg bes req])
    (insert assms, auto simp: answer_of_def allow_origin_chain allow_origin_error simp del: gin_Next.simps)

text \<open>
  Without authentication, or past it, the list of backends is a JSON document with the names and types of exactly the enabled
  backends in the order of the configuration, and nothing of their connection settings.  Whatever the
  request, an answer allows the origin of the request exactly when that origin is configured, and a
  request with the method OPTIONS gets an empty answer with status 204.
\<close>

theorem api_lists_enabled:
  assumes "\<not> au_Enabled (api_Auth cfg)" and "\<forall>b \<in> set bes. valid_utf8 (bc_Name b) \<and> valid_utf8 (bc_Type b)"
  shows "(\<exists>h' body. ServeHTTP cfg bes (get_backends h) = Answer 200 h' body \<and>
            json_parse body = Some (JArr [JObj [(''name'', JStr (bc_Name b)), (''type'', JStr (bc_Type b))]. b \<leftarrow> bes, bc_Enabled b])) \<and>
         (ServeHTTP cfg bes req = Answer st hdr bd \<longrightarrow>
            header_Get hdr ''Access-Control-Allow-Origin'' =
              (let origin = header_Get (ar_header req) ''Origin'' in if origin \<in> set (AllowedOrigins (api_CORS cfg)) then origin else [])) \<and>
         (ar_method req = ''OPTIONS'' \<longrightarrow> (\<exists>hdr. ServeHTTP cfg bes req = Answer 204 hdr []))"
proof (intro conjI impI)
  let ?c = "CORS cfg (new_context (get_backends h))"
  let ?j = "JArr (map json_backend (enabled_backends bes []))"
  have names: "valid_utf8 ''name''" "valid_utf8 ''type''" by (simp_all add: valid_ascii_list)
  have c: "\<not> gc_aborted ?c" "\<not> gc_written ?c" "gc_body ?c = []" by (simp_all add: CORS_keeps get_backends_def)
  have "BasicAuth cfg ?c = ?c" using assms(1) by (simp add: BasicAuth_def)
  with c have "ServeHTTP cfg bes (get_backends h) = answer_of (gin_JSON 200 ?j ?c)"
    by (simp add: ServeHTTP_routes(2) get_backends_def GetBackends_def Let_def)
  then have "\<exists>h'. ServeHTTP cfg bes (get_backends h) = Answer 200 h' (print_json ?j)"
    using c by (simp add: answer_of_def gin_JSON_def gin_Status_def Let_def del: print_json.simps)
  moreover have "valid_json ?j" using assms(2) names by (auto simp: enabled_backends_eq json_backend_def list_all_iff)
  then have "json_parse (print_json ?j) = Some ?j" by (simp only: json_parse_print valid_no_num coerce_valid_json)
  moreover have "?j = JArr [JObj [(''name'', JStr (bc_Name b)), (''type'', JStr (bc_Type b))]. b \<leftarrow> bes, bc_Enabled b]"
    by (simp only: listed_backends)
  ultimately show "\<exists>h' body. ServeHTTP cfg bes (get_backends h) = Answer 200 h' body \<and>
      json_parse body = Some (JArr [JObj [(''name'', JStr (bc_Name b)), (''type'', JStr (bc_Type b))]. b \<leftarrow> bes, bc_Enabled b])" by metis
next
  assume "ServeHTTP cfg bes req = Answer st hdr bd"
  from ServeHTTP_allow_origin [OF this]
  show "header_Get hdr ''Access-Control-Allow-Origin'' =
      (let origin = header_Get (ar_header req) ''Origin'' in if origin \<in> set (AllowedOrigins (api_CORS cfg)) then origin else [])"
    by (simp add: header_Get_def [of hdr] canonical_origin CORS_allow_origin Let_def)
next
  assume "ar_method req = ''OPTIONS''"
  then show "\<exists>hdr. ServeHTTP cfg bes req = Answer 204 hdr []"
    by (simp add: ServeHTTP_def setupRoutes_def serveError_def answer_of_def CORS_keeps Let_def)
qed

theorem api_lists_enabled_witness:
  "\<exists>h body. ServeHTTP (without_auth sample_api) sample_api_backends (get_backends []) = Answer 200 h body \<and>
     json_parse body = Some (JArr [JObj [(''name'', JStr ''main''), (''type'', JStr ''rover'')]])"
proof -
  have off: "\<not> au_Enabled (api_Auth (without_auth sample_api))" by (simp add: without_auth_def)
  have "valid_utf8 ''main''" "valid_utf8 ''rover''" "valid_utf8 ''old''" "valid_utf8 ''fivetran''" by (simp_all add: valid_ascii_list)
  then have valid: "\<forall>b \<in> set sample_api_backends. valid_utf8 (bc_Name b) \<and> valid_utf8 (bc_Type b)" by (simp add: sample_api_backends_def)
  have listed: "[JObj [(''name'', JStr (bc_Name b)), (''type'', JStr (bc_Type b))]. b \<leftarrow> sample_api_backends, bc_Enabled b] =
      [JObj [(''name'', JStr ''main''), (''type'', JStr ''rover'')]]" by (simp add: sample_api_backends_def)
  from api_lists_enabled [OF off valid, THEN conjunct1, of "[]"] show ?thesis unfolding listed .
qed

end
