(* ===== verification/Server.thy ===== *)
theory Server
  imports HttpApi "HOL-Library.Multiset"
begin

text \<open>
  The life of the API server (\<^verbatim>\<open>internal/httpapi/server\<close>): \<^verbatim>\<open>Start\<close> and \<^verbatim>\<open>StopServer\<close> run in goroutines next to the
  end of \<^verbatim>\<open>main\<close>, which runs the controller manager.  Of \<^verbatim>\<open>net/http\<close> they use \<^verbatim>\<open>ListenAndServe\<close>, which accepts
  connections until the server shuts down or the listener fails, and \<^verbatim>\<open>Shutdown\<close>, which marks
  the server, closes the listener and waits for the connections until its context expires.  The interleavings are the runs of a step
  relation; each accepted connection carries one request.
\<close>

section \<open>The server\<close>

record APIServer =
  srv_Mode :: string
  srv_Address :: string
  srv_Handler :: "api_request \<Rightarrow> answer"

definition NewAPIServer :: "bool \<Rightarrow> APIServerConfig \<Rightarrow> BackendConfig list \<Rightarrow> APIServer" where
  "NewAPIServer debug cfg backends =
     \<lparr>srv_Mode = (if debug then ''debug'' else ''release''), srv_Address = api_Address cfg, srv_Handler = ServeHTTP cfg backends\<rparr>"

text \<open>What \<^verbatim>\<open>ListenAndServe\<close> returns; \<open>ErrServerClosed\<close> is compared by identity.\<close>

datatype serve_error = ErrServerClosed | ServeError gerror

definition start_prefix :: string where
  "start_prefix = ''failed to start http API server : ''"

definition start_result :: "serve_error option \<Rightarrow> gerror option" where
  "start_result r =
     (case r of
        None \<Rightarrow> None
      | Some ErrServerClosed \<Rightarrow> None
      | Some (ServeError e) \<Rightarrow> Some (GoErr (start_prefix @ Error e)))"

section \<open>States and steps\<close>

text \<open>
  The goroutine of \<^verbatim>\<open>Start\<close>: before it, after it has started the other one, with a bound but unregistered
  listener, accepting, returned.  The goroutine of \<^verbatim>\<open>StopServer\<close>: not there, before \<^verbatim>\<open>signal.Notify\<close>, waiting for a
  signal, with the server marked, waiting in \<^verbatim>\<open>Shutdown\<close>, returned with the error it logs.  The manager: before its signal handler is
  installed, running, told to stop.
\<close>

datatype start_phase = NotCalled | Entered | Bound | Serving | Returned "gerror option"

datatype stop_phase = NotStarted | Started | Waiting | Marked | Draining | Stopped "gerror option"

datatype manager_phase = NoHandler | Running | Stopping

datatype process = Alive | Exited nat | Killed

text \<open>
  \<open>sv_signals\<close>, \<open>sv_accepted\<close> and \<open>sv_answered\<close> are a history that no step reads: the signals that arrived, the requests
  accepted and those answered.  The channel \<^verbatim>\<open>quit\<close> holds at most one signal.
\<close>

record server_state =
  sv_start :: start_phase
  sv_stop :: stop_phase
  sv_manager :: manager_phase
  sv_process :: process
  sv_quit :: bool
  sv_shutdown :: bool
  sv_listening :: bool
  sv_open :: "api_request multiset"
  sv_signals :: nat
  sv_accepted :: "api_request multiset"
  sv_answered :: "(api_request \<times> answer) multiset"

definition server_init :: server_state where
  "server_init = \<lparr>sv_start = NotCalled, sv_stop = NotStarted, sv_manager = NoHandler, sv_process = Alive, sv_quit = False, sv_shutdown = False,
     sv_listening = False, sv_open = {#}, sv_signals = 0, sv_accepted = {#}, sv_answered = {#}\<rparr>"

text \<open>\<^verbatim>\<open>Start\<close>, with the connections it serves.\<close>

inductive start_step :: "APIServer \<Rightarrow> server_state \<Rightarrow> server_state \<Rightarrow> bool" for srv where
  enter: "sv_start s = NotCalled \<Longrightarrow> start_step srv s (s\<lparr>sv_start := Entered, sv_stop := Started\<rparr>)"
| closed_before: "sv_start s = Entered \<Longrightarrow> sv_shutdown s \<Longrightarrow>
    start_step srv s (s\<lparr>sv_start := Returned (start_result (Some ErrServerClosed))\<rparr>)"
| bind: "sv_start s = Entered \<Longrightarrow> \<not> sv_shutdown s \<Longrightarrow> start_step srv s (s\<lparr>sv_start := Bound\<rparr>)"
| bind_fails: "sv_start s = Entered \<Longrightarrow> start_step srv s (s\<lparr>sv_start := Returned (start_result (Some (ServeError e)))\<rparr>)"
| listen: "sv_start s = Bound \<Longrightarrow> \<not> sv_shutdown s \<Longrightarrow> start_step srv s (s\<lparr>sv_start := Serving, sv_listening := True\<rparr>)"
| closed_meanwhile: "sv_start s = Bound \<Longrightarrow> sv_shutdown s \<Longrightarrow>
    start_step srv s (s\<lparr>sv_start := Returned (start_result (Some ErrServerClosed))\<rparr>)"
| accept: "sv_start s = Serving \<Longrightarrow> sv_listening s \<Longrightarrow>
    start_step srv s (s\<lparr>sv_open := add_mset req (sv_open s), sv_accepted := add_mset req (sv_accepted s)\<rparr>)"
| answer: "sv_open s = add_mset req R \<Longrightarrow>
    start_step srv s (s\<lparr>sv_open := R, sv_answered := add_mset (req, srv_Handler srv req) (sv_answered s)\<rparr>)"
| closed: "sv_start s = Serving \<Longrightarrow> sv_shutdown s \<Longrightarrow>
    start_step srv s (s\<lparr>sv_start := Returned (start_result (Some ErrServerClosed)), sv_listening := False\<rparr>)"
| accept_fails: "sv_start s = Serving \<Longrightarrow> \<not> sv_shutdown s \<Longrightarrow>
    start_step srv s (s\<lparr>sv_start := Returned (start_result (Some (ServeError e))), sv_listening := False\<rparr>)"

text \<open>\<^verbatim>\<open>StopServer\<close>.\<close>

inductive stop_step :: "server_state \<Rightarrow> server_state \<Rightarrow> bool" where
  notify: "sv_stop s = Started \<Longrightarrow> stop_step s (s\<lparr>sv_stop := Waiting\<rparr>)"
| shutdown: "sv_stop s = Waiting \<Longrightarrow> sv_quit s \<Longrightarrow> stop_step s (s\<lparr>sv_stop := Marked, sv_quit := False, sv_shutdown := True\<rparr>)"
| close: "sv_stop s = Marked \<Longrightarrow> stop_step s (s\<lparr>sv_stop := Draining, sv_listening := False\<rparr>)"
| drained: "sv_stop s = Draining \<Longrightarrow> sv_open s = {#} \<Longrightarrow> stop_step s (s\<lparr>sv_stop := Stopped None\<rparr>)"
| expired: "sv_stop s = Draining \<Longrightarrow> stop_step s (s\<lparr>sv_stop := Stopped (Some (GoErr ''context deadline exceeded''))\<rparr>)"

text \<open>
  The rest of the process: \<^verbatim>\<open>main\<close> exits with 1 when \<^verbatim>\<open>Start\<close> or the manager fails, and ends when the manager returns.  A
  signal reaches whoever has asked for it, and kills the process if nobody has; the manager's
  handler cancels the manager at the first signal and exits at the second.
\<close>

definition notified :: "server_state \<Rightarrow> bool" where
  "notified s \<longleftrightarrow> sv_stop s \<noteq> NotStarted \<and> sv_stop s \<noteq> Started"

definition deliver :: "server_state \<Rightarrow> server_state" where
  "deliver s =
     (let s1 = s\<lparr>sv_signals := sv_signals s + 1\<rparr>;
          s2 = (if notified s then s1\<lparr>sv_quit := True\<rparr> else s1)
      in case sv_manager s of
           NoHandler \<Rightarrow> if notified s then s2 else s2\<lparr>sv_process := Killed\<rparr>
         | Running \<Rightarrow> s2\<lparr>sv_manager := Stopping\<rparr>
         | Stopping \<Rightarrow> s2\<lparr>sv_process := Exited 1\<rparr>)"

inductive main_step :: "server_state \<Rightarrow> server_state \<Rightarrow> bool" where
  start_failed: "sv_start s = Returned (Some e) \<Longrightarrow> main_step s (s\<lparr>sv_process := Exited 1\<rparr>)"
| run_manager: "sv_manager s = NoHandler \<Longrightarrow> main_step s (s\<lparr>sv_manager := Running\<rparr>)"
| manager_failed: "sv_manager s \<noteq> NoHandler \<Longrightarrow> main_step s (s\<lparr>sv_process := Exited 1\<rparr>)"
| manager_returned: "sv_manager s = Stopping \<Longrightarrow> main_step s (s\<lparr>sv_process := Exited 0\<rparr>)"
| signal: "main_step s (deliver s)"

inductive server_step :: "APIServer \<Rightarrow> server_state \<Rightarrow> server_state \<Rightarrow> bool" for srv where
  in_start: "sv_process s = Alive \<Longrightarrow> start_step srv s s' \<Longrightarrow> server_step srv s s'"
| in_stop: "sv_process s = Alive \<Longrightarrow> stop_step s s' \<Longrightarrow> server_step srv s s'"
| in_main: "sv_process s = Alive \<Longrightarrow> main_step s s' \<Longrightarrow> server_step srv s s'"

inductive_cases start_stepE: "start_step srv s s'"
inductive_cases stop_stepE: "stop_step s s'"
inductive_cases main_stepE: "main_step s s'"
inductive_cases server_stepE: "server_step srv s s'"

inductive server_reach :: "APIServer \<Rightarrow> server_state \<Rightarrow> bool" for srv where
  init: "server_reach srv server_init"
| step: "server_reach srv s \<Longrightarrow> server_step srv s s' \<Longrightarrow> server_reach srv s'"

section \<open>Invariants\<close>

text \<open>The server is shut down only because of a signal, and accepts nothing once its listener is closed.\<close>

definition shutdown_inv :: "server_state \<Rightarrow> bool" where
  "shutdown_inv s \<longleftrightarrow>
     (sv_start s = NotCalled \<longleftrightarrow> sv_stop s = NotStarted) \<and>
     (sv_quit s \<longrightarrow> 0 < sv_signals s) \<and> (sv_shutdown s \<longrightarrow> 0 < sv_signals s) \<and>
     (sv_shutdown s \<longleftrightarrow> sv_stop s = Marked \<or> sv_stop s = Draining \<or> (\<exists>r. sv_stop s = Stopped r)) \<and>
     (sv_listening s \<longrightarrow> sv_start s = Serving \<and> \<not> (sv_stop s = Draining \<or> (\<exists>r. sv_stop s = Stopped r))) \<and>
     (sv_start s = Returned None \<longrightarrow> sv_shutdown s) \<and>
     (\<forall>e. sv_start s = Returned (Some e) \<longrightarrow> (\<exists>e'. e = GoErr (start_prefix @ Error e'))) \<and>
     (sv_stop s = Stopped None \<longrightarrow> sv_open s = {#})"

definition requests_inv :: "APIServer \<Rightarrow> server_state \<Rightarrow> bool" where
  "requests_inv srv s \<longleftrightarrow>
     sv_accepted s = sv_open s + image_mset fst (sv_answered s) \<and> (\<forall>(req, a) \<in># sv_answered s. a = srv_Handler srv req)"

definition exit_inv :: "server_state \<Rightarrow> bool" where
  "exit_inv s \<longleftrightarrow> (sv_manager s = Stopping \<longrightarrow> 0 < sv_signals s) \<and> (sv_process s = Exited 0 \<longrightarrow> 0 < sv_signals s)"

lemma start_result_simps [simp]:
  "start_result None = None" "start_result (Some ErrServerClosed) = None"
  "start_result (Some (ServeError e)) = Some (GoErr (start_prefix @ Error e))"
  by (simp_all add: start_result_def)

lemma shutdown_init: "shutdown_inv server_init"
  by (simp add: shutdown_inv_def server_init_def)

lemma deliver_keeps [simp]:
  "sv_start (deliver s) = sv_start s" "sv_stop (deliver s) = sv_stop s" "sv_shutdown (deliver s) = sv_shutdown s"
  "sv_listening (deliver s) = sv_listening s" "sv_open (deliver s) = sv_open s" "sv_accepted (deliver s) = sv_accepted s"
  "sv_answered (deliver s) = sv_answered s" "sv_signals (deliver s) = sv_signals s + 1"
  by (simp_all add: deliver_def Let_def split: manager_phase.split)

lemma shutdown_start:
  assumes "shutdown_inv s" and "start_step srv s s'"
  shows "shutdown_inv s'"
  using assms(2,1) by cases (auto simp: shutdown_inv_def)

lemma shutdown_stop:
  assumes "shutdown_inv s" and "stop_step s s'"
  shows "shutdown_inv s'"
  using assms(2,1) by cases (auto simp: shutdown_inv_def)

lemma shutdown_main:
  assumes "shutdown_inv s" and "main_step s s'"
  shows "shutdown_inv s'"
  using assms(2,1) by cases (auto simp: shutdown_inv_def)

lemma requests_keep:
  assumes "requests_inv srv s" and "server_step srv s s'"
  shows "requests_inv srv s'"
  using assms(2,1) by (auto simp: requests_inv_def elim!: server_stepE start_stepE stop_stepE main_stepE)

lemma exit_keeps:
  assumes "exit_inv s" and "server_step srv s s'"
  shows "exit_inv s'"
  using assms(2,1) by (auto simp: exit_inv_def deliver_def Let_def elim!: server_stepE start_stepE stop_stepE main_stepE split: manager_phase.splits)

lemma reach_invs: "server_reach srv s \<Longrightarrow> shutdown_inv s \<and> requests_inv srv s \<and> exit_inv s"
proof (induction rule: server_reach.induct)
  case init
  show ?case using shutdown_init by (simp add: requests_inv_def exit_inv_def server_init_def)
next
  case (step s s')
  from step.hyps(2) step.IH have "shutdown_inv s'" by cases (auto intro: shutdown_start shutdown_stop shutdown_main)
  with step requests_keep exit_keeps show ?case by blast
qed

lemma closed_accepts_nothing:
  assumes "shutdown_inv s" and "sv_stop s = Draining \<or> sv_stop s = Stopped r" and "server_step srv s s'"
  shows "sv_accepted s' = sv_accepted s"
proof -
  from assms(1,2) have "\<not> sv_listening s" by (auto simp: shutdown_inv_def)
  with assms(3) show ?thesis by (auto elim!: server_stepE start_stepE stop_stepE main_stepE)
qed

section \<open>Main results\<close>

text \<open>
  C33: In every interleaving of the API server's goroutines with the rest of the process: \<^verbatim>\<open>Start\<close> returns nil only after a signal has
  shut the server down, and any other return is an error of the listener with its prefix; every
  answer given is the handler's answer to that request; once the listener is closed no request is
  accepted; a shutdown without an error has left no accepted request unanswered; and the
  process ends with status 0 only after a signal.
\<close>

theorem server_lifecycle:
  assumes "server_reach (NewAPIServer debug cfg backends) s"
  shows "(sv_start s = Returned None \<longrightarrow> 0 < sv_signals s \<and> sv_shutdown s) \<and>
     (\<forall>e. sv_start s = Returned (Some e) \<longrightarrow> (\<exists>e'. e = GoErr (''failed to start http API server : '' @ Error e'))) \<and>
     (\<forall>(req, a) \<in># sv_answered s. a = ServeHTTP cfg backends req) \<and>
     (\<forall>r s'. sv_stop s = Draining \<or> sv_stop s = Stopped r \<longrightarrow> server_step (NewAPIServer debug cfg backends) s s' \<longrightarrow> sv_accepted s' = sv_accepted s) \<and>
     (sv_stop s = Stopped None \<longrightarrow> image_mset fst (sv_answered s) = sv_accepted s) \<and>
     (sv_process s = Exited 0 \<longrightarrow> 0 < sv_signals s)"
proof -
  note inv = reach_invs [OF assms]
  from inv have "\<forall>r s'. sv_stop s = Draining \<or> sv_stop s = Stopped r \<longrightarrow> server_step (NewAPIServer debug cfg backends) s s' \<longrightarrow> sv_accepted s' = sv_accepted s"
    by (blast intro: closed_accepts_nothing)
  with inv show ?thesis by (auto simp: shutdown_inv_def requests_inv_def exit_inv_def start_prefix_def NewAPIServer_def)
qed

text \<open>Runs of the server, written as the list of the states passed.\<close>

fun server_run :: "APIServer \<Rightarrow> server_state \<Rightarrow> server_state list \<Rightarrow> bool" where
  "server_run srv s [] = True"
| "server_run srv s (t # ts) = (server_step srv s t \<and> server_run srv t ts)"

lemma server_run_reach: "server_reach srv s \<Longrightarrow> server_run srv s ts \<Longrightarrow> server_reach srv (last (s # ts))"
proof (induction ts arbitrary: s)
  case (Cons t ts)
  from Cons.prems have "server_reach srv t" "server_run srv t ts" by (auto intro: server_reach.step)
  with Cons.IH [of t] show ?case by simp
qed simp

text \<open>
  The second part of the witness is a run in which a request that was accepted is never answered: \<^verbatim>\<open>main\<close> does not wait for \<^verbatim>\<open>StopServer\<close>,
  so that the process ends with the manager, within the five seconds the shutdown grants.  In the
  third a single signal, which arrives before the manager's handler is installed, stops the API server alone.
\<close>

abbreviation serving_state :: "api_request \<Rightarrow> server_state" where
  "serving_state req \<equiv> server_init\<lparr>sv_start := Serving, sv_stop := Waiting, sv_manager := Running, sv_listening := True, sv_open := {#req#}, sv_accepted := {#req#}\<rparr>"

lemma reach_serving: "server_reach srv (serving_state req)"
proof -
  let ?s1 = "server_init\<lparr>sv_start := Entered, sv_stop := Started\<rparr>"
  let ?s2 = "?s1\<lparr>sv_stop := Waiting\<rparr>"
  let ?s3 = "?s2\<lparr>sv_start := Bound\<rparr>"
  let ?s4 = "?s3\<lparr>sv_start := Serving, sv_listening := True\<rparr>"
  let ?s5 = "?s4\<lparr>sv_manager := Running\<rparr>"
  let ?s6 = "?s5\<lparr>sv_open := add_mset req (sv_open ?s5), sv_accepted := add_mset req (sv_accepted ?s5)\<rparr>"
  have "server_step srv server_init ?s1" "server_step srv ?s1 ?s2" "server_step srv ?s2 ?s3" "server_step srv ?s3 ?s4"
    "server_step srv ?s4 ?s5" "server_step srv ?s5 ?s6"
    by (rule in_start in_stop in_main; (rule start_step.intros stop_step.intros main_step.intros)?; simp add: server_init_def)+
  with server_run_reach [OF server_reach.init, of srv "[?s1, ?s2, ?s3, ?s4, ?s5, ?s6]"] show ?thesis by (simp add: server_init_def)
qed

lemma reach_lost:
  "\<exists>s. server_reach srv s \<and> sv_process s = Exited 0 \<and> sv_start s = Returned None \<and> sv_stop s = Draining \<and> sv_open s = {#req#}"
proof -
  let ?s0 = "serving_state req"
  let ?s1 = "?s0\<lparr>sv_signals := 1, sv_quit := True, sv_manager := Stopping\<rparr>"
  let ?s2 = "?s1\<lparr>sv_stop := Marked, sv_quit := False, sv_shutdown := True\<rparr>"
  let ?s3 = "?s2\<lparr>sv_stop := Draining, sv_listening := False\<rparr>"
  let ?s4 = "?s3\<lparr>sv_start := Returned (start_result (Some ErrServerClosed)), sv_listening := False\<rparr>"
  let ?s5 = "?s4\<lparr>sv_process := Exited 0\<rparr>"
  have "main_step ?s0 (deliver ?s0)" by (rule signal)
  then have "server_step srv ?s0 ?s1" by (intro in_main) (simp_all add: server_init_def deliver_def notified_def)
  moreover have "server_step srv ?s1 ?s2" "server_step srv ?s2 ?s3" "server_step srv ?s3 ?s4" "server_step srv ?s4 ?s5"
    by (rule in_start in_stop in_main; (rule start_step.intros stop_step.intros main_step.intros)?; simp add: server_init_def)+
  ultimately show ?thesis using server_run_reach [OF reach_serving, of srv req "[?s1, ?s2, ?s3, ?s4, ?s5]"]
    by (intro exI [of _ ?s5]) (simp add: server_init_def)
qed

lemma reach_signal_taken:
  "\<exists>s. server_reach srv s \<and> sv_process s = Alive \<and> sv_start s = Returned None \<and> sv_stop s = Stopped None \<and> sv_manager s = Running \<and> sv_signals s = 1"
proof -
  let ?s1 = "server_init\<lparr>sv_start := Entered, sv_stop := Started\<rparr>"
  let ?s2 = "?s1\<lparr>sv_stop := Waiting\<rparr>"
  let ?s3 = "?s2\<lparr>sv_signals := 1, sv_quit := True\<rparr>"
  let ?s4 = "?s3\<lparr>sv_stop := Marked, sv_quit := False, sv_shutdown := True\<rparr>"
  let ?s5 = "?s4\<lparr>sv_start := Returned (start_result (Some ErrServerClosed))\<rparr>"
  let ?s6 = "?s5\<lparr>sv_stop := Draining, sv_listening := False\<rparr>"
  let ?s7 = "?s6\<lparr>sv_stop := Stopped None\<rparr>"
  let ?s8 = "?s7\<lparr>sv_manager := Running\<rparr>"
  have "server_step srv server_init ?s1" "server_step srv ?s1 ?s2"
    by (rule in_start in_stop in_main; (rule start_step.intros stop_step.intros main_step.intros)?; simp add: server_init_def)+
  moreover have "main_step ?s2 (deliver ?s2)" by (rule signal)
  then have "server_step srv ?s2 ?s3" by (intro in_main) (simp_all add: server_init_def deliver_def notified_def)
  moreover have "server_step srv ?s3 ?s4" "server_step srv ?s4 ?s5" "server_step srv ?s5 ?s6" "server_step srv ?s6 ?s7" "server_step srv ?s7 ?s8"
    by (rule in_start in_stop in_main; (rule start_step.intros stop_step.intros main_step.intros)?; simp add: server_init_def)+
  ultimately show ?thesis using server_run_reach [OF server_reach.init, of srv "[?s1, ?s2, ?s3, ?s4, ?s5, ?s6, ?s7, ?s8]"]
    by (intro exI [of _ ?s8]) (simp add: server_init_def)
qed

theorem server_lifecycle_witness:
  "(\<exists>s. server_reach (NewAPIServer False sample_api sample_api_backends) s \<and> sv_process s = Exited 0 \<and> 0 < sv_signals s \<and>
      sv_start s = Returned None \<and> sv_stop s = Draining \<and> sv_open s = {#get_backends []#}) \<and>
   (\<exists>s. server_reach (NewAPIServer False sample_api sample_api_backends) s \<and> sv_process s = Alive \<and> sv_shutdown s \<and> sv_signals s = 1 \<and>
      sv_stop s = Stopped None \<and> sv_manager s = Running)"
proof -
  obtain s where s: "server_reach (NewAPIServer False sample_api sample_api_backends) s" "sv_process s = Exited 0" "sv_start s = Returned None"
    "sv_stop s = Draining" "sv_open s = {#get_backends []#}" using reach_lost by blast
  obtain t where t: "server_reach (NewAPIServer False sample_api sample_api_backends) t" "sv_process t = Alive" "sv_start t = Returned None"
    "sv_stop t = Stopped None" "sv_manager t = Running" "sv_signals t = 1" using reach_signal_taken by blast
  from server_lifecycle [OF s(1)] server_lifecycle [OF t(1)] s t show ?thesis by blast
qed

end
