(* ===== verification/Startup.thy ===== *)
theory Startup
  imports Preload Server Ldap GroupNames
begin

text \<open>
  The start of the program (\<^verbatim>\<open>main\<close> of \<^verbatim>\<open>cmd/main.go\<close>): the options of the controller manager from the command line
  and the environment, then, in this order and with an exit at the first failure, the manager, the configuration, the LDAP connection, the
  cache, its preloading, the registration of the reconciler and of the health checks.  A failure to create the cache is
  only logged.  The controller manager is a parameter; the typed fields of the configuration are read from its tree of values.
\<close>

section \<open>The options of the manager\<close>

record flags =
  fl_metricsAddr :: string
  fl_probeAddr :: string
  fl_enableLeaderElection :: bool
  fl_secureMetrics :: bool
  fl_enableHTTP2 :: bool

text \<open>What the flags are when they are not given.\<close>

definition default_flags :: flags where
  "default_flags = \<lparr>fl_metricsAddr = ''0'', fl_probeAddr = '':8081'', fl_enableLeaderElection = False, fl_secureMetrics = True, fl_enableHTTP2 = False\<rparr>"

text \<open>A TLS option changes the protocols a TLS configuration offers.\<close>

type_synonym tls_option = "string list \<Rightarrow> string list"

definition disableHTTP2 :: tls_option where
  "disableHTTP2 protos = [''http/1.1'']"

record manager_options =
  mo_MetricsBindAddress :: string
  mo_SecureServing :: bool
  mo_MetricsTLSOpts :: "tls_option list"
  mo_AuthFilter :: bool
  mo_WebhookTLSOpts :: "tls_option list"
  mo_HealthProbeBindAddress :: string
  mo_LeaderElection :: bool
  mo_LeaderElectionID :: string
  mo_DefaultNamespaces :: "string list"

definition watched_namespace :: "os \<Rightarrow> string" where
  "watched_namespace W = (let watchedNs = Getenv W ''WATCHED_NAMESPACE'' in if watchedNs = [] then ''usernaut'' else watchedNs)"

definition main_options :: "os \<Rightarrow> flags \<Rightarrow> manager_options" where
  "main_options W f =
     (let tlsOpts = (if \<not> fl_enableHTTP2 f then [] @ [disableHTTP2] else [])
      in \<lparr>mo_MetricsBindAddress = fl_metricsAddr f, mo_SecureServing = fl_secureMetrics f, mo_MetricsTLSOpts = tlsOpts,
          mo_AuthFilter = fl_secureMetrics f, mo_WebhookTLSOpts = tlsOpts, mo_HealthProbeBindAddress = fl_probeAddr f,
          mo_LeaderElection = fl_enableLeaderElection f, mo_LeaderElectionID = ''dd1e5158.operator.dataverse.redhat.com'',
          mo_DefaultNamespaces = [watched_namespace W]\<rparr>)"

section \<open>The typed fields of the configuration\<close>

fun bool_of_cval :: "cval \<Rightarrow> bool" where
  "bool_of_cval (COther (VBool b)) = b" | "bool_of_cval _ = False"

fun int_of_cval :: "cval \<Rightarrow> int" where
  "int_of_cval (COther (VInt w n)) = n" | "int_of_cval _ = 0"

fun list_of_cval :: "cval \<Rightarrow> cval list" where
  "list_of_cval (CSlice vs) = vs" | "list_of_cval _ = []"

fun pointer_of_cval :: "(cval \<Rightarrow> 'a) \<Rightarrow> cval \<Rightarrow> 'a option" where
  "pointer_of_cval f (CPtr v) = Some (f v)" | "pointer_of_cval f _ = None"

fun map_of_cval :: "(cval \<Rightarrow> 'a) \<Rightarrow> cval \<Rightarrow> 'a gomap" where
  "map_of_cval f (CMap m) = map (\<lambda>(k, v). (k, f v)) m" | "map_of_cval f _ = []"

definition ldap_config :: "cval \<Rightarrow> LDAP" where
  "ldap_config v =
     \<lparr>Server = string_of_cval (field_of v ''Server''), BaseDN = string_of_cval (field_of v ''BaseDN''),
      UserDN = string_of_cval (field_of v ''UserDN''), UserSearchFilter = string_of_cval (field_of v ''UserSearchFilter''),
      Attributes = map string_of_cval (list_of_cval (field_of v ''Attributes''))\<rparr>"

definition inmemory_config :: "cval \<Rightarrow> inmemory_Config" where
  "inmemory_config v =
     \<lparr>DefaultExpiration = word_of_int (int_of_cval (field_of v ''DefaultExpiration'')),
      CleanupInterval = word_of_int (int_of_cval (field_of v ''CleanupInterval''))\<rparr>"

definition redis_config :: "cval \<Rightarrow> redis_Config" where
  "redis_config v =
     \<lparr>Host = string_of_cval (field_of v ''Host''), Port = string_of_cval (field_of v ''Port''),
      Database = word_of_int (int_of_cval (field_of v ''Database'')), Password = string_of_cval (field_of v ''Password'')\<rparr>"

definition cache_config :: "cval \<Rightarrow> cache_Config" where
  "cache_config v =
     \<lparr>Driver = string_of_cval (field_of v ''Driver''), cfg_InMemory = pointer_of_cval inmemory_config (field_of v ''InMemory''),
      cfg_Redis = pointer_of_cval redis_config (field_of v ''Redis'')\<rparr>"

definition pool_config :: "cval \<Rightarrow> ConnectionPoolConfig" where
  "pool_config v =
     \<lparr>Timeout = word_of_int (int_of_cval (field_of v ''Timeout'')), KeepAliveTimeout = word_of_int (int_of_cval (field_of v ''KeepAliveTimeout'')),
      MaxIdleConnections = word_of_int (int_of_cval (field_of v ''MaxIdleConnections'')),
      PrivateKeyPath = string_of_cval (field_of v ''PrivateKeyPath''), CertPath = string_of_cval (field_of v ''CertPath'')\<rparr>"

definition hystrix_config :: "cval \<Rightarrow> HystrixResiliencyConfig" where
  "hystrix_config v =
     \<lparr>MaxConcurrentRequests = word_of_int (int_of_cval (field_of v ''MaxConcurrentRequests'')),
      RequestVolumeThreshold = word_of_int (int_of_cval (field_of v ''RequestVolumeThreshold'')),
      CircuitBreakerSleepWindow = word_of_int (int_of_cval (field_of v ''CircuitBreakerSleepWindow'')),
      ErrorPercentThreshold = word_of_int (int_of_cval (field_of v ''ErrorPercentThreshold'')),
      CircuitBreakerTimeout = word_of_int (int_of_cval (field_of v ''CircuitBreakerTimeout''))\<rparr>"

definition basic_user :: "cval \<Rightarrow> BasicUser" where
  "basic_user v = \<lparr>bu_Username = string_of_cval (field_of v ''Username''), bu_Password = string_of_cval (field_of v ''Password'')\<rparr>"

definition auth_config :: "cval \<Rightarrow> AuthConfig" where
  "auth_config v =
     \<lparr>au_Enabled = bool_of_cval (field_of v ''Enabled''), au_BasicUsers = map basic_user (list_of_cval (field_of v ''BasicUsers''))\<rparr>"

definition api_config :: "cval \<Rightarrow> APIServerConfig" where
  "api_config v =
     \<lparr>api_Address = string_of_cval (field_of v ''Address''), api_Auth = auth_config (field_of v ''Auth''),
      api_CORS = \<lparr>AllowedOrigins = map string_of_cval (list_of_cval (field_of (field_of v ''CORS'') ''AllowedOrigins''))\<rparr>\<rparr>"

definition pattern_entry :: "cval \<Rightarrow> PatternEntry" where
  "pattern_entry v = \<lparr>pe_Input = string_of_cval (field_of v ''Input''), pe_Output = string_of_cval (field_of v ''Output'')\<rparr>"

definition ac_LDAP :: "AppConfig \<Rightarrow> LDAP" where
  "ac_LDAP conf = ldap_config (field_of (ac_values conf) ''LDAP'')"

definition ac_Cache :: "AppConfig \<Rightarrow> cache_Config" where
  "ac_Cache conf = cache_config (field_of (ac_values conf) ''Cache'')"

definition ac_HttpClient :: "AppConfig \<Rightarrow> http_config" where
  "ac_HttpClient conf =
     (let v = field_of (ac_values conf) ''HttpClient''
      in (pool_config (field_of v ''ConnectionPoolConfig''), hystrix_config (field_of v ''HystrixResiliencyConfig'')))"

definition ac_APIServer :: "AppConfig \<Rightarrow> APIServerConfig" where
  "ac_APIServer conf = api_config (field_of (ac_values conf) ''APIServer'')"

definition ac_Pattern :: "AppConfig \<Rightarrow> PatternEntry list gomap" where
  "ac_Pattern conf = map_of_cval (\<lambda>v. map pattern_entry (list_of_cval v)) (field_of (ac_values conf) ''Pattern'')"

definition ac_Debug :: "AppConfig \<Rightarrow> bool" where
  "ac_Debug conf = bool_of_cval (field_of (field_of (ac_values conf) ''App'') ''Debug'')"

section \<open>The cache, or none\<close>

definition nil_dereference :: gerror where
  "nil_dereference = GoPanic ''runtime error: invalid memory address or nil pointer dereference''"

text \<open>
  A variable of the interface type: nil, the nil pointer that \<^verbatim>\<open>redis.NewCache\<close> returns with its error, or a cache.  The operations
  of the first two panic.
\<close>

definition nilable :: "'c cache \<Rightarrow> 'c option cache" where
  "nilable ops =
     \<lparr>cGet = (\<lambda>k c. case c of None \<Rightarrow> ((Other, Some nil_dereference), None) | Some x \<Rightarrow> (let (r, x') = cGet ops k x in (r, Some x'))),
      cSet = (\<lambda>k v ttl c. case c of None \<Rightarrow> (Some nil_dereference, None) | Some x \<Rightarrow> (let (r, x') = cSet ops k v ttl x in (r, Some x'))),
      cDelete = (\<lambda>k c. case c of None \<Rightarrow> (Some nil_dereference, None) | Some x \<Rightarrow> (let (r, x') = cDelete ops k x in (r, Some x')))\<rparr>"

section \<open>The start\<close>

text \<open>The environment; the last four are what the manager's calls return.\<close>

record ('f, 'h, 'l, 'r, 'b, 'k, 'p) boot_env =
  bt_config :: "'f config_env"
  bt_ldap :: "('h, 'l) ldap_api"
  bt_redis :: "'r redis_api"
  bt_clock :: "nat \<Rightarrow> int"
  bt_services :: "('b, 'k, 'p) services"
  bt_iter :: iter
  bt_NewManager :: "manager_options \<Rightarrow> gerror option"
  bt_SetupWithManager :: "gerror option"
  bt_AddHealthzCheck :: "gerror option"
  bt_AddReadyzCheck :: "gerror option"

record ('h, 'r) reconciler =
  gr_AppConfig :: AppConfig
  gr_Cache :: "'r Cache_impl option"
  gr_LdapConn :: "'h LDAPConn"

text \<open>How \<^verbatim>\<open>main\<close> gets on: it exits with a message and the error, dies of a panic, or goes on to run the API server and the manager.\<close>

datatype ('h, 'r) boot = ExitWith string gerror | Crash gerror | Started "('h, 'r) reconciler" APIServer

definition exit_failed :: "string \<Rightarrow> gerror \<Rightarrow> ('h, 'r) boot" where
  "exit_failed msg err = (if is_panic err then Crash err else ExitWith msg err)"

definition boot_cache :: "('f, 'h, 'l, 'r, 'b, 'k, 'p) boot_env \<Rightarrow> AppConfig \<Rightarrow> 'r Cache_impl option" where
  "boot_cache E conf = (case cache_New (bt_redis E) (Some (ac_Cache conf)) of Inl err \<Rightarrow> None | Inr c \<Rightarrow> Some c)"

text \<open>\<^verbatim>\<open>clients.New\<close> asks for the configuration again.\<close>

definition boot_new :: "('f, 'h, 'l, 'r, 'b, 'k, 'p) boot_env \<Rightarrow> AppConfig \<Rightarrow> config_var \<Rightarrow> string \<Rightarrow> string \<Rightarrow> 'b client result" where
  "boot_new E conf cv n ty = New (bt_services E) (map_sum id ac_HttpClient (fst (GetConfig (bt_config E) cv))) n ty (ac_BackendMap conf)"

definition boot_register :: "('f, 'h, 'l, 'r, 'b, 'k, 'p) boot_env \<Rightarrow> ('h, 'r) reconciler \<Rightarrow> ('h, 'r) boot" where
  "boot_register E R =
     (case bt_SetupWithManager E of
        Some err \<Rightarrow> exit_failed ''unable to create controller'' err
      | None \<Rightarrow>
          (case bt_AddHealthzCheck E of
             Some err \<Rightarrow> exit_failed ''unable to set up health check'' err
           | None \<Rightarrow>
               (case bt_AddReadyzCheck E of
                  Some err \<Rightarrow> exit_failed ''unable to set up ready check'' err
                | None \<Rightarrow>
                    (let conf = gr_AppConfig R
                     in Started R (NewAPIServer (ac_Debug conf) (ac_APIServer conf) (ac_Backends conf))))))"

definition boot_main ::
    "('f, 'h, 'l, 'r, 'b, 'k, 'p) boot_env \<Rightarrow> flags \<Rightarrow> config_var \<times> 'l \<times> 'b \<Rightarrow> ('h, 'r) boot \<times> config_var \<times> 'l \<times> 'b" where
  "boot_main E f = (\<lambda>(cv, l, b).
     (case bt_NewManager E (main_options (ce_os (bt_config E)) f) of
        Some err \<Rightarrow> (exit_failed ''unable to start manager'' err, cv, l, b)
      | None \<Rightarrow>
          (case GetConfig (bt_config E) cv of
             (Inl err, cv1) \<Rightarrow> (exit_failed ''unable to create config'' err, cv1, l, b)
           | (Inr conf, cv1) \<Rightarrow>
               (case InitLdap (bt_ldap E) (ac_LDAP conf) l of
                  (Inl err, l1) \<Rightarrow> (exit_failed ''failed to initialize LDAP connection'' err, cv1, l1, b)
                | (Inr conn, l1) \<Rightarrow>
                    (case preloadCache (nilable (impl_cache (bt_clock E) (bt_redis E))) (bt_iter E) (boot_new E conf cv1) (ac_Backends conf)
                            (boot_cache E conf, b) of
                       (Some err, c1, b1) \<Rightarrow> (exit_failed ''failed to preload cache'' err, cv1, l1, b1)
                     | (None, c1, b1) \<Rightarrow>
                         (boot_register E \<lparr>gr_AppConfig = conf, gr_Cache = c1, gr_LdapConn = conn\<rparr>, cv1, l1, b1))))))"

section \<open>A cache behind the variable\<close>

lemma nilable_store:
  assumes "cache_store ops J \<alpha>"
  shows "cache_store (nilable ops) (\<lambda>c. \<exists>x. c = Some x \<and> J x) (\<lambda>c. case c of None \<Rightarrow> Map.empty | Some x \<Rightarrow> \<alpha> x)"
proof
  fix c k v assume J: "\<exists>x. c = Some x \<and> J x"
  then obtain x where x: "c = Some x" "J x" by blast
  let ?inv = "\<lambda>c. \<exists>x. c = Some x \<and> J x" and ?\<alpha> = "\<lambda>c. case c of None \<Rightarrow> Map.empty | Some x \<Rightarrow> \<alpha> x"
  note ok = cache_store.get_hit [OF assms x(2), of k v] cache_store.get_miss [OF assms x(2), of k]
    cache_store.set_ok [OF assms x(2), of k v] cache_store.delete_ok [OF assms x(2), of k]
  show "?\<alpha> c k = Some v \<Longrightarrow> \<exists>c'. cGet (nilable ops) k c = ((Str v, None), c') \<and> ?inv c' \<and> ?\<alpha> c' = ?\<alpha> c"
    using ok(1) x by (auto simp: nilable_def)
  show "?\<alpha> c k = None \<Longrightarrow> \<exists>e c'. cGet (nilable ops) k c = ((Str [], Some e), c') \<and> \<not> is_panic e \<and> ?inv c' \<and> ?\<alpha> c' = ?\<alpha> c"
    using ok(2) x by (auto simp: nilable_def)
  show "\<exists>c'. cSet (nilable ops) k v NoExpiration c = (None, c') \<and> ?inv c' \<and> ?\<alpha> c' = (?\<alpha> c)(k \<mapsto> v)"
    using ok(3) x by (auto simp: nilable_def)
  show "\<exists>c'. cDelete (nilable ops) k c = (None, c') \<and> ?inv c' \<and> ?\<alpha> c' = (?\<alpha> c)(k := None)"
    using ok(4) x by (auto simp: nilable_def)
qed

text \<open>The cache of the memory driver; no Redis server is up.\<close>

abbreviation memory_inv :: "'r Cache_impl option \<Rightarrow> bool" where
  "memory_inv c \<equiv> \<exists>x. c = Some x \<and> impl_inv (\<lambda>_. False) x"

abbreviation memory_contents :: "'r Cache_impl option \<Rightarrow> string \<rightharpoonup> string" where
  "memory_contents c \<equiv> (case c of None \<Rightarrow> Map.empty | Some x \<Rightarrow> impl_contents (\<lambda>_. Map.empty) x)"

interpretation boot: cache_store "nilable (impl_cache clock api)" memory_inv memory_contents for clock api
  by (rule nilable_store, rule impl_cache_store) (simp add: redis_ok_def)

lemma memory_inv_cases: "memory_inv c \<Longrightarrow> \<exists>m. c = Some (InMem m) \<and> never_expires m"
  by (auto elim: impl_inv.elims)

section \<open>What preloading leaves in the cache\<close>

text \<open>A backend whose listings have one entry per key and identifiers that \<open>P\<close> allows.\<close>

definition lists_ids :: "(string \<Rightarrow> bool) \<Rightarrow> 'b client \<Rightarrow> bool" where
  "lists_ids P cl \<longleftrightarrow>
     (\<forall>b byID byEmail b1. FetchAllUsers cl b = (Inr (byID, byEmail), b1) \<longrightarrow>
        wf_gomap byID \<and> (\<forall>u \<in> snd ` set byID. valid_utf8 (u_ID u) \<and> P (u_ID u))) \<and>
     (\<forall>b teams b1. FetchAllTeams cl b = (Inr teams, b1) \<longrightarrow>
        wf_gomap teams \<and> (\<forall>t \<in> snd ` set teams. valid_utf8 (t_ID t) \<and> P (t_ID t)))"

lemma known_ids_put: "known_ids P key' d \<Longrightarrow> (key' = key \<Longrightarrow> \<forall>e \<in> set es. P (snd e)) \<Longrightarrow> known_ids P key' (put_ids key es d)"
  by (fastforce simp: known_ids_def ident_def put_ids_at dest: map_of_SomeD split: option.splits)

context details_store
begin

lemma preload_backend_run:
  assumes "go_range it" and "valid_utf8 key" and "inv c" and "lists_ids P cl"
    and "preload_backend ops it key cl (c, b) = (None, c', b')"
  shows "inv c' \<and> (\<exists>es. D c' = put_ids key es (D c) \<and> (\<forall>e \<in> set es. P (snd e)))"
proof -
  from assms(5) obtain byID byEmail b1 where us: "FetchAllUsers cl b = (Inr (byID, byEmail), b1)"
    by (auto simp: preload_backend_def split: prod.splits sum.splits)
  from assms(4) us have "wf_gomap byID" "\<forall>u \<in> snd ` set byID. valid_utf8 (u_ID u) \<and> P (u_ID u)" unfolding lists_ids_def by blast+
  then have u: "\<forall>u \<in> set (values_in it byID). valid_utf8 (u_ID u) \<and> P (u_ID u)" by (simp only: set_values_in [OF assms(1)])
  from assms(5) us obtain teams b2 where ts: "FetchAllTeams cl b1 = (Inr teams, b2)"
    by (auto simp: preload_backend_def split: prod.splits sum.splits option.splits)
  from assms(4) ts have "wf_gomap teams" "\<forall>t \<in> snd ` set teams. valid_utf8 (t_ID t) \<and> P (t_ID t)" unfolding lists_ids_def by blast+
  then have t: "\<forall>t \<in> set (values_in it teams). valid_utf8 (t_ID t) \<and> P (t_ID t)" by (simp only: set_values_in [OF assms(1)])
  from preload_backend_ok [OF assms(2,3) us ts, of it] u t assms(5) have
    "inv c'" "D c' = put_ids key (map user_entry (values_in it byID) @ map team_entry (values_in it teams)) (D c)" by auto
  moreover have "\<forall>e \<in> set (map user_entry (values_in it byID) @ map team_entry (values_in it teams)). P (snd e)"
    using u t by (auto simp: user_entry_def team_entry_def)
  ultimately show ?thesis by blast
qed

lemma preloadCache_run:
  assumes "go_range it"
    and "\<forall>be \<in> B. valid_utf8 (cacheKey (bc_Name be) (bc_Type be)) \<and> (\<forall>cl. new (bc_Name be) (bc_Type be) = Inr cl \<longrightarrow> lists_ids (P be) cl)"
    and "\<forall>be \<in> B. \<forall>be' \<in> B. cacheKey (bc_Name be) (bc_Type be) = cacheKey (bc_Name be') (bc_Type be') \<longrightarrow> P be = P be'"
  shows "preloadCache ops it new bes (c, b) = (None, c', b') \<Longrightarrow> {be \<in> set bes. bc_Enabled be} \<subseteq> B \<Longrightarrow> inv c \<Longrightarrow>
    \<forall>be \<in> B. known_ids (P be) (cacheKey (bc_Name be) (bc_Type be)) (D c) \<Longrightarrow>
    inv c' \<and> (\<forall>be \<in> B. known_ids (P be) (cacheKey (bc_Name be) (bc_Type be)) (D c')) \<and>
    (\<forall>be \<in> {be \<in> set bes. bc_Enabled be}. \<exists>cl. new (bc_Name be) (bc_Type be) = Inr cl)"
proof (induction bes arbitrary: c b)
  case (Cons be bes)
  show ?case
  proof (cases "bc_Enabled be")
    case True
    let ?key = "cacheKey (bc_Name be) (bc_Type be)"
    from True Cons.prems(2) have B: "be \<in> B" by auto
    from Cons.prems(1) True obtain cl c1 b1 where cl: "new (bc_Name be) (bc_Type be) = Inr cl"
      and 1: "preload_backend ops it ?key cl (c, b) = (None, c1, b1)" and 2: "preloadCache ops it new bes (c1, b1) = (None, c', b')"
      by (auto split: sum.splits prod.splits option.splits)
    from assms(2) B cl have ok: "valid_utf8 ?key" "lists_ids (P be) cl" by blast+
    from preload_backend_run [OF assms(1) ok(1) Cons.prems(3) ok(2) 1] obtain es where
      c1: "inv c1" "D c1 = put_ids ?key es (D c)" "\<forall>e \<in> set es. P be (snd e)" by blast
    have "\<forall>be' \<in> B. known_ids (P be') (cacheKey (bc_Name be') (bc_Type be')) (D c1)"
    proof
      fix be' assume "be' \<in> B"
      with Cons.prems(4) assms(3) B c1(3) show "known_ids (P be') (cacheKey (bc_Name be') (bc_Type be')) (D c1)"
        unfolding c1(2) by (metis known_ids_put)
    qed
    from Cons.IH [OF 2 _ c1(1) this] Cons.prems(2) cl show ?thesis by auto
  next
    case False
    with Cons.prems Cons.IH [of c b] show ?thesis by auto
  qed
qed simp

end

section \<open>Main results\<close>

lemma GetConfig_again: "GetConfig E cv = (Inr conf, cv1) \<Longrightarrow> fst (GetConfig E cv1) = Inr conf"
  by (auto simp: GetConfig_def split: option.splits prod.splits sum.splits)

lemma boot_memory:
  assumes "Driver (ac_Cache conf) = ''memory''"
  shows "memory_inv (boot_cache E conf) \<and> memory_contents (boot_cache E conf) = Map.empty"
  using cache_New_memory [OF assms, of "bt_redis E"] by (auto simp: boot_cache_def)

lemma boot_register_Started:
  "boot_register E R = Started R' api \<Longrightarrow> R' = R \<and> api = NewAPIServer (ac_Debug (gr_AppConfig R)) (ac_APIServer (gr_AppConfig R)) (ac_Backends (gr_AppConfig R))"
  by (auto simp: boot_register_def exit_failed_def Let_def split: option.splits if_splits)

lemma boot_main_Started:
  assumes "boot_main E f (cv, l, b) = (Started R api, cv', l', b')"
  shows "GetConfig (bt_config E) cv = (Inr (gr_AppConfig R), cv')"
    and "InitLdap (bt_ldap E) (ac_LDAP (gr_AppConfig R)) l = (Inr (gr_LdapConn R), l')"
    and "preloadCache (nilable (impl_cache (bt_clock E) (bt_redis E))) (bt_iter E) (boot_new E (gr_AppConfig R) cv') (ac_Backends (gr_AppConfig R))
       (boot_cache E (gr_AppConfig R), b) = (None, gr_Cache R, b')"
    and "api = NewAPIServer (ac_Debug (gr_AppConfig R)) (ac_APIServer (gr_AppConfig R)) (ac_Backends (gr_AppConfig R))"
  using assms by (auto simp: boot_main_def exit_failed_def split: option.splits prod.splits sum.splits if_splits dest!: boot_register_Started)

text \<open>
  C32: When the program goes on to run the manager and the cache driver is the one in memory, then the configuration was loaded, the
  LDAP server was dialled, every enabled backend has a client, and the cache the reconciler gets never expires, holds well-formed
  objects only, and for every enabled backend only identifiers of the form its client takes: the conditions on the
  cache under which a reconciliation is exact.  The listings of the backends are assumed to have such identifiers,
  and backends of different kinds not to share a cache key.
\<close>

theorem startup_ready:
  assumes "boot_main E f (cv, l, b) = (Started R api, cv', l', b')" and "go_range (bt_iter E)"
    and "conf = gr_AppConfig R" and "Driver (ac_Cache conf) = ''memory''"
    and "B = {be \<in> set (ac_Backends conf). bc_Enabled be}"
    and "new = (\<lambda>be. New (bt_services E) (Inr (ac_HttpClient conf)) (bc_Name be) (bc_Type be) (ac_BackendMap conf))"
    and "\<And>be. be \<in> B \<Longrightarrow> valid_utf8 (cacheKey (bc_Name be) (bc_Type be))"
    and "\<And>be cl. be \<in> B \<Longrightarrow> new be = Inr cl \<Longrightarrow> lists_ids (id_ok (bc_Type be)) cl"
    and "\<And>be be'. be \<in> B \<Longrightarrow> be' \<in> B \<Longrightarrow>
           cacheKey (bc_Name be) (bc_Type be) = cacheKey (bc_Name be') (bc_Type be') \<Longrightarrow> id_ok (bc_Type be) = id_ok (bc_Type be')"
  shows "GetConfig (bt_config E) cv = (Inr conf, cv') \<and>
     (\<exists>h. DialURL (bt_ldap E) (Server (ac_LDAP conf)) l = (Inr h, l') \<and> lc_conn (gr_LdapConn R) = Some h) \<and>
     api = NewAPIServer (ac_Debug conf) (ac_APIServer conf) (ac_Backends conf) \<and>
     (\<forall>be \<in> B. \<exists>cl. new be = Inr cl) \<and>
     (\<exists>c. gr_Cache R = Some (InMem c) \<and> never_expires c \<and> encoded (contents c) \<and>
        (\<forall>be \<in> B. known_ids (id_ok (bc_Type be)) (cacheKey (bc_Name be) (bc_Type be)) (details (contents c))))"
proof -
  from assms(1) have conf: "GetConfig (bt_config E) cv = (Inr conf, cv')" and ldap: "InitLdap (bt_ldap E) (ac_LDAP conf) l = (Inr (gr_LdapConn R), l')"
    and pre: "preloadCache (nilable (impl_cache (bt_clock E) (bt_redis E))) (bt_iter E) (boot_new E conf cv') (ac_Backends conf)
      (boot_cache E conf, b) = (None, gr_Cache R, b')"
    and api: "api = NewAPIServer (ac_Debug conf) (ac_APIServer conf) (ac_Backends conf)"
    unfolding assms(3) by (rule boot_main_Started)+
  have new: "boot_new E conf cv' (bc_Name be) (bc_Type be) = new be" for be
    by (simp add: boot_new_def GetConfig_again [OF conf] assms(6))
  have start: "memory_inv (boot_cache E conf) \<and> encoded (memory_contents (boot_cache E conf))"
    "\<forall>be \<in> B. known_ids (id_ok (bc_Type be)) (cacheKey (bc_Name be) (bc_Type be)) (details (memory_contents (boot_cache E conf)))"
    using boot_memory [OF assms(4), of E] by (auto simp: known_ids_def ident_def details_def)
  have B: "\<forall>be \<in> B. valid_utf8 (cacheKey (bc_Name be) (bc_Type be)) \<and>
      (\<forall>cl. boot_new E conf cv' (bc_Name be) (bc_Type be) = Inr cl \<longrightarrow> lists_ids (id_ok (bc_Type be)) cl)"
    "\<forall>be \<in> B. \<forall>be' \<in> B. cacheKey (bc_Name be) (bc_Type be) = cacheKey (bc_Name be') (bc_Type be') \<longrightarrow> id_ok (bc_Type be) = id_ok (bc_Type be')"
    unfolding new using assms(7-9) by blast+
  from boot.det.preloadCache_run [OF assms(2) B pre _ start]
  have run: "memory_inv (gr_Cache R) \<and> encoded (memory_contents (gr_Cache R))"
    "\<forall>be \<in> B. known_ids (id_ok (bc_Type be)) (cacheKey (bc_Name be) (bc_Type be)) (details (memory_contents (gr_Cache R)))"
    "\<forall>be \<in> B. \<exists>cl. new be = Inr cl" unfolding new by (simp_all add: assms(5))
  from run(1) obtain m where m: "gr_Cache R = Some (InMem m)" "never_expires m" using memory_inv_cases by blast
  from ldap have "\<exists>h. DialURL (bt_ldap E) (Server (ac_LDAP conf)) l = (Inr h, l') \<and> lc_conn (gr_LdapConn R) = Some h"
    by (auto simp: InitLdap_def eq_commute [of _ "gr_LdapConn R"] split: prod.splits sum.splits)
  with conf api run m show ?thesis by simp
qed

text \<open>A configuration with one Fivetran backend and the memory driver.\<close>

definition boot_values :: cval where
  "boot_values = CStruct
     [(''LDAP'', True, CStruct [(''Server'', True, CString ''ldap'')]),
      (''Cache'', True, CStruct [(''Driver'', True, CString ''memory'')]),
      (''Backends'', True, CSlice [CStruct [(''Name'', True, CString ''fv''), (''Type'', True, CString ''fivetran''),
         (''Enabled'', True, COther (VBool True)),
         (''Connection'', True, CMap [(''apikey'', CIface (CString ''k'')), (''apisecret'', CIface (CString ''s''))])]])]"

definition boot_demo :: "(unit, nat, unit, string gomap, demo, string \<times> string, nat) boot_env" where
  "boot_demo =
     \<lparr>bt_config = sample_config_env\<lparr>ce_viper := \<lparr>ReadInConfig = \<lambda>vs. Inr (), Unmarshal_into = \<lambda>vs f v. (None, boot_values)\<rparr>\<rparr>,
      bt_ldap = \<lparr>DialURL = \<lambda>s l. (Inr 0, l), IsClosing = \<lambda>h l. (False, l), Search = \<lambda>h r l. (Inr [], l)\<rparr>,
      bt_redis = sample_redis, bt_clock = \<lambda>_. 0, bt_services = demo_services, bt_iter = rev, bt_NewManager = \<lambda>_. None,
      bt_SetupWithManager = None, bt_AddHealthzCheck = None, bt_AddReadyzCheck = None\<rparr>"

definition boot_conf :: AppConfig where
  "boot_conf = config_of boot_values (fold add_backend (backends_of_cval (field_of boot_values ''Backends'')) [])"

abbreviation fv_backend :: BackendConfig where
  "fv_backend \<equiv> \<lparr>bc_Name = ''fv'', bc_Type = ''fivetran'', bc_Enabled = True, bc_Connection = [(''apikey'', VString ''k''), (''apisecret'', VString ''s'')]\<rparr>"

lemma boot_config: "GetConfig (bt_config boot_demo) None = (Inr boot_conf, Some boot_conf)"
proof -
  have v: "substituteString sample_os ''ldap'' = Inr ''ldap''" "substituteString sample_os ''memory'' = Inr ''memory''"
    "substituteString sample_os ''fv'' = Inr ''fv''" "substituteString sample_os ''fivetran'' = Inr ''fivetran''"
    "substituteString sample_os ''k'' = Inr ''k''" "substituteString sample_os ''s'' = Inr ''s''" by code_simp+
  show ?thesis
    by (simp add: GetConfig_def LoadConfig_def Load_def loadByConfigName_def sample_config_env_def SubstituteConfigValues_def
        boot_demo_def boot_values_def boot_conf_def v Let_def)
qed

lemma boot_conf_fields:
  "ac_Backends boot_conf = [fv_backend]" "ac_BackendMap boot_conf = [(''fivetran'', [(''fv'', fv_backend)])]"
  "Driver (ac_Cache boot_conf) = ''memory''" "Server (ac_LDAP boot_conf) = ''ldap''"
  by (simp_all add: boot_conf_def boot_values_def config_of_def backend_of_cval_def add_backend_def ac_Cache_def cache_config_def
      ac_LDAP_def ldap_config_def)

abbreviation boot_client :: "demo client" where
  "boot_client \<equiv> fivetran_client (Suc 0) rev rev ft_demo"

lemma boot_demo_new: "New demo_services hc ''fv'' ''fivetran'' (ac_BackendMap boot_conf) = Inr boot_client"
proof -
  have "ToLower ''fivetran'' = ''fivetran''" by code_simp
  then show ?thesis by (simp add: New_def boot_conf_fields lookup_backend_def GetStringConnection_def demo_services_def)
qed

lemma boot_users:
  "FetchAllUsers boot_client b = (Inr (
     [(''a@x'', \<lparr>u_ID = ''1'', u_UserName = [], u_Email = ''a@x'', u_FirstName = ''A'', u_LastName = ''X'', u_DisplayName = ''A X'', u_Role = []\<rparr>),
      (''b@x'', \<lparr>u_ID = ''2'', u_UserName = [], u_Email = ''b@x'', u_FirstName = ''B'', u_LastName = ''Y'', u_DisplayName = ''B Y'', u_Role = []\<rparr>)],
     [(''1'', \<lparr>u_ID = ''1'', u_UserName = [], u_Email = ''a@x'', u_FirstName = ''A'', u_LastName = ''X'', u_DisplayName = ''A X'', u_Role = []\<rparr>),
      (''2'', \<lparr>u_ID = ''2'', u_UserName = [], u_Email = ''b@x'', u_FirstName = ''B'', u_LastName = ''Y'', u_DisplayName = ''B Y'', u_Role = []\<rparr>)]), b)"
  by code_simp

lemma boot_teams: "FetchAllTeams boot_client b = (Inr [(''a'', empty_team\<lparr>t_ID := ''t1'', t_Name := ''a''\<rparr>)], b)"
  by code_simp

lemma boot_lists: "lists_ids (id_ok ''fivetran'') boot_client"
proof -
  have "ToLower ''fivetran'' = ''fivetran''" by code_simp
  moreover have "valid_utf8 ''1''" "valid_utf8 ''2''" "valid_utf8 ''t1''" by (simp_all add: valid_ascii_list)
  ultimately show ?thesis by (auto simp: lists_ids_def boot_users boot_teams id_ok_def wf_gomap_def)
qed

lemma boot_demo_starts:
  "\<exists>R api s. boot_main boot_demo default_flags (None, (), []) = (Started R api, s) \<and> gr_AppConfig R = boot_conf"
proof -
  let ?key = "cacheKey ''fv'' ''fivetran''" and ?ops = "nilable (impl_cache (\<lambda>_. 0) sample_redis)"
  have env: "bt_clock boot_demo = (\<lambda>_. 0)" "bt_redis boot_demo = sample_redis" "bt_iter boot_demo = rev" "bt_services boot_demo = demo_services"
    "bt_NewManager boot_demo = (\<lambda>_. None)" "bt_SetupWithManager boot_demo = None" "bt_AddHealthzCheck boot_demo = None" "bt_AddReadyzCheck boot_demo = None"
    "DialURL (bt_ldap boot_demo) s l = (Inr 0, l)" for s l
    by (simp_all add: boot_demo_def)
  have utf8: "valid_utf8 ?key" "valid_utf8 ''1''" "valid_utf8 ''2''" "valid_utf8 ''t1''" by (simp_all add: cacheKey_def valid_ascii_list)
  have start: "memory_inv (boot_cache boot_demo boot_conf) \<and> encoded (memory_contents (boot_cache boot_demo boot_conf))"
    using boot_memory [OF boot_conf_fields(3), of boot_demo] by auto
  from boot.det.preload_backend_ok [OF utf8(1) start boot_users [of "[]"] boot_teams, where it = rev and clock = "\<lambda>_. 0" and api = sample_redis] utf8(2-4) obtain c where
    "preload_backend ?ops rev ?key boot_client (boot_cache boot_demo boot_conf, []) = (None, c, [])"
    by (auto simp: values_in_def List.map_filter_def)
  then have "preloadCache ?ops rev (boot_new boot_demo boot_conf (Some boot_conf)) (ac_Backends boot_conf) (boot_cache boot_demo boot_conf, []) = (None, c, [])"
    by (simp add: boot_conf_fields(1) boot_new_def env boot_demo_new)
  then show ?thesis
    by (simp add: boot_main_def boot_config env InitLdap_def boot_register_def Let_def)
qed

theorem startup_ready_witness:
  "\<exists>R api s c. boot_main boot_demo default_flags (None, (), []) = (Started R api, s) \<and> gr_Cache R = Some (InMem c) \<and>
     never_expires c \<and> encoded (contents c) \<and> known_ids (id_ok ''fivetran'') ''fv_fivetran'' (details (contents c))"
proof -
  obtain R api cv' l' b' where run: "boot_main boot_demo default_flags (None, (), []) = (Started R api, cv', l', b')" and R: "gr_AppConfig R = boot_conf"
    using boot_demo_starts by (metis prod.exhaust)
  have env: "bt_iter boot_demo = rev" "bt_services boot_demo = demo_services" by (simp_all add: boot_demo_def)
  have B: "{fv_backend} = {be \<in> set (ac_Backends boot_conf). bc_Enabled be}" by (auto simp: boot_conf_fields)
  have key: "cacheKey ''fv'' ''fivetran'' = ''fv_fivetran''" "valid_utf8 ''fv_fivetran''" by (simp_all add: cacheKey_def valid_ascii_list)
  have it: "go_range (bt_iter boot_demo)" by (simp add: env go_range_def)
  from startup_ready [OF run it R [symmetric] boot_conf_fields(3) B refl] boot_lists key obtain c where
    "gr_Cache R = Some (InMem c)" "never_expires c" "encoded (contents c)" "known_ids (id_ok ''fivetran'') ''fv_fivetran'' (details (contents c))"
    by (auto simp: env boot_demo_new)
  with run show ?thesis by blast
qed

text \<open>
  When \<^verbatim>\<open>cache.New\<close> fails the program goes on without a cache.  It dies of a nil dereference as soon as an enabled backend
  lists a user; with no backend enabled it starts, and leaves the reconciler with no cache.
\<close>

theorem startup_without_cache:
  assumes "bt_NewManager E (main_options (ce_os (bt_config E)) f) = None" and "GetConfig (bt_config E) cv = (Inr conf, cv1)"
    and "InitLdap (bt_ldap E) (ac_LDAP conf) l = (Inr conn, l1)" and "cache_New (bt_redis E) (Some (ac_Cache conf)) = Inl e"
  shows "ac_Backends conf = be # bes \<Longrightarrow> bc_Enabled be \<Longrightarrow>
      New (bt_services E) (Inr (ac_HttpClient conf)) (bc_Name be) (bc_Type be) (ac_BackendMap conf) = Inr cl \<Longrightarrow>
      FetchAllUsers cl b = (Inr (byID, byEmail), b1) \<Longrightarrow> values_in (bt_iter E) byID \<noteq> [] \<Longrightarrow>
      fst (boot_main E f (cv, l, b)) = Crash nil_dereference"
    and "\<forall>be \<in> set (ac_Backends conf). \<not> bc_Enabled be \<Longrightarrow> bt_SetupWithManager E = None \<Longrightarrow> bt_AddHealthzCheck E = None \<Longrightarrow>
      bt_AddReadyzCheck E = None \<Longrightarrow>
      \<exists>api. boot_main E f (cv, l, b) = (Started \<lparr>gr_AppConfig = conf, gr_Cache = None, gr_LdapConn = conn\<rparr> api, cv1, l1, b)"
proof -
  have none: "boot_cache E conf = None" by (simp add: boot_cache_def assms(4))
  note start = boot_main_def assms(1-3) none
  let ?ops = "nilable (impl_cache (bt_clock E) (bt_redis E))"
  have entry: "preload_entry ?ops key x None = (Some nil_dereference, None)" for key x
    by (cases x) (simp add: preload_entry_def nilable_def nil_dereference_def)
  show "fst (boot_main E f (cv, l, b)) = Crash nil_dereference"
    if be: "ac_Backends conf = be # bes" "bc_Enabled be"
      and cl: "New (bt_services E) (Inr (ac_HttpClient conf)) (bc_Name be) (bc_Type be) (ac_BackendMap conf) = Inr cl"
      and us: "FetchAllUsers cl b = (Inr (byID, byEmail), b1)" "values_in (bt_iter E) byID \<noteq> []"
  proof -
    from cl have new: "boot_new E conf cv1 (bc_Name be) (bc_Type be) = Inr cl" by (simp add: boot_new_def GetConfig_again [OF assms(2)])
    from us(2) obtain u us' where "values_in (bt_iter E) byID = u # us'" by (cases "values_in (bt_iter E) byID") auto
    with us(1) have "preload_backend ?ops (bt_iter E) (cacheKey (bc_Name be) (bc_Type be)) cl (None, b) = (Some nil_dereference, None, b1)"
      by (simp add: preload_backend_def entry)
    with be new show ?thesis by (simp add: start exit_failed_def nil_dereference_def)
  qed
  have skip: "preloadCache ops it new bs s = (None, s)" if "\<forall>be \<in> set bs. \<not> bc_Enabled be" for ops :: "'x cache" and it new bs s
    using that by (induction bs) simp_all
  show "\<exists>api. boot_main E f (cv, l, b) = (Started \<lparr>gr_AppConfig = conf, gr_Cache = None, gr_LdapConn = conn\<rparr> api, cv1, l1, b)"
    if "\<forall>be \<in> set (ac_Backends conf). \<not> bc_Enabled be" "bt_SetupWithManager E = None" "bt_AddHealthzCheck E = None" "bt_AddReadyzCheck E = None"
    using that by (simp add: start skip boot_register_def Let_def)
qed

end
