(* ===== verification/DeepCopy.thy ===== *)
theory DeepCopy
  imports GroupTypes
begin

text \<open>
  The generated deep copies of the resource (\<^verbatim>\<open>zz_generated.deepcopy.go\<close>), on a model of memory: a slice is nil or
  refers to a part of an array, arrays live in cells with addresses, and two slices may share an array.  A struct
  is a value that holds slices; the argument of \<^verbatim>\<open>DeepCopyInto\<close> that receives the copy is the result of the function here, because
  its first statement overwrites it.  The deep copies of \<^verbatim>\<open>ObjectMeta\<close> and \<^verbatim>\<open>ListMeta\<close>, of the Kubernetes library,
  are parameters \<open>dm\<close> and \<open>dl\<close>, and that of \<^verbatim>\<open>Condition\<close> is a parameter \<open>dc\<close>.
\<close>

section \<open>Memory\<close>

text \<open>A slice: the array, the offset of its first element, its length and its capacity.\<close>

datatype slice_ref = NilRef | SliceRef nat nat nat nat

record MMembers =
  mm_Groups :: slice_ref
  mm_Users :: slice_ref

record MGroupSpec =
  ms_GroupName :: string
  ms_Members :: MMembers
  ms_Backends :: slice_ref

record MGroupStatus =
  mt_ReconciledUsers :: slice_ref
  mt_Conditions :: slice_ref
  mt_LastAppliedGeneration :: "64 word"
  mt_BackendsStatus :: slice_ref

record TypeMeta =
  tm_Kind :: string
  tm_APIVersion :: string

record 'o MGroup =
  mg_TypeMeta :: TypeMeta
  mg_ObjectMeta :: 'o
  mg_Spec :: MGroupSpec
  mg_Status :: MGroupStatus

record 'p MGroupList =
  ml_TypeMeta :: TypeMeta
  ml_ListMeta :: 'p
  ml_Items :: slice_ref

text \<open>The arrays of the program by their type, and whatever the library keeps behind its metadata.\<close>

datatype ('o, 'l) cell =
    Strings (strings_of: "string list")
  | BackendArr (backends_of: "Backend list")
  | StatusArr (statuses_of: "BackendStatus list")
  | ConditionArr (conditions_of: "Condition list")
  | GroupArr (groups_of: "'o MGroup list")
  | Library 'l
where
  "strings_of (BackendArr _) = []" | "strings_of (StatusArr _) = []" | "strings_of (ConditionArr _) = []"
| "strings_of (GroupArr _) = []" | "strings_of (Library _) = []"
| "backends_of (Strings _) = []" | "backends_of (StatusArr _) = []" | "backends_of (ConditionArr _) = []"
| "backends_of (GroupArr _) = []" | "backends_of (Library _) = []"
| "statuses_of (Strings _) = []" | "statuses_of (BackendArr _) = []" | "statuses_of (ConditionArr _) = []"
| "statuses_of (GroupArr _) = []" | "statuses_of (Library _) = []"
| "conditions_of (Strings _) = []" | "conditions_of (BackendArr _) = []" | "conditions_of (StatusArr _) = []"
| "conditions_of (GroupArr _) = []" | "conditions_of (Library _) = []"
| "groups_of (Strings _) = []" | "groups_of (BackendArr _) = []" | "groups_of (StatusArr _) = []"
| "groups_of (ConditionArr _) = []" | "groups_of (Library _) = []"

text \<open>Memory: the cells, and the address the next allocation takes.\<close>

record ('o, 'l) mem =
  cells :: "nat \<Rightarrow> ('o, 'l) cell"
  limit :: nat

definition alloc :: "('o, 'l) cell \<Rightarrow> ('o, 'l) mem \<Rightarrow> nat \<times> ('o, 'l) mem" where
  "alloc x h = (limit h, h\<lparr>cells := (cells h)(limit h := x), limit := limit h + 1\<rparr>)"

definition write_cell :: "nat \<Rightarrow> ('o, 'l) cell \<Rightarrow> ('o, 'l) mem \<Rightarrow> ('o, 'l) mem" where
  "write_cell a x h = h\<lparr>cells := (cells h)(a := x)\<rparr>"

section \<open>The generated code\<close>

text \<open>
  Slices of values without references: \<^verbatim>\<open>*out = make([]T, len(*in)); copy(*out, *in)\<close>.  The argument \<open>arr\<close> is
  the constructor of the cells with arrays of the element type and \<open>elems\<close> its inverse, \<open>zero\<close> the zero value of the type.
\<close>

definition copy_values ::
    "('a list \<Rightarrow> ('o, 'l) cell) \<Rightarrow> (('o, 'l) cell \<Rightarrow> 'a list) \<Rightarrow> 'a \<Rightarrow> slice_ref \<Rightarrow> ('o, 'l) mem \<Rightarrow> slice_ref \<times> ('o, 'l) mem" where
  "copy_values arr elems zero s h =
     (case s of
        NilRef \<Rightarrow> (NilRef, h)
      | SliceRef a off n _ \<Rightarrow>
          (let (b, h1) = alloc (arr (replicate n zero)) h;
               src = take n (drop off (elems (cells h1 a)))
           in (SliceRef b 0 n n, write_cell b (arr (src @ drop (length src) (elems (cells h1 b)))) h1)))"

text \<open>Slices of structs: \<^verbatim>\<open>for i := range *in { (*in)[i].DeepCopyInto(&(*out)[i]) }\<close>.\<close>

fun copy_loop ::
    "('a list \<Rightarrow> ('o, 'l) cell) \<Rightarrow> (('o, 'l) cell \<Rightarrow> 'a list) \<Rightarrow> ('a \<Rightarrow> ('o, 'l) mem \<Rightarrow> 'a \<times> ('o, 'l) mem) \<Rightarrow>
     nat \<Rightarrow> nat \<Rightarrow> nat \<Rightarrow> nat list \<Rightarrow> ('o, 'l) mem \<Rightarrow> ('o, 'l) mem" where
  "copy_loop arr elems into a off b [] h = h"
| "copy_loop arr elems into a off b (i # is) h =
     (let (y, h1) = into (elems (cells h a) ! (off + i)) h
      in copy_loop arr elems into a off b is (write_cell b (arr ((elems (cells h1 b))[i := y])) h1))"

definition copy_structs ::
    "('a list \<Rightarrow> ('o, 'l) cell) \<Rightarrow> (('o, 'l) cell \<Rightarrow> 'a list) \<Rightarrow> 'a \<Rightarrow> ('a \<Rightarrow> ('o, 'l) mem \<Rightarrow> 'a \<times> ('o, 'l) mem) \<Rightarrow>
     slice_ref \<Rightarrow> ('o, 'l) mem \<Rightarrow> slice_ref \<times> ('o, 'l) mem" where
  "copy_structs arr elems zero into s h =
     (case s of
        NilRef \<Rightarrow> (NilRef, h)
      | SliceRef a off n _ \<Rightarrow>
          (let (b, h1) = alloc (arr (replicate n zero)) h
           in (SliceRef b 0 n n, copy_loop arr elems into a off b [0..<n] h1)))"

text \<open>\<^verbatim>\<open>DeepCopy\<close>: nil for nil, otherwise a new object filled by \<^verbatim>\<open>DeepCopyInto\<close>.\<close>

definition copy_pointer :: "('a \<Rightarrow> 'h \<Rightarrow> 'a \<times> 'h) \<Rightarrow> 'a option \<Rightarrow> 'h \<Rightarrow> 'a option \<times> 'h" where
  "copy_pointer into p h = (case p of None \<Rightarrow> (None, h) | Some x \<Rightarrow> (let (y, h1) = into x h in (Some y, h1)))"

definition zero_Backend :: Backend where
  "zero_Backend = \<lparr>be_Name = [], be_Type = []\<rparr>"

definition zero_BackendStatus :: BackendStatus where
  "zero_BackendStatus = \<lparr>bs_Name = [], bs_Type = [], bs_Status = False, bs_Message = []\<rparr>"

definition zero_MGroup :: "'o \<Rightarrow> 'o MGroup" where
  "zero_MGroup zm =
     \<lparr>mg_TypeMeta = \<lparr>tm_Kind = [], tm_APIVersion = []\<rparr>, mg_ObjectMeta = zm,
      mg_Spec = \<lparr>ms_GroupName = [], ms_Members = \<lparr>mm_Groups = NilRef, mm_Users = NilRef\<rparr>, ms_Backends = NilRef\<rparr>,
      mg_Status = \<lparr>mt_ReconciledUsers = NilRef, mt_Conditions = NilRef, mt_LastAppliedGeneration = 0, mt_BackendsStatus = NilRef\<rparr>\<rparr>"

definition Backend_DeepCopyInto :: "Backend \<Rightarrow> ('o, 'l) mem \<Rightarrow> Backend \<times> ('o, 'l) mem" where
  "Backend_DeepCopyInto b h = (b, h)"

definition Backend_DeepCopy :: "Backend option \<Rightarrow> ('o, 'l) mem \<Rightarrow> Backend option \<times> ('o, 'l) mem" where
  "Backend_DeepCopy = copy_pointer Backend_DeepCopyInto"

definition BackendStatus_DeepCopyInto :: "BackendStatus \<Rightarrow> ('o, 'l) mem \<Rightarrow> BackendStatus \<times> ('o, 'l) mem" where
  "BackendStatus_DeepCopyInto b h = (b, h)"

definition BackendStatus_DeepCopy :: "BackendStatus option \<Rightarrow> ('o, 'l) mem \<Rightarrow> BackendStatus option \<times> ('o, 'l) mem" where
  "BackendStatus_DeepCopy = copy_pointer BackendStatus_DeepCopyInto"

definition Members_DeepCopyInto :: "MMembers \<Rightarrow> ('o, 'l) mem \<Rightarrow> MMembers \<times> ('o, 'l) mem" where
  "Members_DeepCopyInto m h =
     (let out = m;
          (gs, h1) = copy_values Strings strings_of [] (mm_Groups m) h;
          out = out\<lparr>mm_Groups := gs\<rparr>;
          (us, h2) = copy_values Strings strings_of [] (mm_Users m) h1;
          out = out\<lparr>mm_Users := us\<rparr>
      in (out, h2))"

definition Members_DeepCopy :: "MMembers option \<Rightarrow> ('o, 'l) mem \<Rightarrow> MMembers option \<times> ('o, 'l) mem" where
  "Members_DeepCopy = copy_pointer Members_DeepCopyInto"

definition GroupSpec_DeepCopyInto :: "MGroupSpec \<Rightarrow> ('o, 'l) mem \<Rightarrow> MGroupSpec \<times> ('o, 'l) mem" where
  "GroupSpec_DeepCopyInto sp h =
     (let out = sp;
          (ms, h1) = Members_DeepCopyInto (ms_Members sp) h;
          out = out\<lparr>ms_Members := ms\<rparr>;
          (bes, h2) = copy_values BackendArr backends_of zero_Backend (ms_Backends sp) h1;
          out = out\<lparr>ms_Backends := bes\<rparr>
      in (out, h2))"

definition GroupSpec_DeepCopy :: "MGroupSpec option \<Rightarrow> ('o, 'l) mem \<Rightarrow> MGroupSpec option \<times> ('o, 'l) mem" where
  "GroupSpec_DeepCopy = copy_pointer GroupSpec_DeepCopyInto"

definition GroupStatus_DeepCopyInto ::
    "Condition \<Rightarrow> (Condition \<Rightarrow> Condition) \<Rightarrow> MGroupStatus \<Rightarrow> ('o, 'l) mem \<Rightarrow> MGroupStatus \<times> ('o, 'l) mem" where
  "GroupStatus_DeepCopyInto zc dc st h =
     (let out = st;
          (us, h1) = copy_values Strings strings_of [] (mt_ReconciledUsers st) h;
          out = out\<lparr>mt_ReconciledUsers := us\<rparr>;
          (cs, h2) = copy_structs ConditionArr conditions_of zc (\<lambda>c h. (dc c, h)) (mt_Conditions st) h1;
          out = out\<lparr>mt_Conditions := cs\<rparr>;
          (bs, h3) = copy_values StatusArr statuses_of zero_BackendStatus (mt_BackendsStatus st) h2;
          out = out\<lparr>mt_BackendsStatus := bs\<rparr>
      in (out, h3))"

definition GroupStatus_DeepCopy ::
    "Condition \<Rightarrow> (Condition \<Rightarrow> Condition) \<Rightarrow> MGroupStatus option \<Rightarrow> ('o, 'l) mem \<Rightarrow> MGroupStatus option \<times> ('o, 'l) mem" where
  "GroupStatus_DeepCopy zc dc = copy_pointer (GroupStatus_DeepCopyInto zc dc)"

text \<open>The operations of the library on the metadata of objects and lists, with the zero values of its types.\<close>

record ('o, 'p, 'l) meta =
  zero_Condition :: Condition
  zero_ObjectMeta :: 'o
  Condition_DeepCopy :: "Condition \<Rightarrow> Condition"
  ObjectMeta_DeepCopy :: "'o \<Rightarrow> ('o, 'l) mem \<Rightarrow> 'o \<times> ('o, 'l) mem"
  ListMeta_DeepCopy :: "'p \<Rightarrow> ('o, 'l) mem \<Rightarrow> 'p \<times> ('o, 'l) mem"

definition Group_DeepCopyInto :: "('o, 'p, 'l) meta \<Rightarrow> 'o MGroup \<Rightarrow> ('o, 'l) mem \<Rightarrow> 'o MGroup \<times> ('o, 'l) mem" where
  "Group_DeepCopyInto L g h =
     (let out = g;
          out = out\<lparr>mg_TypeMeta := mg_TypeMeta g\<rparr>;
          (om, h1) = ObjectMeta_DeepCopy L (mg_ObjectMeta g) h;
          out = out\<lparr>mg_ObjectMeta := om\<rparr>;
          (sp, h2) = GroupSpec_DeepCopyInto (mg_Spec g) h1;
          out = out\<lparr>mg_Spec := sp\<rparr>;
          (st, h3) = GroupStatus_DeepCopyInto (zero_Condition L) (Condition_DeepCopy L) (mg_Status g) h2;
          out = out\<lparr>mg_Status := st\<rparr>
      in (out, h3))"

definition Group_DeepCopy :: "('o, 'p, 'l) meta \<Rightarrow> 'o MGroup option \<Rightarrow> ('o, 'l) mem \<Rightarrow> 'o MGroup option \<times> ('o, 'l) mem" where
  "Group_DeepCopy L = copy_pointer (Group_DeepCopyInto L)"

definition GroupList_DeepCopyInto :: "('o, 'p, 'l) meta \<Rightarrow> 'p MGroupList \<Rightarrow> ('o, 'l) mem \<Rightarrow> 'p MGroupList \<times> ('o, 'l) mem" where
  "GroupList_DeepCopyInto L gl h =
     (let out = gl;
          out = out\<lparr>ml_TypeMeta := ml_TypeMeta gl\<rparr>;
          (lm, h1) = ListMeta_DeepCopy L (ml_ListMeta gl) h;
          out = out\<lparr>ml_ListMeta := lm\<rparr>;
          (gs, h2) = copy_structs GroupArr groups_of (zero_MGroup (zero_ObjectMeta L)) (Group_DeepCopyInto L) (ml_Items gl) h1;
          out = out\<lparr>ml_Items := gs\<rparr>
      in (out, h2))"

definition GroupList_DeepCopy ::
    "('o, 'p, 'l) meta \<Rightarrow> 'p MGroupList option \<Rightarrow> ('o, 'l) mem \<Rightarrow> 'p MGroupList option \<times> ('o, 'l) mem" where
  "GroupList_DeepCopy L = copy_pointer (GroupList_DeepCopyInto L)"

text \<open>\<^verbatim>\<open>DeepCopyObject\<close>: a value of the interface \<^verbatim>\<open>runtime.Object\<close>, nil when the copy is.\<close>

datatype ('o, 'p) Object = GroupObject "'o MGroup" | GroupListObject "'p MGroupList"

definition Group_DeepCopyObject ::
    "('o, 'p, 'l) meta \<Rightarrow> 'o MGroup option \<Rightarrow> ('o, 'l) mem \<Rightarrow> ('o, 'p) Object option \<times> ('o, 'l) mem" where
  "Group_DeepCopyObject L p h = (case Group_DeepCopy L p h of (Some c, h1) \<Rightarrow> (Some (GroupObject c), h1) | (None, h1) \<Rightarrow> (None, h1))"

definition GroupList_DeepCopyObject ::
    "('o, 'p, 'l) meta \<Rightarrow> 'p MGroupList option \<Rightarrow> ('o, 'l) mem \<Rightarrow> ('o, 'p) Object option \<times> ('o, 'l) mem" where
  "GroupList_DeepCopyObject L p h =
     (case GroupList_DeepCopy L p h of (Some c, h1) \<Rightarrow> (Some (GroupListObject c), h1) | (None, h1) \<Rightarrow> (None, h1))"

section \<open>Copies that are local to new memory\<close>

text \<open>Later memory: everything that was allocated is still there and unchanged.\<close>

definition mem_extends :: "('o, 'l) mem \<Rightarrow> ('o, 'l) mem \<Rightarrow> bool" where
  "mem_extends h h' \<longleftrightarrow> limit h \<le> limit h' \<and> (\<forall>a < limit h. cells h' a = cells h a)"

text \<open>What a value shows depends only on the cells from \<open>lo\<close> to below \<open>hi\<close>.\<close>

definition local_to :: "nat \<Rightarrow> nat \<Rightarrow> (('o, 'l) mem \<Rightarrow> 'a \<Rightarrow> 'v) \<Rightarrow> ('o, 'l) mem \<Rightarrow> 'a \<Rightarrow> bool" where
  "local_to lo hi v h x \<longleftrightarrow> (\<forall>h'. (\<forall>a. lo \<le> a \<and> a < hi \<longrightarrow> cells h' a = cells h a) \<longrightarrow> v h' x = v h x)"

definition copied :: "(('o, 'l) mem \<Rightarrow> 'a \<Rightarrow> 'v) \<Rightarrow> ('o, 'l) mem \<Rightarrow> 'a \<Rightarrow> 'a \<times> ('o, 'l) mem \<Rightarrow> bool" where
  "copied v h x r \<longleftrightarrow> mem_extends h (snd r) \<and> v (snd r) (fst r) = v h x \<and> local_to (limit h) (limit (snd r)) v (snd r) (fst r)"

text \<open>
  A deep copier, on the values for which \<open>ok\<close> holds: they live in allocated memory, and the copy shows the same
  and lives in memory of its own.
\<close>

definition deep_copier ::
    "(('o, 'l) mem \<Rightarrow> 'a \<Rightarrow> bool) \<Rightarrow> (('o, 'l) mem \<Rightarrow> 'a \<Rightarrow> 'v) \<Rightarrow> ('a \<Rightarrow> ('o, 'l) mem \<Rightarrow> 'a \<times> ('o, 'l) mem) \<Rightarrow> bool" where
  "deep_copier ok v into \<longleftrightarrow>
     (\<forall>h x. ok h x \<longrightarrow> local_to 0 (limit h) v h x \<and> (\<forall>h'. mem_extends h h' \<longrightarrow> ok h' x) \<and> copied v h x (into x h))"

lemma mem_extends_refl [simp]: "mem_extends h h"
  by (simp add: mem_extends_def)

lemma mem_extends_trans [trans]: "mem_extends h h1 \<Longrightarrow> mem_extends h1 h2 \<Longrightarrow> mem_extends h h2"
  by (auto simp: mem_extends_def)

lemma mem_extends_alloc: "alloc x h = (b, h1) \<Longrightarrow> mem_extends h h1 \<and> b = limit h \<and> limit h1 = limit h + 1 \<and> cells h1 b = x"
  by (auto simp: alloc_def mem_extends_def)

lemma mem_extends_write: "mem_extends h h1 \<Longrightarrow> limit h \<le> b \<Longrightarrow> mem_extends h (write_cell b x h1)"
  by (auto simp: mem_extends_def write_cell_def)

lemma write_cell_simps [simp]: "limit (write_cell b x h) = limit h" "cells (write_cell b x h) = (cells h)(b := x)"
  by (simp_all add: write_cell_def)

lemma local_toD: "local_to lo hi v h x \<Longrightarrow> (\<And>a. lo \<le> a \<Longrightarrow> a < hi \<Longrightarrow> cells h' a = cells h a) \<Longrightarrow> v h' x = v h x"
  unfolding local_to_def by blast

lemma local_to_same:
  assumes "local_to lo hi v h x" and "\<And>a. lo \<le> a \<Longrightarrow> a < hi \<Longrightarrow> cells h' a = cells h a" and "lo' \<le> lo" and "hi \<le> hi'"
  shows "local_to lo' hi' v h' x"
proof -
  have "v h'' x = v h' x" if "\<forall>a. lo' \<le> a \<and> a < hi' \<longrightarrow> cells h'' a = cells h' a" for h''
  proof -
    from that assms(2-4) have "v h'' x = v h x" by (intro local_toD [OF assms(1)]) auto
    moreover from assms(2) have "v h' x = v h x" by (rule local_toD [OF assms(1)])
    ultimately show ?thesis by simp
  qed
  then show ?thesis unfolding local_to_def by blast
qed

lemma local_extends: "local_to 0 (limit h) v h x \<Longrightarrow> mem_extends h h' \<Longrightarrow> v h' x = v h x \<and> local_to 0 (limit h') v h' x"
  using local_toD [of 0 "limit h" v h x h'] local_to_same [of 0 "limit h" v h x h' 0 "limit h'"] by (simp add: mem_extends_def)

lemma local_constant [simp]: "local_to lo hi (\<lambda>_. f) h x"
  by (simp add: local_to_def)

lemma copied_later: "copied v h x (y, h1) \<Longrightarrow> mem_extends h1 h2 \<Longrightarrow> copied v h x (y, h2)"
  using local_toD [of "limit h" "limit h1" v h1 y h2] local_to_same [of "limit h" "limit h1" v h1 y h2 "limit h" "limit h2"]
  by (auto simp: copied_def mem_extends_def)

lemma copied_earlier: "copied v h1 x r \<Longrightarrow> mem_extends h h1 \<Longrightarrow> local_to 0 (limit h) v h x \<Longrightarrow> copied v h x r"
  using local_extends [of h v x h1] mem_extends_trans [of h h1 "snd r"]
    local_to_same [of "limit h1" "limit (snd r)" v "snd r" "fst r" "snd r" "limit h" "limit (snd r)"]
  by (simp add: copied_def) (simp add: mem_extends_def)

lemma copied_pure [simp]: "copied (\<lambda>_. f) h x (y, h') \<longleftrightarrow> mem_extends h h' \<and> f y = f x"
  by (simp add: copied_def)

lemma local_toI: "(\<And>h'. (\<And>a. lo \<le> a \<Longrightarrow> a < hi \<Longrightarrow> cells h' a = cells h a) \<Longrightarrow> v h' x = v h x) \<Longrightarrow> local_to lo hi v h x"
  unfolding local_to_def by blast

lemma deep_copierD:
  "deep_copier ok v into \<Longrightarrow> ok h x \<Longrightarrow> local_to 0 (limit h) v h x"
  "deep_copier ok v into \<Longrightarrow> ok h x \<Longrightarrow> mem_extends h h' \<Longrightarrow> ok h' x"
  "deep_copier ok v into \<Longrightarrow> ok h x \<Longrightarrow> copied v h x (into x h)"
  by (simp_all add: deep_copier_def)

section \<open>What slices and structs show\<close>

definition slice_view :: "(('o, 'l) cell \<Rightarrow> 'a list) \<Rightarrow> (('o, 'l) mem \<Rightarrow> 'a \<Rightarrow> 'v) \<Rightarrow> ('o, 'l) mem \<Rightarrow> slice_ref \<Rightarrow> 'v list option" where
  "slice_view elems v h s = (case s of NilRef \<Rightarrow> None | SliceRef a off n _ \<Rightarrow> Some (map (v h) (take n (drop off (elems (cells h a))))))"

text \<open>A slice of allocated memory whose elements are within the array and in order themselves.\<close>

definition slice_ok :: "(('o, 'l) cell \<Rightarrow> 'a list) \<Rightarrow> (('o, 'l) mem \<Rightarrow> 'a \<Rightarrow> bool) \<Rightarrow> ('o, 'l) mem \<Rightarrow> slice_ref \<Rightarrow> bool" where
  "slice_ok elems ok h s = (case s of NilRef \<Rightarrow> True
     | SliceRef a off n _ \<Rightarrow> a < limit h \<and> off + n \<le> length (elems (cells h a)) \<and> (\<forall>x \<in> set (take n (drop off (elems (cells h a)))). ok h x))"

abbreviation any_ok :: "('o, 'l) mem \<Rightarrow> 'a \<Rightarrow> bool" where "any_ok \<equiv> \<lambda>_ _. True"

abbreviation itself :: "('o, 'l) mem \<Rightarrow> 'a \<Rightarrow> 'a" where "itself \<equiv> \<lambda>_ x. x"

definition Members_view :: "('o, 'l) mem \<Rightarrow> MMembers \<Rightarrow> string list option \<times> string list option" where
  "Members_view h m = (slice_view strings_of itself h (mm_Groups m), slice_view strings_of itself h (mm_Users m))"

definition GroupSpec_view :: "('o, 'l) mem \<Rightarrow> MGroupSpec \<Rightarrow> string \<times> (string list option \<times> string list option) \<times> Backend list option" where
  "GroupSpec_view h sp = (ms_GroupName sp, Members_view h (ms_Members sp), slice_view backends_of itself h (ms_Backends sp))"

definition GroupStatus_view ::
    "('o, 'l) mem \<Rightarrow> MGroupStatus \<Rightarrow> string list option \<times> Condition list option \<times> 64 word \<times> BackendStatus list option" where
  "GroupStatus_view h st = (slice_view strings_of itself h (mt_ReconciledUsers st), slice_view conditions_of itself h (mt_Conditions st),
     mt_LastAppliedGeneration st, slice_view statuses_of itself h (mt_BackendsStatus st))"

definition Group_view where
  "Group_view vm h g = (mg_TypeMeta g, vm h (mg_ObjectMeta g), GroupSpec_view h (mg_Spec g), GroupStatus_view h (mg_Status g))"

definition GroupList_view where
  "GroupList_view vm vl h gl = (ml_TypeMeta gl, vl h (ml_ListMeta gl), slice_view groups_of (Group_view vm) h (ml_Items gl))"

definition Members_ok :: "('o, 'l) mem \<Rightarrow> MMembers \<Rightarrow> bool" where
  "Members_ok h m \<longleftrightarrow> slice_ok strings_of any_ok h (mm_Groups m) \<and> slice_ok strings_of any_ok h (mm_Users m)"

definition GroupSpec_ok :: "('o, 'l) mem \<Rightarrow> MGroupSpec \<Rightarrow> bool" where
  "GroupSpec_ok h sp \<longleftrightarrow> Members_ok h (ms_Members sp) \<and> slice_ok backends_of any_ok h (ms_Backends sp)"

definition GroupStatus_ok :: "('o, 'l) mem \<Rightarrow> MGroupStatus \<Rightarrow> bool" where
  "GroupStatus_ok h st \<longleftrightarrow> slice_ok strings_of any_ok h (mt_ReconciledUsers st) \<and> slice_ok conditions_of any_ok h (mt_Conditions st) \<and>
     slice_ok statuses_of any_ok h (mt_BackendsStatus st)"

definition Group_ok where
  "Group_ok okm h g \<longleftrightarrow> okm h (mg_ObjectMeta g) \<and> GroupSpec_ok h (mg_Spec g) \<and> GroupStatus_ok h (mg_Status g)"

definition GroupList_ok where
  "GroupList_ok okm okl h gl \<longleftrightarrow> okl h (ml_ListMeta gl) \<and> slice_ok groups_of (Group_ok okm) h (ml_Items gl)"

section \<open>The copies of slices\<close>

lemma slice_local:
  assumes "slice_ok elems ok h s" and "\<And>x. ok h x \<Longrightarrow> local_to 0 (limit h) v h x"
  shows "local_to 0 (limit h) (slice_view elems v) h s"
proof -
  have "slice_view elems v h' s = slice_view elems v h s" if "\<forall>a. 0 \<le> a \<and> a < limit h \<longrightarrow> cells h' a = cells h a" for h'
  proof (cases s)
    case (SliceRef a off n c)
    with assms(1) that have "cells h' a = cells h a" "\<forall>x \<in> set (take n (drop off (elems (cells h a)))). ok h x" by (simp_all add: slice_ok_def)
    moreover have "v h' x = v h x" if "ok h x" for x using assms(2) [OF that] by (rule local_toD) (simp add: \<open>\<forall>a. _\<close>)
    ultimately show ?thesis by (simp add: SliceRef slice_view_def)
  qed (simp add: slice_view_def)
  then show ?thesis unfolding local_to_def by blast
qed

lemma slice_ok_extends:
  assumes "slice_ok elems ok h s" and "mem_extends h h'" and "\<And>x. ok h x \<Longrightarrow> ok h' x"
  shows "slice_ok elems ok h' s"
  using assms by (auto simp: slice_ok_def mem_extends_def split: slice_ref.splits)

lemma copier_values:
  assumes "\<And>xs. elems (arr xs) = xs"
  shows "deep_copier (slice_ok elems any_ok) (slice_view elems itself) (copy_values arr elems zero)"
proof -
  have "copied (slice_view elems itself) h s (copy_values arr elems zero s h)" if ok: "slice_ok elems any_ok h s" for h s
  proof (cases s)
    case (SliceRef a off n c)
    with ok have "a < limit h" "length (take n (drop off (elems (cells h a)))) = n" by (auto simp: slice_ok_def)
    then show ?thesis
      by (simp add: SliceRef copied_def copy_values_def alloc_def slice_view_def assms mem_extends_def local_to_def write_cell_def)
  qed (simp add: copied_def copy_values_def slice_view_def local_to_def)
  then show ?thesis unfolding deep_copier_def by (intro allI impI conjI) (auto intro!: slice_local intro: slice_ok_extends)
qed

text \<open>The elements copied so far show what the originals do, in memory after the new array.\<close>

definition loop_done :: "(('o, 'l) cell \<Rightarrow> 'a list) \<Rightarrow> (('o, 'l) mem \<Rightarrow> 'a \<Rightarrow> 'v) \<Rightarrow> ('o, 'l) mem \<Rightarrow> 'a list \<Rightarrow> nat \<Rightarrow> nat \<Rightarrow> ('o, 'l) mem \<Rightarrow> bool" where
  "loop_done elems v h0 src b k h \<longleftrightarrow>
     mem_extends h0 h \<and> limit h0 \<le> b \<and> b < limit h \<and> length (elems (cells h b)) = length src \<and>
     (\<forall>j < k. v h (elems (cells h b) ! j) = v h0 (src ! j) \<and> local_to (b + 1) (limit h) v h (elems (cells h b) ! j))"

lemma loop_step:
  assumes "deep_copier ok v into" and "\<And>xs. elems (arr xs) = xs" and "k < length src" and "ok h0 (src ! k)"
    and "into (src ! k) h = (y, h1)" and "loop_done elems v h0 src b k h"
  shows "loop_done elems v h0 src b (Suc k) (write_cell b (arr ((elems (cells h1 b))[k := y])) h1)"
proof -
  note loop = assms(6) [unfolded loop_done_def]
  let ?h2 = "write_cell b (arr ((elems (cells h1 b))[k := y])) h1"
  from loop have ext: "mem_extends h0 h" by simp
  note okh = deep_copierD(2) [OF assms(1,4) ext]
  from deep_copierD(3) [OF assms(1) okh] assms(5) have y: "mem_extends h h1" "v h1 y = v h (src ! k)" "local_to (limit h) (limit h1) v h1 y"
    by (simp_all add: copied_def)
  from local_extends [OF deep_copierD(1) [OF assms(1,4)] ext] have x: "v h (src ! k) = v h0 (src ! k)" by simp
  from y(1) loop have b: "cells h1 b = cells h b" "limit h \<le> limit h1" "b < limit h" by (simp_all add: mem_extends_def)
  have old: "v ?h2 z = v h z \<and> local_to (b + 1) (limit ?h2) v ?h2 z" if "local_to (b + 1) (limit h) v h z" for z
  proof
    have same: "cells ?h2 a = cells h a" if "b + 1 \<le> a" "a < limit h" for a using that y(1) by (simp add: mem_extends_def)
    then show "v ?h2 z = v h z" by (rule local_toD [OF that])
    from that same b(2) show "local_to (b + 1) (limit ?h2) v ?h2 z" by (elim local_to_same) simp_all
  qed
  have "v ?h2 y = v h1 y" using y(3) by (rule local_toD) (use b in simp)
  moreover have "local_to (b + 1) (limit ?h2) v ?h2 y" using y(3) by (rule local_to_same) (use b in simp_all)
  moreover have "mem_extends h0 ?h2" using mem_extends_trans [OF ext y(1)] loop by (intro mem_extends_write) simp_all
  ultimately show ?thesis
    using loop old b assms(3) x y(2) by (auto simp: loop_done_def assms(2) less_Suc_eq)
qed

lemma copy_loop_done:
  assumes "deep_copier ok v into" and "\<And>xs. elems (arr xs) = xs"
    and "a < limit h0" and "src = take n (drop off (elems (cells h0 a)))" and "length src = n" and "\<forall>x \<in> set src. ok h0 x"
  shows "k \<le> n \<Longrightarrow> loop_done elems v h0 src b k h \<Longrightarrow> loop_done elems v h0 src b n (copy_loop arr elems into a off b [k..<n] h)"
proof (induction "n - k" arbitrary: k h)
  case (Suc d)
  then have k: "k < n" "[k..<n] = k # [Suc k..<n]" by (simp_all add: upt_conv_Cons)
  from Suc.prems(2) assms(3) have "cells h a = cells h0 a" by (simp add: loop_done_def mem_extends_def)
  moreover have "elems (cells h0 a) ! (off + k) = src ! k" using assms(4,5) k(1) by auto
  ultimately have x: "elems (cells h a) ! (off + k) = src ! k" by simp
  obtain y h1 where into: "into (src ! k) h = (y, h1)" by (rule prod.exhaust)
  from k(1) assms(5,6) have "loop_done elems v h0 src b (Suc k) (write_cell b (arr ((elems (cells h1 b))[k := y])) h1)"
    by (intro loop_step [OF assms(1,2) _ _ into Suc.prems(2)]) auto
  from Suc.hyps(1) [OF _ _ this] Suc.hyps(2) k show ?case by (simp add: x into)
qed simp

lemma copier_structs:
  assumes "deep_copier ok v into" and "\<And>xs. elems (arr xs) = xs"
  shows "deep_copier (slice_ok elems ok) (slice_view elems v) (copy_structs arr elems zero into)"
proof -
  have "copied (slice_view elems v) h s (copy_structs arr elems zero into s h)" if ok: "slice_ok elems ok h s" for h s
  proof (cases s)
    case (SliceRef a off n c)
    let ?src = "take n (drop off (elems (cells h a)))" and ?h1 = "snd (alloc (arr (replicate n zero)) h)"
    from SliceRef ok have src: "a < limit h" "length ?src = n" "\<forall>x \<in> set ?src. ok h x" by (auto simp: slice_ok_def)
    have "loop_done elems v h ?src (limit h) 0 ?h1" using src(2) by (simp add: loop_done_def alloc_def assms(2) mem_extends_def)
    from copy_loop_done [OF assms src(1) refl src(2,3) _ this]
    have "loop_done elems v h ?src (limit h) n (copy_loop arr elems into a off (limit h) [0..<n] ?h1)" (is "loop_done _ _ _ _ _ _ ?h2") by simp
    then have l: "mem_extends h ?h2" "limit h < limit ?h2" "length (elems (cells ?h2 (limit h))) = n"
      "\<And>j. j < n \<Longrightarrow> v ?h2 (elems (cells ?h2 (limit h)) ! j) = v h (?src ! j)"
      "\<And>j. j < n \<Longrightarrow> local_to (limit h + 1) (limit ?h2) v ?h2 (elems (cells ?h2 (limit h)) ! j)"
      unfolding loop_done_def using src(2) by simp_all
    have res: "copy_structs arr elems zero into s h = (SliceRef (limit h) 0 n n, ?h2)" by (simp add: SliceRef copy_structs_def alloc_def)
    have "map (v ?h2) (elems (cells ?h2 (limit h))) = map (v h) ?src" using l(3,4) src(2) by (intro nth_equalityI) simp_all
    then have "slice_view elems v ?h2 (SliceRef (limit h) 0 n n) = slice_view elems v h s" using l(3) by (simp add: slice_view_def SliceRef)
    moreover have "slice_view elems v h' (SliceRef (limit h) 0 n n) = slice_view elems v ?h2 (SliceRef (limit h) 0 n n)"
      if "\<forall>a. limit h \<le> a \<and> a < limit ?h2 \<longrightarrow> cells h' a = cells ?h2 a" for h'
    proof -
      have "v h' (elems (cells ?h2 (limit h)) ! j) = v ?h2 (elems (cells ?h2 (limit h)) ! j)" if "j < n" for j
        using l(5) [OF that] by (rule local_toD) (use \<open>\<forall>a. _\<close> in simp)
      then have "map (v h') (elems (cells ?h2 (limit h))) = map (v ?h2) (elems (cells ?h2 (limit h)))"
        using l(3) by (intro nth_equalityI) simp_all
      moreover from that l(2) have "cells h' (limit h) = cells ?h2 (limit h)" by simp
      ultimately show ?thesis using l(3) by (simp add: slice_view_def)
    qed
    then have "local_to (limit h) (limit ?h2) (slice_view elems v) ?h2 (SliceRef (limit h) 0 n n)" unfolding local_to_def by blast
    ultimately show ?thesis using l(1) by (simp only: res copied_def fst_conv snd_conv simp_thms)
  qed (simp add: copied_def copy_structs_def slice_view_def local_to_def)
  then show ?thesis unfolding deep_copier_def
    by (intro allI impI conjI) (auto intro: slice_local slice_ok_extends deep_copierD [OF assms(1)])
qed

section \<open>The copies of structs\<close>

lemma copier_run:
  assumes "deep_copier ok v into" and "ok h x" and "mem_extends h h1" and "into x h1 = (y, h2)"
  shows "copied v h x (y, h2)" and "mem_extends h1 h2" and "mem_extends h h2"
proof -
  from deep_copierD(3) [OF assms(1) deep_copierD(2) [OF assms(1-3)]] assms(4) have c: "copied v h1 x (y, h2)" by simp
  then show e: "mem_extends h1 h2" by (simp add: copied_def)
  from c show "copied v h x (y, h2)" by (rule copied_earlier [OF _ assms(3) deep_copierD(1) [OF assms(1,2)]])
  from assms(3) e show "mem_extends h h2" by (rule mem_extends_trans)
qed

text \<open>A struct whose three parts are copied one after the other, and which shows a function of what they show.\<close>

lemma copier_triple:
  assumes "deep_copier ok1 v1 into1" and "deep_copier ok2 v2 into2" and "deep_copier ok3 v3 into3"
    and into: "\<And>x h. into x h = (let (a, h1) = into1 (p x) h; (b, h2) = into2 (q x) h1; (c, h3) = into3 (s x) h2 in (mk x a b c, h3))"
    and sel: "\<And>x a b c. p (mk x a b c) = a" "\<And>x a b c. q (mk x a b c) = b" "\<And>x a b c. s (mk x a b c) = c"
    and view: "\<And>h x. view h x = f (v1 h (p x)) (v2 h (q x)) (v3 h (s x)) (r x)" and keep: "\<And>x a b c. r (mk x a b c) = r x"
    and ok: "\<And>h x. ok h x \<longleftrightarrow> ok1 h (p x) \<and> ok2 h (q x) \<and> ok3 h (s x)"
  shows "deep_copier ok view into"
proof -
  have loc: "local_to lo hi view h x" if "local_to lo hi v1 h (p x)" "local_to lo hi v2 h (q x)" "local_to lo hi v3 h (s x)" for lo hi h x
  proof (rule local_toI)
    fix h' :: "('a, 'b) mem"
    assume "\<And>a. lo \<le> a \<Longrightarrow> a < hi \<Longrightarrow> cells h' a = cells h a"
    with that have "v1 h' (p x) = v1 h (p x)" "v2 h' (q x) = v2 h (q x)" "v3 h' (s x) = v3 h (s x)" by (auto intro: local_toD)
    then show "view h' x = view h x" by (simp add: view)
  qed
  have "copied view h x (into x h)" if "ok h x" for h x
  proof -
    from that have o: "ok1 h (p x)" "ok2 h (q x)" "ok3 h (s x)" by (simp_all add: ok)
    obtain a h1 where 1: "into1 (p x) h = (a, h1)" by (rule prod.exhaust)
    obtain b h2 where 2: "into2 (q x) h1 = (b, h2)" by (rule prod.exhaust)
    obtain c h3 where 3: "into3 (s x) h2 = (c, h3)" by (rule prod.exhaust)
    note c1 = copier_run [OF assms(1) o(1) mem_extends_refl 1]
    note c2 = copier_run [OF assms(2) o(2) c1(3) 2]
    note c3 = copier_run [OF assms(3) o(3) c2(3) 3]
    have "copied v1 h (p x) (a, h3)" "copied v2 h (q x) (b, h3)"
      using copied_later [OF c1(1) mem_extends_trans [OF c2(2) c3(2)]] copied_later [OF c2(1) c3(2)] by simp_all
    then show ?thesis using c3(1) loc [of "limit h" "limit h3" h3 "mk x a b c"]
      by (simp add: into 1 2 3 copied_def sel view keep)
  qed
  moreover have "ok h' x" if "ok h x" "mem_extends h h'" for h h' x
    using that deep_copierD(2) [OF assms(1)] deep_copierD(2) [OF assms(2)] deep_copierD(2) [OF assms(3)] by (auto simp: ok)
  moreover have "local_to 0 (limit h) view h x" if "ok h x" for h x
    using that by (intro loc deep_copierD(1) [OF assms(1)] deep_copierD(1) [OF assms(2)] deep_copierD(1) [OF assms(3)]) (simp_all add: ok)
  ultimately show ?thesis by (simp add: deep_copier_def)
qed

lemma copier_itself: "deep_copier any_ok itself (\<lambda>x h. (f x, h))" if "\<And>x. f x = x"
  by (simp add: deep_copier_def local_to_def copied_def that)

lemma copier_pair:
  assumes "deep_copier ok1 v1 into1" and "deep_copier ok2 v2 into2"
    and "\<And>x h. into x h = (let (a, h1) = into1 (p x) h; (b, h2) = into2 (q x) h1 in (mk x a b, h2))"
    and "\<And>x a b. p (mk x a b) = a" and "\<And>x a b. q (mk x a b) = b"
    and "\<And>h x. view h x = f (v1 h (p x)) (v2 h (q x)) (r x)" and "\<And>x a b. r (mk x a b) = r x"
    and "\<And>h x. ok h x \<longleftrightarrow> ok1 h (p x) \<and> ok2 h (q x)"
  shows "deep_copier ok view into"
  by (rule copier_triple [where p = p and q = q and r = r and s = "\<lambda>_. ()" and mk = "\<lambda>x a b _. mk x a b" and f = "\<lambda>a b _ d. f a b d",
        OF assms(1,2) copier_itself [of "\<lambda>x. x"]]) (simp_all add: assms(3-8))

lemmas copier_strings = copier_values [of strings_of Strings, simplified]
lemmas copier_backends = copier_values [of backends_of BackendArr, simplified]
lemmas copier_statuses = copier_values [of statuses_of StatusArr, simplified]

lemma copier_Members: "deep_copier Members_ok Members_view Members_DeepCopyInto"
  by (rule copier_pair [where p = mm_Groups and q = mm_Users and r = "\<lambda>_. ()" and f = "\<lambda>a b _. (a, b)" and
        mk = "\<lambda>x a b. x\<lparr>mm_Groups := a, mm_Users := b\<rparr>", OF copier_strings copier_strings])
    (simp_all add: Members_DeepCopyInto_def Members_view_def Members_ok_def)

lemma copier_GroupSpec: "deep_copier GroupSpec_ok GroupSpec_view GroupSpec_DeepCopyInto"
  by (rule copier_pair [where p = ms_Members and q = ms_Backends and r = ms_GroupName and f = "\<lambda>a b c. (c, a, b)" and
        mk = "\<lambda>x a b. x\<lparr>ms_Members := a, ms_Backends := b\<rparr>", OF copier_Members copier_backends])
    (simp_all add: GroupSpec_DeepCopyInto_def GroupSpec_view_def GroupSpec_ok_def)

lemma copier_GroupStatus:
  assumes "\<And>c. dc c = c"
  shows "deep_copier GroupStatus_ok GroupStatus_view (GroupStatus_DeepCopyInto zc dc)"
  by (rule copier_triple [where p = mt_ReconciledUsers and q = mt_Conditions and s = mt_BackendsStatus and r = mt_LastAppliedGeneration and
        f = "\<lambda>a b c d. (a, b, d, c)" and mk = "\<lambda>x a b c. x\<lparr>mt_ReconciledUsers := a, mt_Conditions := b, mt_BackendsStatus := c\<rparr>",
        OF copier_strings copier_structs [OF copier_itself [OF assms]] copier_statuses])
    (simp_all add: GroupStatus_DeepCopyInto_def GroupStatus_view_def GroupStatus_ok_def)

lemma copier_Group:
  assumes "\<And>c. Condition_DeepCopy L c = c" and "deep_copier okm vm (ObjectMeta_DeepCopy L)"
  shows "deep_copier (Group_ok okm) (Group_view vm) (Group_DeepCopyInto L)"
  by (rule copier_triple [where p = mg_ObjectMeta and q = mg_Spec and s = mg_Status and r = mg_TypeMeta and
        f = "\<lambda>a b c d. (d, a, b, c)" and mk = "\<lambda>x a b c. x\<lparr>mg_ObjectMeta := a, mg_Spec := b, mg_Status := c\<rparr>",
        OF assms(2) copier_GroupSpec copier_GroupStatus [OF assms(1)]])
    (simp_all add: Group_DeepCopyInto_def Group_view_def Group_ok_def)

lemma copier_GroupList:
  assumes "\<And>c. Condition_DeepCopy L c = c" and "deep_copier okm vm (ObjectMeta_DeepCopy L)" and "deep_copier okl vl (ListMeta_DeepCopy L)"
  shows "deep_copier (GroupList_ok okm okl) (GroupList_view vm vl) (GroupList_DeepCopyInto L)"
  by (rule copier_pair [where p = ml_ListMeta and q = ml_Items and r = ml_TypeMeta and f = "\<lambda>a b c. (c, a, b)" and
        mk = "\<lambda>x a b. x\<lparr>ml_ListMeta := a, ml_Items := b\<rparr>", OF assms(3) copier_structs [OF copier_Group [OF assms(1,2)]]])
    (simp_all add: GroupList_DeepCopyInto_def GroupList_view_def GroupList_ok_def)

section \<open>Main results\<close>

text \<open>A copy that shows the same, whatever happens to the memory of the original, and does not disturb it.\<close>

definition independent :: "(('o, 'l) mem \<Rightarrow> 'a \<Rightarrow> 'v) \<Rightarrow> ('o, 'l) mem \<Rightarrow> 'a \<Rightarrow> 'a \<Rightarrow> ('o, 'l) mem \<Rightarrow> bool" where
  "independent v h x y h' \<longleftrightarrow>
     v h' y = v h x \<and> v h' x = v h x \<and>
     (\<forall>h2. (\<forall>a \<ge> limit h. cells h2 a = cells h' a) \<longrightarrow> v h2 y = v h x) \<and>
     (\<forall>h2. (\<forall>a < limit h. cells h2 a = cells h' a) \<longrightarrow> v h2 x = v h x)"

lemma copier_independent:
  assumes "deep_copier ok v into" and "ok h x" and "into x h = (y, h')"
  shows "independent v h x y h'"
proof -
  from deep_copierD(1,3) [OF assms(1,2)] assms(3) have c: "mem_extends h h'" "v h' y = v h x" "local_to (limit h) (limit h') v h' y"
    and x: "local_to 0 (limit h) v h x" by (simp_all add: copied_def)
  have "v h2 y = v h x" if "\<forall>a \<ge> limit h. cells h2 a = cells h' a" for h2
    using local_toD [OF c(3), of h2] c(2) that by simp
  moreover have "v h2 x = v h x" if "\<forall>a < limit h. cells h2 a = cells h' a" for h2
    using local_toD [OF x, of h2] c(1) that by (simp add: mem_extends_def)
  ultimately show ?thesis using c local_extends [OF x c(1)] by (simp add: independent_def)
qed

theorem group_copy_independent:
  assumes "\<And>c. Condition_DeepCopy L c = c" and "deep_copier okm vm (ObjectMeta_DeepCopy L)" and "Group_ok okm h g"
  shows "\<exists>g' h'. Group_DeepCopyObject L (Some g) h = (Some (GroupObject g'), h') \<and> independent (Group_view vm) h g g' h'"
proof -
  obtain g' h' where r: "Group_DeepCopyInto L g h = (g', h')" by (rule prod.exhaust)
  with copier_independent [OF copier_Group [OF assms(1,2)] assms(3) r] show ?thesis
    by (simp add: Group_DeepCopyObject_def Group_DeepCopy_def copy_pointer_def)
qed

text \<open>
  C40: A deep copy of a list of groups shows exactly what the list shows (nil slices stay nil, empty ones stay empty) and shares no
  memory with it: whatever is later written to the memory of the original, the copy still shows
  the same, and whatever is written to the memory of the copy, the original does.  This rests on the
  library's deep copies of its metadata being such copies.
\<close>

theorem list_copy_independent:
  assumes "\<And>c. Condition_DeepCopy L c = c" and "deep_copier okm vm (ObjectMeta_DeepCopy L)" and "deep_copier okl vl (ListMeta_DeepCopy L)"
    and "GroupList_ok okm okl h gl"
  shows "\<exists>gl' h'. GroupList_DeepCopyObject L (Some gl) h = (Some (GroupListObject gl'), h') \<and>
     GroupList_view vm vl h' gl' = GroupList_view vm vl h gl \<and> GroupList_view vm vl h' gl = GroupList_view vm vl h gl \<and>
     (\<forall>h2. (\<forall>a \<ge> limit h. cells h2 a = cells h' a) \<longrightarrow> GroupList_view vm vl h2 gl' = GroupList_view vm vl h gl) \<and>
     (\<forall>h2. (\<forall>a < limit h. cells h2 a = cells h' a) \<longrightarrow> GroupList_view vm vl h2 gl = GroupList_view vm vl h gl)"
proof -
  obtain gl' h' where r: "GroupList_DeepCopyInto L gl h = (gl', h')" by (rule prod.exhaust)
  with copier_independent [OF copier_GroupList [OF assms(1-3)] assms(4) r] show ?thesis
    by (simp add: GroupList_DeepCopyObject_def GroupList_DeepCopy_def copy_pointer_def independent_def)
qed

text \<open>A list of two groups that share one array of users; the metadata of an object is its list of finalizers, that of a list its version.\<close>

definition demo_meta :: "(slice_ref, string, unit) meta" where
  "demo_meta = \<lparr>zero_Condition = waiting_condition 0, zero_ObjectMeta = NilRef, Condition_DeepCopy = \<lambda>c. c,
     ObjectMeta_DeepCopy = copy_values Strings strings_of [], ListMeta_DeepCopy = \<lambda>v h. (v, h)\<rparr>"

definition shared_group :: "string \<Rightarrow> nat \<Rightarrow> slice_ref MGroup" where
  "shared_group n off = (zero_MGroup (SliceRef 2 0 1 1))\<lparr>
     mg_Spec := \<lparr>ms_GroupName = n, ms_Members = \<lparr>mm_Groups = NilRef, mm_Users = SliceRef 0 off 1 2\<rparr>, ms_Backends = SliceRef 3 0 0 0\<rparr>,
     mg_Status := \<lparr>mt_ReconciledUsers = NilRef, mt_Conditions = SliceRef 4 0 1 1, mt_LastAppliedGeneration = 1, mt_BackendsStatus = NilRef\<rparr>\<rparr>"

definition demo_mem :: "(slice_ref, unit) mem" where
  "demo_mem = \<lparr>cells = (\<lambda>a. if a = 0 then Strings [''ann'', ''bob''] else if a = 1 then GroupArr [shared_group ''a'' 0, shared_group ''b'' 1]
                  else if a = 2 then Strings [''f''] else if a = 3 then BackendArr [] else ConditionArr [waiting_condition 5]),
      limit = 5\<rparr>"

definition demo_list :: "string MGroupList" where
  "demo_list = \<lparr>ml_TypeMeta = \<lparr>tm_Kind = ''GroupList'', tm_APIVersion = GroupVersion\<rparr>, ml_ListMeta = ''7'', ml_Items = SliceRef 1 0 2 2\<rparr>"

definition shown_users :: "(slice_ref, unit) mem \<Rightarrow> string MGroupList \<Rightarrow> string list option list option" where
  "shown_users h gl = slice_view groups_of (\<lambda>h g. slice_view strings_of itself h (mm_Users (ms_Members (mg_Spec g)))) h (ml_Items gl)"

lemma shown_users_view:
  "shown_users h gl = map_option (map (\<lambda>(_, _, (_, (_, us), _), _). us)) (snd (snd (GroupList_view vm vl h gl)))"
  by (simp add: shown_users_def GroupList_view_def slice_view_def Group_view_def GroupSpec_view_def Members_view_def split: slice_ref.split)

theorem list_copy_independent_witness:
  "shown_users (write_cell 0 (Strings [''eve'', ''mal'']) demo_mem) demo_list = Some [Some [''eve''], Some [''mal'']] \<and>
   (\<exists>gl' h'. GroupList_DeepCopyObject demo_meta (Some demo_list) demo_mem = (Some (GroupListObject gl'), h') \<and>
     shown_users (write_cell 0 (Strings [''eve'', ''mal'']) h') gl' = Some [Some [''ann''], Some [''bob'']] \<and>
     shown_users (write_cell (limit demo_mem) (Strings []) h') demo_list = Some [Some [''ann''], Some [''bob'']])"
proof -
  let ?v = "slice_view strings_of itself" and ?w = "itself :: (slice_ref, unit) mem \<Rightarrow> string \<Rightarrow> string"
  have ok: "GroupList_ok (slice_ok strings_of any_ok) any_ok demo_mem demo_list"
    by (simp add: GroupList_ok_def demo_list_def demo_mem_def slice_ok_def shared_group_def Group_ok_def GroupSpec_ok_def
        GroupStatus_ok_def Members_ok_def zero_MGroup_def numeral_2_eq_2)
  obtain gl' h' where r: "GroupList_DeepCopyObject demo_meta (Some demo_list) demo_mem = (Some (GroupListObject gl'), h')"
    and copy: "\<forall>h2. (\<forall>a \<ge> limit demo_mem. cells h2 a = cells h' a) \<longrightarrow> GroupList_view ?v ?w h2 gl' = GroupList_view ?v ?w demo_mem demo_list"
    and orig: "\<forall>h2. (\<forall>a < limit demo_mem. cells h2 a = cells h' a) \<longrightarrow> GroupList_view ?v ?w h2 demo_list = GroupList_view ?v ?w demo_mem demo_list"
    using list_copy_independent [of demo_meta "slice_ok strings_of any_ok" ?v any_ok ?w, OF _ _ _ ok]
      copier_strings copier_itself [of "\<lambda>x. x"] by (auto simp: demo_meta_def)
  have "shown_users demo_mem demo_list = Some [Some [''ann''], Some [''bob'']]"
    "shown_users (write_cell 0 (Strings [''eve'', ''mal'']) demo_mem) demo_list = Some [Some [''eve''], Some [''mal'']]"
    by (simp_all add: shown_users_def demo_list_def demo_mem_def slice_view_def shared_group_def zero_MGroup_def numeral_2_eq_2)
  moreover from copy have "shown_users (write_cell 0 (Strings [''eve'', ''mal'']) h') gl' = shown_users demo_mem demo_list"
    by (simp add: shown_users_view [of _ _ ?v ?w] demo_mem_def)
  moreover from orig have "shown_users (write_cell (limit demo_mem) (Strings []) h') demo_list = shown_users demo_mem demo_list"
    by (simp add: shown_users_view [of _ _ ?v ?w])
  ultimately show ?thesis using r by simp
qed

end
