(* ===== verification/Logging.thy ===== *)
theory Logging
  imports Config
begin

text \<open>
  The logger that travels in the context (\<^verbatim>\<open>pkg/logger\<close>): a context is a chain of key-value pairs, keys compare by type and
  value, and the logger is the value under one key, an entry with named fields.  \<open>'v\<close> are the values of fields.
\<close>

section \<open>Definitions\<close>

datatype 'v ctx_value = LogEntry "'v gomap" | OtherValue 'v

text \<open>A key: its type and its string.\<close>

type_synonym ctx_key = "string \<times> string"

datatype 'v go_context = Background | WithValue "'v go_context" ctx_key "'v ctx_value"

fun ctx_Value :: "'v go_context \<Rightarrow> ctx_key \<Rightarrow> 'v ctx_value option" where
  "ctx_Value Background k = None"
| "ctx_Value (WithValue c k' v) k = (if k' = k then Some v else ctx_Value c k)"

definition RequestIdKey :: ctx_key where
  "RequestIdKey = (''logger.contextKey'', ''request_id_ctx'')"

definition RequestId :: string where
  "RequestId = ''request_id''"

text \<open>\<^verbatim>\<open>Entry.WithFields\<close>: a new entry with the fields of the old one, overwritten by the given ones.\<close>

definition WithFields :: "'v gomap \<Rightarrow> 'v gomap \<Rightarrow> 'v gomap" where
  "WithFields data fs = fold (\<lambda>(k, v). AList.update k v) fs data"

definition Logger :: "'v go_context \<Rightarrow> 'v gomap" where
  "Logger ctx = (case ctx_Value ctx RequestIdKey of Some (LogEntry e) \<Rightarrow> e | _ \<Rightarrow> [])"

definition WithRequestId :: "'v go_context \<Rightarrow> 'v \<Rightarrow> 'v go_context" where
  "WithRequestId ctx requestId = WithValue ctx RequestIdKey (LogEntry (WithFields (Logger ctx) [(RequestId, requestId)]))"

definition AddValueToContextLogger :: "'v go_context \<Rightarrow> string \<Rightarrow> 'v \<Rightarrow> 'v go_context" where
  "AddValueToContextLogger ctx key v = (let log = Logger ctx in WithValue ctx RequestIdKey (LogEntry (WithFields log [(key, v)])))"

datatype level = DebugLevel | InfoLevel

text \<open>The value of \<^verbatim>\<open>strconv.ParseBool\<close> with an error is false.\<close>

definition getLevel :: "env \<Rightarrow> os \<Rightarrow> level" where
  "getLevel E W =
     (let debugMode = (case ParseBool E (Getenv W ''DEBUG_MODE'') of Inr b \<Rightarrow> b | Inl _ \<Rightarrow> False)
      in if debugMode then DebugLevel else InfoLevel)"

record std_logger =
  sl_Formatter :: string
  sl_Out :: string
  sl_Level :: level

definition updateLog :: "env \<Rightarrow> os \<Rightarrow> std_logger \<Rightarrow> std_logger" where
  "updateLog E W log = (log\<lparr>sl_Formatter := ''JSONFormatter'', sl_Out := ''stdout''\<rparr>)\<lparr>sl_Level := getLevel E W\<rparr>"

section \<open>The fields of a context's logger\<close>

lemma Logger_WithRequestId: "map_of (Logger (WithRequestId ctx i)) = (map_of (Logger ctx))(RequestId \<mapsto> i)"
  by (simp add: Logger_def WithRequestId_def WithFields_def gomap_simps)

lemma Logger_AddValue: "map_of (Logger (AddValueToContextLogger ctx k v)) = (map_of (Logger ctx))(k \<mapsto> v)"
  by (simp add: Logger_def AddValueToContextLogger_def WithFields_def Let_def gomap_simps)

lemma ctx_Value_other:
  "k \<noteq> RequestIdKey \<Longrightarrow> ctx_Value (WithRequestId ctx i) k = ctx_Value ctx k"
  "k \<noteq> RequestIdKey \<Longrightarrow> ctx_Value (AddValueToContextLogger ctx key v) k = ctx_Value ctx k"
  by (simp_all add: WithRequestId_def AddValueToContextLogger_def Let_def)

text \<open>
  A context built from any other one by a request identifier and further values logs exactly the fields it already logged and the added ones, where
  later ones win, and keeps every other value.
\<close>

theorem context_logger_fields:
  "map_of (Logger (fold (\<lambda>(k, v) c. AddValueToContextLogger c k v) kvs (WithRequestId ctx i))) =
     map_of (Logger ctx) ++ map_of (rev ((RequestId, i) # kvs)) \<and>
   (\<forall>k. k \<noteq> RequestIdKey \<longrightarrow> ctx_Value (fold (\<lambda>(k, v) c. AddValueToContextLogger c k v) kvs (WithRequestId ctx i)) k = ctx_Value ctx k)"
proof (induction kvs rule: rev_induct)
  case Nil
  then show ?case by (simp add: Logger_WithRequestId ctx_Value_other fun_eq_iff map_add_def)
next
  case (snoc kv kvs)
  then show ?case by (cases kv) (simp add: Logger_AddValue ctx_Value_other fun_eq_iff map_add_def)
qed

end
