(* ===== verification/Composition.thy ===== *)
theory Composition
  imports Clients
begin

text \<open>
  A whole reconciliation over all backends of a group: how the turns of the loop follow each other on one
  cache and on backends that do not interfere, with the clients built from the configuration.
\<close>

section \<open>What is relied on\<close>

text \<open>A created team with a name has an identifier.\<close>

definition names_teams :: "'b client \<Rightarrow> bool" where
  "names_teams cl \<longleftrightarrow> (\<forall>t b t' b'. t_Name t \<noteq> [] \<longrightarrow> CreateTeam cl t b = (Inr t', b') \<longrightarrow> t_ID t' \<noteq> [])"

text \<open>The requests of a client leave the members of another backend alone.\<close>

definition keeps :: "'b client \<Rightarrow> ('b \<Rightarrow> string \<Rightarrow> string set) \<Rightarrow> bool" where
  "keeps cl M \<longleftrightarrow>
     (\<forall>t b. M (snd (CreateTeam cl t b)) = M b) \<and> (\<forall>u b. M (snd (CreateUser cl u b)) = M b) \<and>
     (\<forall>t b. M (snd (FetchTeamMembersByTeamID cl t b)) = M b) \<and>
     (\<forall>t us b. M (snd (AddUserToTeam cl t us b)) = M b) \<and> (\<forall>t us b. M (snd (RemoveUserFromTeam cl t us b)) = M b)"

abbreviation key_of :: "Backend \<Rightarrow> string" where
  "key_of be \<equiv> cacheKey (be_Name be) (be_Type be)"

text \<open>A backend of the group \<open>grp\<close> whose client meets the contract, for identifiers with \<open>P\<close> and members \<open>M\<close>.\<close>

definition works :: "('k, 'l, 'c, 'b) genv \<Rightarrow> string \<Rightarrow> string \<Rightarrow> (string \<Rightarrow> bool) \<Rightarrow> ('b \<Rightarrow> string \<Rightarrow> string set) \<Rightarrow> Backend \<Rightarrow> bool" where
  "works E grp name P M be \<longleftrightarrow>
     valid_utf8 (key_of be) \<and>
     GetTransformedGroupName (e_compile E) (e_Pattern E) (be_Type be) grp = Inr name \<and> name \<noteq> [] \<and> valid_utf8 name \<and>
     (\<forall>cl. e_new E (be_Name be) (be_Type be) = Inr cl \<longrightarrow>
        team_backend P cl M \<and> creates_teams cl \<and> creates_users cl \<and> creates_ids P cl \<and> names_teams cl)"

text \<open>The team has exactly the wanted members, according to the identifiers in \<open>d\<close>.\<close>

definition exact_team :: "LDAPUser gomap \<Rightarrow> string list \<Rightarrow> Backend \<Rightarrow> string \<Rightarrow> (string \<Rightarrow> string \<rightharpoonup> string) \<Rightarrow> (string \<Rightarrow> string set) \<Rightarrow> bool" where
  "exact_team ldap us be name d M \<longleftrightarrow>
     (let t = ident d name (key_of be); ids = (\<lambda>e. ident d e (key_of be)) ` set (emails ldap us)
      in t \<noteq> [] \<and> [] \<notin> ids \<and> M t \<subseteq> ids \<and> ids - {u \<in> set us. map_of ldap u = None} \<subseteq> M t)"

text \<open>Known identifiers stay, and only those of one backend are new.\<close>

definition grows :: "(string \<Rightarrow> string \<rightharpoonup> string) \<Rightarrow> (string \<Rightarrow> string \<rightharpoonup> string) \<Rightarrow> bool" where
  "grows d d' \<longleftrightarrow> (\<forall>k key. ident d k key \<noteq> [] \<longrightarrow> ident d' k key = ident d k key)"

lemma grows_trans: "grows d e \<Longrightarrow> grows e f \<Longrightarrow> grows d f"
  by (simp add: grows_def)

lemma extends_grows: "extends ks key d d' \<Longrightarrow> grows d d'"
  by (simp add: extends_def grows_def)

lemma extends_other: "extends ks key d d' \<Longrightarrow> key' \<noteq> key \<Longrightarrow> known_ids P key' d \<Longrightarrow> known_ids P key' d'"
  by (simp add: extends_def known_ids_def ident_def)

lemma exact_team_grows:
  assumes "exact_team ldap us be name d M" and "grows d d'"
  shows "exact_team ldap us be name d' M"
proof -
  let ?ids = "\<lambda>d. (\<lambda>e. ident d e (key_of be)) ` set (emails ldap us)"
  from assms have "ident d' name (key_of be) = ident d name (key_of be)" by (simp add: exact_team_def grows_def Let_def)
  moreover have "\<forall>e \<in> set (emails ldap us). ident d e (key_of be) \<noteq> []" using assms(1) by (force simp: exact_team_def Let_def)
  with assms(2) have "?ids d' = ?ids d" by (intro image_cong) (simp_all add: grows_def)
  ultimately show ?thesis using assms(1) by (simp only: exact_team_def Let_def simp_thms)
qed

section \<open>Turns that leave other backends alone\<close>

lemma keepsD:
  assumes "keeps cl M"
  shows "CreateTeam cl t b = (r1, b') \<Longrightarrow> M b' = M b" "CreateUser cl u b = (r2, b') \<Longrightarrow> M b' = M b"
    "FetchTeamMembersByTeamID cl i b = (r3, b') \<Longrightarrow> M b' = M b"
    "AddUserToTeam cl i us b = (r4, b') \<Longrightarrow> M b' = M b" "RemoveUserFromTeam cl i us b = (r4, b') \<Longrightarrow> M b' = M b"
  using assms unfolding keeps_def by (metis snd_conv)+

lemma fetchOrCreateTeam_keeps:
  assumes "keeps cl M" and "fetchOrCreateTeam compile Pattern cops cl grp bn ty (c, b) = (r, c', b')"
  shows "M b' = M b"
  using assms(2)
  by (auto simp: fetchOrCreateTeam_def create_team_def Let_def split: sum.splits prod.splits if_splits option.splits dest: keepsD(1) [OF assms(1)])

lemma create_user_keeps:
  assumes "keeps cl M" and "create_user cops cl key user d (c, b) = (r, c', b')"
  shows "M b' = M b"
  using assms(2) by (auto simp: create_user_def Let_def split: sum.splits prod.splits if_splits dest: keepsD(2) [OF assms(1)])

lemma createUsers_keeps:
  assumes "keeps cl M"
  shows "createUsersInBackendAndCache cops cl ldap bn ty us (c, b) = (r, c', b') \<Longrightarrow> M b' = M b"
proof (induction us arbitrary: c b)
  case (Cons u us)
  show ?case
  proof (cases "map_of ldap u")
    case None
    with Cons show ?thesis by simp
  next
    case (Some d)
    obtain r1 c1 b1 where s: "create_user cops cl (cacheKey bn ty) u d (c, b) = (r1, c1, b1)" by (rule prod_cases3)
    from create_user_keeps [OF assms s] Cons Some s show ?thesis by (cases r1) auto
  qed
qed simp

lemma apply_changes_keeps:
  assumes "keeps cl M" and "apply_changes cl t add rm b = (r, b')"
  shows "M b' = M b"
  using assms(2) keepsD(4,5) [OF assms(1)] by (fastforce simp: apply_changes_def split: prod.splits option.splits if_splits)

lemma sync_members_keeps:
  assumes "keeps cl M" and "sync_members E ldap us be cl t (c, b) = (r, c', b')"
  shows "M b' = M b"
proof -
  obtain r1 b1 where l: "FetchTeamMembersByTeamID cl t b = (r1, b1)" by (rule prod.exhaust)
  have "M b1 = M b" by (rule keepsD(3) [OF assms(1) l])
  with assms(2) l show ?thesis
    by (auto simp: sync_members_def split: sum.splits prod.splits option.splits dest: apply_changes_keeps [OF assms(1)])
qed

lemma reconcile_backend_keeps:
  assumes "\<And>cl. e_new E (be_Name be) (be_Type be) = Inr cl \<Longrightarrow> keeps cl M"
    and "reconcile_backend E grp ldap us be (c, b) = (r, c', b')"
  shows "M b' = M b"
proof (cases "e_new E (be_Name be) (be_Type be)")
  case (Inl e)
  with assms(2) show ?thesis by (simp add: reconcile_backend_def)
next
  case (Inr cl)
  note k = assms(1) [OF this]
  obtain r1 c1 b1 where 1: "fetchOrCreateTeam (e_compile E) (e_Pattern E) (e_cache E) cl grp (be_Name be) (be_Type be) (c, b) = (r1, c1, b1)"
    by (rule prod_cases3)
  obtain r2 c2 b2 where 2: "createUsersInBackendAndCache (e_cache E) cl ldap (be_Name be) (be_Type be) us (c1, b1) = (r2, c2, b2)"
    by (rule prod_cases3)
  note same = fetchOrCreateTeam_keeps [OF k 1] createUsers_keeps [OF k 2]
  show ?thesis
  proof (cases "\<exists>t. r1 = Inr t \<and> r2 = None")
    case True
    then obtain t where "r1 = Inr t" "r2 = None" by blast
    with assms(2) Inr 1 2 have "sync_members E ldap us be cl t (c2, b2) = (r, c', b')" by (simp add: reconcile_backend_def)
    from sync_members_keeps [OF k this] same show ?thesis by simp
  next
    case False
    with assms(2) Inr 1 2 same show ?thesis by (cases r1) (auto simp: reconcile_backend_def split: option.splits)
  qed
qed

section \<open>The loop without errors\<close>

lemma update_not_empty: "AList.update k v m \<noteq> []"
  by (cases m) (auto split: if_splits)

lemma errors_stay: "reconcile_backends E grp ldap us bes (errs, isErr) s = (Inr ([], isErr'), s') \<Longrightarrow> errs = []"
proof (induction bes arbitrary: errs isErr s)
  case (Cons be bes)
  obtain r s1 where "reconcile_backend E grp ldap us be s = (r, s1)" by (rule prod.exhaust)
  with Cons.IH [of errs isErr s1] Cons.IH [of "AList.update (be_Type be) _ errs" True s1] Cons.prems update_not_empty
  show ?case by (cases r) auto
qed simp

lemma succeeded_turn:
  assumes "reconcile_backends E grp ldap us (be # bes) (errs, isErr) s = (Inr ([], isErr'), s')"
  obtains s1 where "reconcile_backend E grp ldap us be s = (Succeeded, s1)" "reconcile_backends E grp ldap us bes (errs, isErr) s1 = (Inr ([], isErr'), s')"
proof -
  obtain r s1 where r: "reconcile_backend E grp ldap us be s = (r, s1)" by (rule prod.exhaust)
  show thesis
  proof (cases r)
    case Succeeded
    with assms r show thesis by (auto intro: that)
  next
    case (Failed e)
    with assms r have "reconcile_backends E grp ldap us bes (AList.update (be_Type be) (Error e) errs, True) s1 = (Inr ([], isErr'), s')" by simp
    from errors_stay [OF this] show thesis by (simp add: update_not_empty)
  next
    case (Aborted e)
    with assms r show thesis by simp
  qed
qed

section \<open>One turn after the other\<close>

context details_store
begin

lemma fetchOrCreateTeam_extends:
  assumes "inv c" and "GetTransformedGroupName compile Pattern ty grp = Inr name" and "name \<noteq> []" and "valid_utf8 name"
    and "creates_teams cl" and "names_teams cl" and "valid_utf8 (cacheKey bn ty)"
    and "fetchOrCreateTeam compile Pattern ops cl grp bn ty (c, b) = (Inr t, c', b')"
  shows "inv c' \<and> extends {name} (cacheKey bn ty) (D c) (D c') \<and> ident (D c') name (cacheKey bn ty) = t \<and> t \<noteq> []"
proof (cases "ident (D c) name (cacheKey bn ty) = []")
  case False
  from team_cached [OF assms(1,2) False, of cl b] assms(8) False show ?thesis by (auto simp: extends_refl)
next
  case True
  obtain ct b1 where ct: "CreateTeam cl (new_team name grp) b = (ct, b1)" by (rule prod.exhaust)
  show ?thesis
  proof (cases ct)
    case (Inl e)
    with team_create_fails [OF assms(1,2) True, of cl b e b1] ct assms(8) show ?thesis by auto
  next
    case (Inr team)
    have "t_Name (new_team name grp) = name" by (simp add: new_team_def)
    with ct Inr assms(3-6) have "valid_utf8 (t_ID team)" "t_ID team \<noteq> []" unfolding creates_teams_def names_teams_def by metis+
    with team_created [OF assms(1,2) True ct [unfolded Inr] assms(7)] assms(8) True show ?thesis
      by (auto simp: extends_def ident_update)
  qed
qed

lemma turn_exact:
  assumes "e_cache E = ops" and "go_range (e_iter E)" and "works E grp name P M be" and "inv c"
    and "known_ids P (key_of be) (D c)" and "named_users ldap us" and "reconcile_backend E grp ldap us be (c, b) = (Succeeded, c', b')"
  shows "inv c' \<and> (\<exists>ks. extends ks (key_of be) (D c) (D c')) \<and> exact_team ldap us be name (D c') (M b')"
proof -
  from assms(3) have name: "GetTransformedGroupName (e_compile E) (e_Pattern E) (be_Type be) grp = Inr name" "name \<noteq> []" "valid_utf8 name"
    and key: "valid_utf8 (key_of be)" by (simp_all add: works_def)
  from assms(7) obtain cl where cl: "e_new E (be_Name be) (be_Type be) = Inr cl" by (auto simp: reconcile_backend_def split: sum.splits)
  with assms(3) have contract: "team_backend P cl M" "creates_teams cl" "creates_users cl" "creates_ids P cl" "names_teams cl"
    by (simp_all add: works_def)
  obtain r1 c1 b1 where f: "fetchOrCreateTeam (e_compile E) (e_Pattern E) ops cl grp (be_Name be) (be_Type be) (c, b) = (r1, c1, b1)"
    by (rule prod_cases3)
  obtain r2 c2 b2 where u: "createUsersInBackendAndCache ops cl ldap (be_Name be) (be_Type be) us (c1, b1) = (r2, c2, b2)"
    by (rule prod_cases3)
  from assms(1,7) cl f u obtain t where t: "r1 = Inr t" "r2 = None" "sync_members E ldap us be cl t (c2, b2) = (Succeeded, c', b')"
    by (auto simp: reconcile_backend_def split: sum.splits option.splits)
  from fetchOrCreateTeam_extends [OF assms(4) name contract(2,5) key f [unfolded t(1)]]
  have c1: "inv c1" "extends {name} (key_of be) (D c) (D c1)" "ident (D c1) name (key_of be) = t" "t \<noteq> []" by simp_all
  have valid: "\<And>n. GetTransformedGroupName (e_compile E) (e_Pattern E) (be_Type be) grp = Inr n \<Longrightarrow> valid_utf8 n" using name by simp
  from fetchOrCreateTeam_inv [OF contract(2) key assms(4) valid f] contract(4) assms(5) t(1)
  have ids1: "known_ids P (key_of be) (D c1)" "P t" by auto
  from create_users [OF contract(3) key c1(1) u assms(6)] t(2)
  have c2: "inv c2" "extends (set (emails ldap us)) (key_of be) (D c1) (D c2)" "\<forall>e \<in> set (emails ldap us). ident (D c2) e (key_of be) \<noteq> []" by auto
  from create_users_ids [OF contract(3) key contract(4) c1(1) ids1(1) u assms(6)] have "known_ids P (key_of be) (D c2)" .
  note sync = sync_members_exact [OF assms(1,2) contract(1) c2(1,3) t(3) ids1(2) this]
  have "ident (D c2) name (key_of be) = t" using c2(2) c1(3,4) by (simp add: extends_def)
  with sync c2(3) c1(4) have "exact_team ldap us be name (D c') (M b')" by (auto simp: exact_team_def Let_def)
  moreover have "extends ({name} \<union> set (emails ldap us)) (key_of be) (D c) (D c')" using extends_trans [OF c1(2) c2(2)] sync by simp
  ultimately show ?thesis using sync by blast
qed

text \<open>All turns succeed, each backend is left with exactly the wanted members, and later turns do not change that.\<close>

lemma all_turns_exact:
  assumes "e_cache E = ops" and "go_range (e_iter E)" and "named_users ldap us"
    and "\<And>be. be \<in> set all \<Longrightarrow> works E grp (name be) (P be) (M be) be" and "inj_on key_of (set all)"
    and "\<And>be be' cl. be \<in> set all \<Longrightarrow> be' \<in> set all \<Longrightarrow> be \<noteq> be' \<Longrightarrow> e_new E (be_Name be') (be_Type be') = Inr cl \<Longrightarrow> keeps cl (M be)"
  shows "set bes \<subseteq> set all \<Longrightarrow> distinct bes \<Longrightarrow> inv c \<Longrightarrow> \<forall>be \<in> set bes. known_ids (P be) (key_of be) (D c) \<Longrightarrow>
    reconcile_backends E grp ldap us bes (errs, isErr) (c, b) = (Inr ([], isErr'), c', b') \<Longrightarrow>
    inv c' \<and> grows (D c) (D c') \<and> (\<forall>be \<in> set bes. exact_team ldap us be (name be) (D c') (M be b')) \<and>
    (\<forall>be \<in> set all - set bes. M be b' = M be b)"
proof (induction bes arbitrary: errs isErr c b)
  case Nil
  then show ?case by (simp add: grows_def)
next
  case (Cons be bes)
  from Cons.prems(5) obtain c1 b1 where s: "reconcile_backend E grp ldap us be (c, b) = (Succeeded, c1, b1)"
    and rest: "reconcile_backends E grp ldap us bes (errs, isErr) (c1, b1) = (Inr ([], isErr'), c', b')"
    by (rule succeeded_turn) auto
  have be: "be \<in> set all" "be \<notin> set bes" "set bes \<subseteq> set all" using Cons.prems(1,2) by auto
  from turn_exact [OF assms(1,2) assms(4) [OF be(1)] Cons.prems(3) _ assms(3) s] Cons.prems(4) obtain ks where
    1: "inv c1" "extends ks (key_of be) (D c) (D c1)" "exact_team ldap us be (name be) (D c1) (M be b1)" by auto
  have "known_ids (P be') (key_of be') (D c1)" if "be' \<in> set bes" for be'
  proof -
    have "key_of be' \<noteq> key_of be" using assms(5) that be by (auto simp: inj_on_def)
    from extends_other [OF 1(2) this] Cons.prems(4) that show ?thesis by simp
  qed
  with Cons.IH [OF be(3) _ 1(1) _ rest] Cons.prems(2) have
    2: "inv c'" "grows (D c1) (D c')" "\<forall>be \<in> set bes. exact_team ldap us be (name be) (D c') (M be b')" "\<forall>be \<in> set all - set bes. M be b' = M be b1" by auto
  have "M be b' = M be b1" using 2(4) be by simp
  with exact_team_grows [OF 1(3) 2(2)] have "exact_team ldap us be (name be) (D c') (M be b')" by simp
  moreover have "M be' b' = M be' b" if "be' \<in> set all - set (be # bes)" for be'
    using that 2(4) reconcile_backend_keeps [OF assms(6) [of be' be] s] be(1) by auto
  ultimately show ?case using 2 grows_trans [OF extends_grows [OF 1(2)] 2(2)] by auto
qed

end

section \<open>From the result back to the turns\<close>

lemma collected_users:
  assumes "fetchUniqueGroupMembers fuel get g ns [] = Some (Inr ms, vis)"
  shows "set (deduplicateMembers ms) = all_users get ns g"
  using fetch_result(1) [of fuel get g ns "[]" ms vis] assms by (simp add: explored_users_all)

lemma reconcile_live:
  assumes "kGet (e_kube E) (w_kube w) ns nm = Inr g" and "g_DeletionTimestamp g = None" and "prepare E now1 g (w_kube w) = (Inr g1, k)"
    and "Reconcile E now1 now2 ns nm w = Some (None, w')"
  obtains ms vis where "fetchUniqueGroupMembers (e_fuel E) (kGet (e_kube E) k) (GroupName (g_Spec g1)) (g_Namespace g1) [] = Some (Inr ms, vis)"
    "reconcile_members E now2 g1 ms (w\<lparr>w_kube := k\<rparr>) = (None, w')"
  using assms(4) unfolding Reconcile_def by (auto simp: assms(1-3) split: option.splits sum.splits prod.splits)

lemma reconcile_members_run:
  assumes "reconcile_members E now g1 ms w = (None, w')"
  obtains isErr where "reconcile_backends E (GroupName (g_Spec g1)) (fst (fetch_ldap_data E (deduplicateMembers ms) [] (w_ldap w))) (deduplicateMembers ms)
      (Backends (g_Spec g1)) ([], False) (w_cache w, w_backend w) = (Inr ([], isErr), w_cache w', w_backend w')"
proof -
  let ?us = "deduplicateMembers ms"
  obtain ldap l where l: "fetch_ldap_data E ?us [] (w_ldap w) = (ldap, l)" by (rule prod.exhaust)
  obtain r c b where r: "reconcile_backends E (GroupName (g_Spec g1)) ldap ?us (Backends (g_Spec g1)) ([], False) (w_cache w, w_backend w) = (r, c, b)"
    by (rule prod_cases3)
  show thesis
  proof (cases r)
    case (Inl e)
    with assms l r show thesis by (simp add: reconcile_members_def)
  next
    case (Inr p)
    obtain errs isErr where p: "p = (errs, isErr)" by (rule prod.exhaust)
    with Inr assms l r have "errs = []" "w_cache w' = c" "w_backend w' = b"
      by (auto simp: reconcile_members_def finish_def Let_def split: prod.splits if_splits)
    with that [of isErr] l r Inr p show thesis by simp
  qed
qed

end
