(* ===== verification/Spec2Isabelle.thy ===== *)
theory Spec2Isabelle
  imports Startup DeepCopy Logging Composition
begin

text \<open>
  Verification of usernaut, a Kubernetes operator that keeps the teams of external services in line with
  groups declared in a cluster.

  \<^bold>\<open>The program.\<close>  A Group resource (\<^verbatim>\<open>api/v1alpha1\<close>) names users, other groups and backends.  The reconciler
  (\<^verbatim>\<open>internal/controller/group_controller.go\<close>) collects the members of a group through its subgroups, looks
  the users up in LDAP (\<^verbatim>\<open>pkg/clients/ldap\<close>), and for every backend of the group finds or creates the team,
  creates missing users, compares the team's members with the wanted ones and adds and removes users.
  The backends are Fivetran, Rover and Snowflake (\<^verbatim>\<open>pkg/clients\<close>), behind one interface and chosen by the
  configuration (\<^verbatim>\<open>pkg/config\<close>).  Identifiers of teams and users are kept in a cache (\<^verbatim>\<open>pkg/cache\<close>), which
  \<^verbatim>\<open>cmd/main.go\<close> fills at the start.  A small HTTP API (\<^verbatim>\<open>internal/httpapi\<close>) lists the enabled backends.

  \<^bold>\<open>Conventions.\<close>  A Go call that returns a value and an error is a sum, with every error path and panic as a
  value (\<open>gerror\<close>); state is passed explicitly; Go maps are association lists with distinct keys, and the order of a range statement
  is a parameter \<open>it\<close> that \<open>go_range\<close> constrains to a permutation.  Strings are lists of bytes.  Code outside the repository
  (the Kubernetes client, the LDAP and Redis libraries, the Fivetran SDK, the HTTP transport, viper, the parser
  of regular expressions) is an argument of the definitions, with the behaviour relied on as a named predicate such as \<open>redis_ok\<close>,
  \<open>ft_memberships\<close>, \<open>rover_service\<close>, \<open>sf_service\<close> or \<open>deep_copier\<close>; a concrete service satisfies each of them in a witness.

  \<^bold>\<open>Theories.\<close>
  \<^item> Prelude: results, Go maps, iteration orders.  GoStrings, GoJson, GoRegexp, Base64: what the program uses of
    the Go library, with JSON and base64 round trips and the existence of enough fuel for the JSON parser.
  \<^item> GroupTypes: \<^verbatim>\<open>group_types.go\<close>.  Membership: \<^verbatim>\<open>fetchUniqueGroupMembers\<close>, \<^verbatim>\<open>deduplicateMembers\<close>; the collected
    members are those of the reachable groups, on cyclic references too.
  \<^item> GroupNames: \<^verbatim>\<open>GetTransformedGroupName\<close> of \<^verbatim>\<open>pkg/utils/utils.go\<close>.  MapToStruct: \<^verbatim>\<open>MapToStruct\<close> and its
    setters; type safety with integers at their width.
  \<^item> Cache: both cache drivers and the vendored store; they refine a map.  Details: the locale
    \<open>details_store\<close>, what the reconciler relies on of a cache of identifiers, obtained from the locale \<open>cache_store\<close>
    of caches and interpreted on the in-memory driver.
  \<^item> Structs: the data shared by the clients and the interface \<open>client\<close>.
  \<^item> Ldap: connection handling and user lookup.
  \<^item> Teams, Users, OwnerRefs, Reconcile: the methods of the reconciler in the order of the code; the exact
    effect of each on cache and backend, the order of finalizer, backends and status, and totality of \<^verbatim>\<open>Reconcile\<close>.
    The contract of backends is \<open>team_backend\<close>, \<open>creates_users\<close>, \<open>creates_teams\<close> and \<open>creates_ids\<close>.
  \<^item> Workers, Fivetran: the goroutines of a membership change as a step relation (progress, linearization, refinement by a
    single call) and the client.
  \<^item> Requests, JsonStructs, Rover, LinkHeader, Snowflake: outgoing HTTP requests, decoding into structs, and
    the two HTTP clients with their JSON documents and pagination; both meet the contract of backends.
  \<^item> Config, Clients: loading and substitution of the configuration, and \<^verbatim>\<open>clients.New\<close>; every client it returns
    meets the contract when the service behind it does.
  \<^item> Preload, HttpApi: \<^verbatim>\<open>preloadCache\<close>, and the middleware, handlers and routes of the HTTP API.
  \<^item> Server: \<^verbatim>\<open>Start\<close> and \<^verbatim>\<open>StopServer\<close> of the API server and the end of \<^verbatim>\<open>main\<close> as a step relation, with its
    invariants and the runs in which the process ends before the shutdown or a signal stops the API server alone.
  \<^item> Startup: the steps of \<^verbatim>\<open>main\<close> from the options of the manager to the API server, on typed fields of the
    configuration; a start that succeeds leaves a cache that meets the conditions of an exact reconciliation.
  \<^item> DeepCopy: the generated deep copies on a memory in which slices share arrays; a copy shows the same value and
    lives in memory of its own.  Logging: the logger in the context.
  \<^item> Composition: the turns of the loop over the backends on one cache, with backends that leave each other alone.
  \<^item> This theory: the whole reconciliation, from the groups in the cluster to the members of the teams, with configured
    clients; and preloading followed by reconciling.

  \<^bold>\<open>Fuel.\<close>  The recursion through the groups takes fuel; one more than the number of existing groups is shown to be enough.  The cursor and
  link loops of the clients take fuel because a service may link its pages in a circle; running out is a result of its own
  (\<open>does_not_return\<close>), and the listings are shown to return for every service with finitely many pages.  The JSON parser's fuel is the length of the text.

  \<^bold>\<open>Not modelled.\<close>  The parsing of the command line, the inside of the controller manager, the registration of types with
  the scheme and the calls of \<^verbatim>\<open>SetupWithManager\<close>, log messages and tracing, and the generated mocks of the tests: they call
  libraries and hold no logic of their own.  The generated deep copies are modelled on a memory of their own; everywhere else an
  object is a value.  Case mapping is that of ASCII.  Concurrent reconciliations are not interleaved: the controller runs one at a time.
\<close>

section \<open>A whole reconciliation\<close>

text \<open>
  C1: When \<^verbatim>\<open>Reconcile\<close> of a live group returns without an error, then in every backend of the group the team the cache names
  has exactly the wanted members at the end: they are the identifiers, not empty and found in the cache, of the users
  of all groups reachable from this one for whom LDAP data was found, and each of these users is a member, apart from identifiers that
  are equal to the name of a group user without LDAP data.  The clients are the ones the factory builds
  from the configuration; the services behind them behave as documented and do not change each other's teams.
\<close>

theorem reconcile_end_to_end:
  assumes "e_cache E = inmemory_cache clock" and "go_range (e_iter E)" and "e_new E = (\<lambda>n ty. New S hc n ty backends)"
    and "kGet (e_kube E) (w_kube w) ns nm = Inr g" and "g_DeletionTimestamp g = None" and "prepare E now1 g (w_kube w) = (Inr g1, k)"
    and "bes = Backends (g_Spec g1)" and "grp = GroupName (g_Spec g1)" and "distinct bes" and "inj_on key_of (set bes)"
    and "never_expires (w_cache w)" and "encoded (contents (w_cache w))"
    and "\<And>be. be \<in> set bes \<Longrightarrow> valid_utf8 (key_of be) \<and> known_ids (id_ok (be_Type be)) (key_of be) (details (contents (w_cache w)))"
    and "\<And>be. be \<in> set bes \<Longrightarrow>
           GetTransformedGroupName (e_compile E) (e_Pattern E) (be_Type be) grp = Inr (name be) \<and> name be \<noteq> [] \<and> valid_utf8 (name be)"
    and "\<And>be bcfg. be \<in> set bes \<Longrightarrow> lookup_backend backends (be_Type be) (be_Name be) = Some bcfg \<Longrightarrow> service_ok S (be_Type be) bcfg (M be)"
    and "\<And>be cl. be \<in> set bes \<Longrightarrow> New S hc (be_Name be) (be_Type be) backends = Inr cl \<Longrightarrow> names_teams cl"
    and "\<And>be be' cl. be \<in> set bes \<Longrightarrow> be' \<in> set bes \<Longrightarrow> be \<noteq> be' \<Longrightarrow> New S hc (be_Name be') (be_Type be') backends = Inr cl \<Longrightarrow> keeps cl (M be)"
    and "\<forall>u \<in> all_users (kGet (e_kube E) k) (g_Namespace g1) grp. good_name u"
    and "Reconcile E now1 now2 ns nm w = Some (None, w')"
  shows "\<exists>us ldap. distinct us \<and> set us = all_users (kGet (e_kube E) k) (g_Namespace g1) grp \<and>
           ldap = fst (fetch_ldap_data E us [] (w_ldap w)) \<and>
           (\<forall>be \<in> set bes. exact_team ldap us be (name be) (details (contents (w_cache w'))) (M be (w_backend w')))"
proof -
  from reconcile_live [OF assms(4-6,19)] obtain ms vis where
    ms: "fetchUniqueGroupMembers (e_fuel E) (kGet (e_kube E) k) grp (g_Namespace g1) [] = Some (Inr ms, vis)"
    and run: "reconcile_members E now2 g1 ms (w\<lparr>w_kube := k\<rparr>) = (None, w')" unfolding assms(8) .
  let ?us = "deduplicateMembers ms" and ?ldap = "fst (fetch_ldap_data E (deduplicateMembers ms) [] (w_ldap w))"
  from reconcile_members_run [OF run] obtain isErr where
    turns: "reconcile_backends E grp ?ldap ?us bes ([], False) (w_cache w, w_backend w) = (Inr ([], isErr), w_cache w', w_backend w')"
    by (auto simp: assms(7,8))
  from collected_users [OF ms] assms(18) have us: "set ?us = all_users (kGet (e_kube E) k) (g_Namespace g1) grp" "named_users ?ldap ?us"
    by (auto simp: named_users_def)
  have inv: "never_expires (w_cache w) \<and> encoded (contents (w_cache w))" using assms(11,12) ..
  have works: "works E grp (name be) (id_ok (be_Type be)) (M be) be" if be: "be \<in> set bes" for be
  proof -
    have "team_backend (id_ok (be_Type be)) cl (M be) \<and> creates_teams cl \<and> creates_users cl \<and> creates_ids (id_ok (be_Type be)) cl \<and> names_teams cl"
      if cl: "New S hc (be_Name be) (be_Type be) backends = Inr cl" for cl
    proof -
      from cl obtain bcfg where "lookup_backend backends (be_Type be) (be_Name be) = Some bcfg" by (cases rule: New_cases) auto
      from new_client_contract [OF cl this assms(15) [OF be this]] assms(16) [OF be cl] show ?thesis by simp
    qed
    with assms(3) assms(13,14) [OF be] show ?thesis by (simp add: works_def)
  qed
  have keeps: "keeps cl (M be)" if "be \<in> set bes" "be' \<in> set bes" "be \<noteq> be'" "e_new E (be_Name be') (be_Type be') = Inr cl" for be be' cl
    using assms(17) [OF that(1-3)] that(4) assms(3) by simp
  have ids: "\<forall>be \<in> set bes. known_ids (id_ok (be_Type be)) (key_of be) (details (contents (w_cache w)))" using assms(13) by blast
  have "(never_expires (w_cache w') \<and> encoded (contents (w_cache w'))) \<and> grows (details (contents (w_cache w))) (details (contents (w_cache w'))) \<and>
      (\<forall>be \<in> set bes. exact_team ?ldap ?us be (name be) (details (contents (w_cache w'))) (M be (w_backend w'))) \<and>
      (\<forall>be \<in> set bes - set bes. M be (w_backend w') = M be (w_backend w))"
    by (rule mem.det.all_turns_exact [OF assms(1,2) us(2) _ assms(10) _ subset_refl assms(9) inv ids turns])
      (erule works, erule (3) keeps)
  then have "\<forall>be \<in> set bes. exact_team ?ldap ?us be (name be) (details (contents (w_cache w'))) (M be (w_backend w'))" by blast
  with us(1) show ?thesis by (intro exI [of _ ?us] exI [of _ ?ldap]) simp
qed

text \<open>A Fivetran backend in front of the demo service.\<close>

definition fivetran_backends :: "BackendConfig gomap gomap" where
  "fivetran_backends = [(''fivetran'', [(''fv'', \<lparr>bc_Name = ''fv'', bc_Type = ''fivetran'', bc_Enabled = True,
     bc_Connection = [(''apikey'', VString ''k''), (''apisecret'', VString ''s'')]\<rparr>)])]"

definition configured_env :: "(demo_cluster, unit, InMemoryCache, demo) genv" where
  "configured_env = demo_env\<lparr>e_new := \<lambda>name ty. New demo_services (Inr (demo_pool, demo_hystrix)) name ty fivetran_backends\<rparr>"

abbreviation ft_demo_client :: "demo client" where
  "ft_demo_client \<equiv> fivetran_client 1 rev rev ft_demo"

lemma ToLower_fivetran: "ToLower ''fivetran'' = ''fivetran''"
  by code_simp

lemma configured_new: "New demo_services (Inr (demo_pool, demo_hystrix)) ''fv'' ''fivetran'' fivetran_backends = Inr ft_demo_client"
  by (simp add: New_def fivetran_backends_def lookup_backend_def ToLower_fivetran GetStringConnection_def demo_services_def)

lemma ft_demo_creates: "ft_creates ft_demo"
  by (auto simp: ft_creates_def ft_demo_def valid_ascii_list)

lemma configured_service:
  "lookup_backend fivetran_backends ''fivetran'' ''fv'' = Some bcfg \<Longrightarrow> service_ok demo_services ''fivetran'' bcfg (\<lambda>b t. set (demo_members b t))"
  using ft_demo_memberships ft_demo_creates
  by (auto simp: service_ok_def lookup_backend_def fivetran_backends_def ToLower_fivetran demo_services_def all_strings_def)

lemma configured_run:
  "\<exists>c'. reconcile_backend configured_env ''dataverse-platform-hr'' demo_ldap [''bob''] demo_backend (demo_cache, [(''hr_group'', [''old''])])
     = (Succeeded, c', [(''hr_group'', [''u-1''])])"
proof (rule demo_run_any [OF _ _ _ _ _ fivetran_creates(1) [OF ft_demo_creates]])
  show "FetchTeamMembersByTeamID ft_demo_client ''hr_group'' [(''hr_group'', [''old''])] = (Inr [(''old'', empty_user\<lparr>u_ID := ''old'', u_Role := ''Team Member''\<rparr>)], [(''hr_group'', [''old''])])"
    by code_simp
  show "apply_changes ft_demo_client ''hr_group'' [''u-1''] [''old''] [(''hr_group'', [''old''])] = (None, [(''hr_group'', [''u-1''])])"
    by code_simp
qed (simp_all add: configured_env_def demo_env_def configured_new)

lemma configured_fields:
  "e_kube configured_env = e_kube demo_env" "e_ldap configured_env = e_ldap demo_env" "e_conv configured_env = e_conv demo_env"
  "e_iter configured_env = e_iter demo_env"
  by (simp_all add: configured_env_def)

lemma configured_prepare: "prepare configured_env = prepare demo_env"
  by (simp only: fun_eq_iff prepare_def configured_fields simp_thms)

lemma configured_ldap: "fetch_ldap_data configured_env us acc l = fetch_ldap_data demo_env us acc l"
proof (induction us arbitrary: acc l)
  case (Cons u us)
  with configured_fields show ?case by (simp split: prod.split sum.split)
qed simp

lemma deduplicate_bob: "deduplicateMembers [''bob''] = [''bob'']"
  by (simp add: deduplicateMembers_def)

lemma configured_live_run:
  obtains w' g k where "Reconcile configured_env 1 2 ''ns'' ''dataverse-platform-hr'' live_world = Some (None, w')"
    "prepare configured_env 1 live_group (w_kube live_world) = (Inr g, k)" "g_Spec g = g_Spec live_group" "g_Namespace g = ''ns''"
    "all_users (kGet demo_kube k) ''ns'' ''dataverse-platform-hr'' = {''bob''}"
proof -
  from live_prepare [of 1] obtain g k where p: "prepare demo_env 1 live_group (w_kube live_world) = (Inr g, k)"
    "g_Spec g = g_Spec live_group" "g_Namespace g = ''ns''" "kGet demo_kube k ''ns'' ''dataverse-platform-hr'' = Inr g" by blast
  have e: "e_kube configured_env = demo_kube" "e_fuel configured_env = 5" by (simp_all add: configured_env_def demo_env_def)
  have kube: "kGet demo_kube (w_kube live_world) ''ns'' ''dataverse-platform-hr'' = Inr live_group" "g_DeletionTimestamp live_group = None"
    by (simp_all add: demo_kube_def live_group_def sample_group_def)
  have grp: "GroupName (g_Spec g) = ''dataverse-platform-hr''" "Backends (g_Spec g) = [demo_backend]" using p(2) by (simp_all add: live_group_def)
  have f: "fetchUniqueGroupMembers 5 (kGet demo_kube k) ''dataverse-platform-hr'' ''ns'' [] = Some (Inr [''bob''], [])"
    using p(2-4) by (simp add: live_group_def eval_nat_numeral)
  from configured_run obtain c' where
    run: "reconcile_backend configured_env ''dataverse-platform-hr'' demo_ldap [''bob''] demo_backend (demo_cache, [(''hr_group'', [''old''])])
      = (Succeeded, c', [(''hr_group'', [''u-1''])])" by blast
  have "\<exists>w'. reconcile_members configured_env 2 g [''bob''] (live_world\<lparr>w_kube := k\<rparr>) = (None, w')"
    using run grp by (simp add: reconcile_members_def deduplicate_bob configured_ldap demo_fetch_ldap finish_def Let_def
        split: prod.splits del: fetch_ldap_data.simps)
  then obtain w' where "reconcile_members configured_env 2 g [''bob''] (live_world\<lparr>w_kube := k\<rparr>) = (None, w')" by blast
  with p f kube grp(1) have "Reconcile configured_env 1 2 ''ns'' ''dataverse-platform-hr'' live_world = Some (None, w')"
    by (simp add: Reconcile_def e configured_prepare)
  moreover from collected_users [OF f] have "all_users (kGet demo_kube k) ''ns'' ''dataverse-platform-hr'' = {''bob''}"
    by (simp add: deduplicate_bob)
  ultimately show thesis using that p configured_prepare by metis
qed

lemma ft_demo_names_teams: "names_teams ft_demo_client"
  by (auto simp: names_teams_def fivetran_client_def ft_CreateTeam_def ft_demo_def)

theorem reconcile_end_to_end_witness:
  "\<exists>w'. Reconcile configured_env 1 2 ''ns'' ''dataverse-platform-hr'' live_world = Some (None, w') \<and>
     exact_team demo_ldap [''bob''] demo_backend ''hr_group'' (details (contents (w_cache w'))) (\<lambda>t. set (demo_members (w_backend w') t))"
proof -
  obtain w' g k where run: "Reconcile configured_env 1 2 ''ns'' ''dataverse-platform-hr'' live_world = Some (None, w')"
    and p: "prepare configured_env 1 live_group (w_kube live_world) = (Inr g, k)" "g_Spec g = g_Spec live_group" "g_Namespace g = ''ns''"
    and us: "all_users (kGet demo_kube k) ''ns'' ''dataverse-platform-hr'' = {''bob''}" by (rule configured_live_run)
  have spec: "[demo_backend] = Backends (g_Spec g)" "''dataverse-platform-hr'' = GroupName (g_Spec g)" using p(2) by (simp_all add: live_group_def)
  have env: "e_cache configured_env = inmemory_cache (\<lambda>n. 7)" "go_range (e_iter configured_env)"
    "e_new configured_env = (\<lambda>name ty. New demo_services (Inr (demo_pool, demo_hystrix)) name ty fivetran_backends)"
    "kGet (e_kube configured_env) (w_kube live_world) ''ns'' ''dataverse-platform-hr'' = Inr live_group" "g_DeletionTimestamp live_group = None"
    and e: "e_kube configured_env = demo_kube"
    by (simp_all add: configured_env_def demo_env_def go_range_rev demo_kube_def live_group_def sample_group_def)
  have cache: "never_expires (w_cache live_world)" "encoded (contents (w_cache live_world))" using demo_cache_ok by simp_all
  have ids: "known_ids (id_ok ''fivetran'') k d" for k d by (simp add: id_ok_def ToLower_fivetran known_ids_def)
  have name: "GetTransformedGroupName (e_compile configured_env) (e_Pattern configured_env) ''fivetran'' ''dataverse-platform-hr'' = Inr ''hr_group''"
    by (simp add: configured_env_def demo_env_def sample_name)
  have utf8: "valid_utf8 ''hr_group''" "good_name ''bob''" by (simp_all add: good_name_def valid_ascii_list)
  have "\<exists>us ldap. distinct us \<and> set us = all_users (kGet (e_kube configured_env) k) (g_Namespace g) ''dataverse-platform-hr'' \<and>
      ldap = fst (fetch_ldap_data configured_env us [] (w_ldap live_world)) \<and>
      (\<forall>be \<in> set [demo_backend]. exact_team ldap us be ''hr_group'' (details (contents (w_cache w'))) (\<lambda>t. set (demo_members (w_backend w') t)))"
    by (rule reconcile_end_to_end [OF env p(1) spec _ _ cache _ _ _ _ _ _ run, where name = "\<lambda>_. ''hr_group''" and M = "\<lambda>_ b t. set (demo_members b t)"])
      (use utf8 us p(3) name ids demo_key_valid configured_service configured_new ft_demo_names_teams in \<open>simp_all add: e\<close>)
  then obtain us ldap where "distinct us" "set us = {''bob''}" and l: "ldap = fst (fetch_ldap_data configured_env us [] ())"
    and ex: "exact_team ldap us demo_backend ''hr_group'' (details (contents (w_cache w'))) (\<lambda>t. set (demo_members (w_backend w') t))"
    using us p(3) by (auto simp: e simp del: fetch_ldap_data.simps)
  then have "us = [''bob'']" by (cases us) (auto simp: subset_singleton_iff distinct_singleton)
  with l ex run show ?thesis by (auto simp: configured_ldap demo_fetch_ldap simp del: fetch_ldap_data.simps)
qed

section \<open>Preloading and reconciling\<close>

lemma preloaded_ident:
  assumes "e \<in> fst ` set es" and "\<forall>(k, i) \<in> set es. i \<noteq> []"
  shows "ident (put_ids key es d) e key \<noteq> []"
proof -
  from assms(1) obtain i where i: "map_of (rev es) e = Some i"
    by (cases "map_of (rev es) e") (auto simp: map_of_entries_None image_iff)
  then have "(e, i) \<in> set es" using map_of_SomeD by fastforce
  with assms(2) i show ?thesis by (auto simp: ident_def put_ids_at)
qed

text \<open>
  C30: After preloading a backend, a reconciliation does not create a user again that the backend listed with the
  LDAP address and an identifier, in whatever order the listing was visited: for such users the
  creation step succeeds without a request to the backend.
\<close>

theorem preloaded_users_not_created:
  assumes "go_range it" and "valid_utf8 (cacheKey bn ty)" and "never_expires c" and "encoded (contents c)"
    and "FetchAllUsers cl b = (Inr (byID, byEmail), b1)" and "FetchAllTeams cl b1 = (Inr teams, b2)"
    and "wf_gomap byID" and "wf_gomap teams"
    and "\<forall>u \<in> snd ` set byID. u_ID u \<noteq> [] \<and> valid_utf8 (u_ID u)" and "\<forall>t \<in> snd ` set teams. t_ID t \<noteq> [] \<and> valid_utf8 (t_ID t)"
    and "creates_users cl" and "named_users ldap us" and "set (emails ldap us) \<subseteq> u_Email ` snd ` set byID"
  shows "\<exists>c' c''. preload_backend (inmemory_cache clock) it (cacheKey bn ty) cl (c, b) = (None, c', b2) \<and>
           createUsersInBackendAndCache (inmemory_cache clock) cl ldap bn ty us (c', b2) = (None, c'', b2)"
proof -
  let ?us = "map user_entry (values_in it byID)" and ?ts = "map team_entry (values_in it teams)"
  note vals = set_values_in [OF assms(1,7)] set_values_in [OF assms(1,8)]
  have inv: "never_expires c \<and> encoded (contents c)" using assms(3,4) ..
  have u: "\<forall>u \<in> set (values_in it byID). valid_utf8 (u_ID u)" and t: "\<forall>t \<in> set (values_in it teams). valid_utf8 (t_ID t)"
    using assms(9,10) vals by auto
  from mem.det.preload_backend_ok [OF assms(2) inv assms(5,6) u t, of clock] obtain c' where
    c': "preload_backend (inmemory_cache clock) it (cacheKey bn ty) cl (c, b) = (None, c', b2)" "never_expires c' \<and> encoded (contents c')"
      "details (contents c') = put_ids (cacheKey bn ty) (?us @ ?ts) (details (contents c))" by blast
  have "\<forall>e \<in> set (emails ldap us). ident (details (contents c')) e (cacheKey bn ty) \<noteq> []"
  proof
    fix e
    assume "e \<in> set (emails ldap us)"
    with assms(13) have "e \<in> u_Email ` set (values_in it byID)" unfolding vals(1) by (rule subsetD)
    then have "e \<in> fst ` set (?us @ ?ts)" by (simp add: user_entry_def image_Un image_image)
    moreover have "\<forall>(k, i) \<in> set (?us @ ?ts). i \<noteq> []" using assms(9,10) vals by (auto simp: user_entry_def team_entry_def)
    ultimately show "ident (details (contents c')) e (cacheKey bn ty) \<noteq> []" unfolding c'(3) by (rule preloaded_ident)
  qed
  from mem.det.create_users_known [OF assms(11,2) c'(2) this assms(12)] c'(1) show ?thesis by blast
qed

theorem preloaded_users_not_created_witness:
  "\<exists>c' c''. preload_backend (inmemory_cache (\<lambda>_. 0)) rev (cacheKey ''fv'' ''fivetran'') ft_demo_client (empty_cache, []) = (None, c', []) \<and>
     createUsersInBackendAndCache (inmemory_cache (\<lambda>_. 0)) ft_demo_client [(''a'', the (map_of demo_ldap ''bob'')\<lparr>Email := ''a@x''\<rparr>)] ''fv'' ''fivetran'' [''a'']
       (c', []) = (None, c'', [])"
proof -
  let ?a = "\<lparr>u_ID = ''1'', u_UserName = [], u_Email = ''a@x'', u_FirstName = ''A'', u_LastName = ''X'', u_DisplayName = ''A X'', u_Role = []\<rparr>"
    and ?b = "\<lparr>u_ID = ''2'', u_UserName = [], u_Email = ''b@x'', u_FirstName = ''B'', u_LastName = ''Y'', u_DisplayName = ''B Y'', u_Role = []\<rparr>"
  let ?t = "empty_team\<lparr>t_ID := ''t1'', t_Name := ''a''\<rparr>"
  have us: "FetchAllUsers ft_demo_client [] = (Inr ([(''a@x'', ?a), (''b@x'', ?b)], [(''1'', ?a), (''2'', ?b)]), [])" by code_simp
  have ts: "FetchAllTeams ft_demo_client [] = (Inr [(''a'', ?t)], [])" by code_simp
  have utf8: "valid_utf8 ''1''" "valid_utf8 ''2''" "valid_utf8 ''t1''" "valid_utf8 ''a''" by (simp_all add: valid_ascii_list)
  show ?thesis
    by (rule preloaded_users_not_created [OF go_range_rev demo_key_valid _ _ us ts _ _ _ _ fivetran_creates(1) [OF ft_demo_creates]])
      (use utf8 in \<open>simp_all add: wf_gomap_def named_users_def good_name_def\<close>)
qed

end
